(* ===== verification/Prelude.thy ===== *)
theory Prelude
  imports Main "HOL-Library.Word" "HOL-Library.Code_Target_Numeral"
begin

text \<open>
  Shared vocabulary of the development: machine integers and the checked arithmetic the Rust code
  uses on them, the state-and-error computations every stateful component is written in, and the
  part of the Rust string and path libraries the code relies on.  Strings are UTF-8 byte strings
  (one \<^typ>\<open>char\<close> per byte), so that \<^term>\<open>length\<close> is Rust's \<open>str::len\<close>.
\<close>

named_theorems run_simps \<open>unfolding rules of state-and-error computations\<close>
named_theorems obeys_intros \<open>relations respected by computations\<close>
named_theorems quiet_intros \<open>computations without effect on the stored state\<close>

section \<open>Machine integers\<close>

type_synonym u8 = "8 word"
type_synonym u32 = "32 word"
type_synonym u64 = "64 word"
type_synonym bytes = "u8 list"

text \<open>\<open>i64\<close> values are integers of the range below; casts from \<open>u64\<close> go through \<^term>\<open>sint\<close>.\<close>

type_synonym i64 = int

definition i64_max :: i64 where
  "i64_max = 9223372036854775807"

definition i64_min :: i64 where
  "i64_min = -9223372036854775808"

definition u64_max :: nat where
  "u64_max = 18446744073709551615"

definition checked_add_u64 :: "u64 \<Rightarrow> u64 \<Rightarrow> u64 option" where
  "checked_add_u64 a b = (if unat a + unat b \<le> u64_max then Some (a + b) else None)"

definition saturating_add_u64 :: "u64 \<Rightarrow> u64 \<Rightarrow> u64" where
  "saturating_add_u64 a b = (if unat a + unat b \<le> u64_max then a + b else - 1)"

definition checked_add_i64 :: "i64 \<Rightarrow> i64 \<Rightarrow> i64 option" where
  "checked_add_i64 a b = (if i64_min \<le> a + b \<and> a + b \<le> i64_max then Some (a + b) else None)"

text \<open>\<open>i64::try_from(u64)\<close>, \<open>u64::try_from(i64)\<close>, and \<open>u64::try_from(usize)\<close> on a length.\<close>

definition i64_of_u64 :: "u64 \<Rightarrow> i64 option" where
  "i64_of_u64 w = (if uint w \<le> i64_max then Some (uint w) else None)"

definition u64_of_i64 :: "i64 \<Rightarrow> u64 option" where
  "u64_of_i64 i = (if 0 \<le> i \<and> i \<le> i64_max then Some (word_of_int i) else None)"

definition u64_of_len :: "nat \<Rightarrow> u64" where
  "u64_of_len n = (if n \<le> u64_max then word_of_nat n else - 1)"

lemma u64_max_eq: "u64_max = 2 ^ 64 - 1"
  by (simp add: u64_max_def)

lemma unat_le_u64_max [simp]: "unat (w :: u64) \<le> u64_max"
  using unsigned_less [of w, where ?'a = nat] by (simp add: u64_max_def)

lemma unat_add_u64: "unat a + unat b \<le> u64_max \<Longrightarrow> unat ((a :: u64) + b) = unat a + unat b"
  by (simp add: unat_word_ariths u64_max_def)

lemma checked_add_u64_Some:
  "checked_add_u64 a b = Some c \<longleftrightarrow> unat c = unat a + unat b"
proof
  assume "checked_add_u64 a b = Some c"
  then show "unat c = unat a + unat b"
    by (auto simp: checked_add_u64_def unat_add_u64 split: if_splits)
next
  assume *: "unat c = unat a + unat b"
  then have le: "unat a + unat b \<le> u64_max" using unat_le_u64_max [of c] by simp
  with * have "unat c = unat (a + b)" by (simp add: unat_add_u64)
  then have "c = a + b" by (rule word_unat_eq_iff [THEN iffD2])
  with le show "checked_add_u64 a b = Some c" by (simp add: checked_add_u64_def)
qed

lemma checked_add_u64_None:
  "checked_add_u64 a b = None \<longleftrightarrow> u64_max < unat a + unat b"
  by (auto simp: checked_add_u64_def)

lemma unat_u64_of_len: "n \<le> u64_max \<Longrightarrow> unat (u64_of_len n) = n"
  by (simp add: u64_of_len_def u64_max_def unat_of_nat)

lemma unat_minus_one_u64: "unat (- 1 :: u64) = u64_max"
  by (simp add: u64_max_def unsigned_minus_1_eq_mask mask_eq_exp_minus_1)

lemma unat_u64_of_len_min: "unat (u64_of_len n) = min n u64_max"
proof (cases "n \<le> u64_max")
  case True
  then show ?thesis by (simp add: unat_u64_of_len)
next
  case False
  then show ?thesis using unat_minus_one_u64 by (simp add: u64_of_len_def)
qed

lemma unat_saturating_add: "unat (saturating_add_u64 a b) = min (unat a + unat b) u64_max"
  by (auto simp: saturating_add_u64_def unat_add_u64 unat_minus_one_u64)

lemma i64_of_u64_Some: "i64_of_u64 w = Some i \<Longrightarrow> i = int (unat w)"
  by (auto simp: i64_of_u64_def split: if_splits)

lemma u64_of_i64_Some: "u64_of_i64 i = Some w \<Longrightarrow> int (unat w) = i"
  by (auto simp: u64_of_i64_def i64_max_def unsigned_of_int take_bit_int_eq_self split: if_splits)

lemma u64_of_i64_of_u64: "i64_of_u64 w = Some i \<Longrightarrow> u64_of_i64 i = Some w"
  by (auto simp: i64_of_u64_def u64_of_i64_def split: if_splits)

section \<open>Searching rows\<close>

lemma find_map_same: "(\<And>x. P (f x) = P x) \<Longrightarrow> find P (map f xs) = map_option f (find P xs)"
  by (induction xs) auto

lemma find_append_miss: "\<not> list_ex P ys \<Longrightarrow> find P (xs @ ys) = find P xs"
  by (induction xs) (auto simp: find_None_iff list_ex_iff)

lemma find_SomeD: "find P xs = Some x \<Longrightarrow> x \<in> set xs \<and> P x"
  by (auto simp: find_Some_iff)

lemma find_Some_ex: "x \<in> set xs \<Longrightarrow> P x \<Longrightarrow> find P xs \<noteq> None"
  by (auto simp: find_None_iff)

section \<open>State-and-error computations\<close>

text \<open>
  A Rust function returning \<open>Result<A, E>\<close> and working on a state is a function from the state to
  the result and the next state; \<^term>\<open>Inl\<close> is \<open>Err\<close>, \<^term>\<open>Inr\<close> is \<open>Ok\<close>.  \<open>bindE\<close> is the \<open>?\<close>
  operator: the first error ends the computation and keeps the state reached.
\<close>

type_synonym ('s, 'e, 'a) sem = "'s \<Rightarrow> ('e + 'a) \<times> 's"

definition ret :: "'a \<Rightarrow> ('s, 'e, 'a) sem" where
  "ret x s = (Inr x, s)"

definition fail :: "'e \<Rightarrow> ('s, 'e, 'a) sem" where
  "fail e s = (Inl e, s)"

definition bindE :: "('s, 'e, 'a) sem \<Rightarrow> ('a \<Rightarrow> ('s, 'e, 'b) sem) \<Rightarrow> ('s, 'e, 'b) sem" where
  "bindE m f s = (case m s of (r, t) \<Rightarrow> (case r of Inl e \<Rightarrow> (Inl e, t) | Inr x \<Rightarrow> f x t))"

definition attempt :: "('s, 'e, 'a) sem \<Rightarrow> ('s, 'f, 'e + 'a) sem" where
  "attempt m s = (case m s of (r, t) \<Rightarrow> (Inr r, t))"

definition map_err :: "('e \<Rightarrow> 'f) \<Rightarrow> ('s, 'e, 'a) sem \<Rightarrow> ('s, 'f, 'a) sem" where
  "map_err g m s = (case m s of (r, t) \<Rightarrow> (case r of Inl e \<Rightarrow> (Inl (g e), t) | Inr x \<Rightarrow> (Inr x, t)))"

definition ensure :: "bool \<Rightarrow> 'e \<Rightarrow> ('s, 'e, unit) sem" where
  "ensure b e = (if b then ret () else fail e)"

definition of_result :: "'e + 'a \<Rightarrow> ('s, 'e, 'a) sem" where
  "of_result r s = (r, s)"

definition gets :: "('s \<Rightarrow> 'a) \<Rightarrow> ('s, 'e, 'a) sem" where
  "gets f s = (Inr (f s), s)"

definition modify :: "('s \<Rightarrow> 's) \<Rightarrow> ('s, 'e, unit) sem" where
  "modify f s = (Inr (), f s)"

text \<open>\<open>Option::ok_or\<close>.\<close>

definition ok_or :: "'e \<Rightarrow> 'a option \<Rightarrow> 'e + 'a" where
  "ok_or e v = (case v of None \<Rightarrow> Inl e | Some x \<Rightarrow> Inr x)"

lemma ret_run [run_simps]: "ret x s = (Inr x, s)"
  by (simp add: ret_def)

lemma fail_run [run_simps]: "fail e s = (Inl e, s)"
  by (simp add: fail_def)

lemma gets_run [run_simps]: "gets f s = (Inr (f s), s)"
  by (simp add: gets_def)

lemma modify_run [run_simps]: "modify f s = (Inr (), f s)"
  by (simp add: modify_def)

lemma of_result_run [run_simps]: "of_result r s = (r, s)"
  by (simp add: of_result_def)

lemma ok_or_simps [simp]:
  "ok_or e None = Inl e" "ok_or e (Some x) = Inr x"
  "ok_or e v = Inr y \<longleftrightarrow> v = Some y" "ok_or e v = Inl e' \<longleftrightarrow> v = None \<and> e' = e"
  by (auto simp: ok_or_def split: option.splits)

lemma ensure_run [run_simps]: "ensure b e s = (if b then Inr () else Inl e, s)"
  by (simp add: ensure_def ret_def fail_def)

lemma attempt_run [run_simps]: "attempt m s = (Inr (fst (m s)), snd (m s))"
  by (simp add: attempt_def split: prod.splits)

lemma bindE_Inr_iff:
  "bindE m f s = (Inr y, u) \<longleftrightarrow> (\<exists>x t. m s = (Inr x, t) \<and> f x t = (Inr y, u))"
  by (auto simp: bindE_def split: prod.splits sum.splits)

lemma bindE_Inl_iff:
  "bindE m f s = (Inl e, u) \<longleftrightarrow>
     m s = (Inl e, u) \<or> (\<exists>x t. m s = (Inr x, t) \<and> f x t = (Inl e, u))"
  by (auto simp: bindE_def split: prod.splits sum.splits)

lemma bindE_ok: "m s = (Inr x, t) \<Longrightarrow> bindE m f s = f x t"
  by (simp add: bindE_def)

lemma bindE_err: "m s = (Inl e, t) \<Longrightarrow> bindE m f s = (Inl e, t)"
  by (simp add: bindE_def)

lemma map_err_Inr_iff [simp]: "map_err g m s = (Inr x, t) \<longleftrightarrow> m s = (Inr x, t)"
  by (auto simp: map_err_def split: prod.splits sum.splits)

lemma map_err_Inl_iff: "map_err g m s = (Inl e, t) \<longleftrightarrow> (\<exists>d. m s = (Inl d, t) \<and> e = g d)"
  by (auto simp: map_err_def split: prod.splits sum.splits)

lemma bindE_ret [run_simps]: "bindE (ret x) f = f x"
  by (rule ext) (simp add: bindE_def ret_def)

lemma bindE_fail [run_simps]: "bindE (fail e) f = fail e"
  by (rule ext) (simp add: bindE_def fail_def)

lemma bindE_gets [run_simps]: "bindE (gets g) f s = f (g s) s"
  by (simp add: bindE_def gets_def)

lemma attempt_Inr: "attempt m s = (Inr q, t) \<longleftrightarrow> m s = (q, t)"
  by (auto simp: attempt_def split: prod.splits)

lemma of_result_Inr: "of_result q s = (Inr x, t) \<longleftrightarrow> q = Inr x \<and> t = s"
  by (auto simp: of_result_def)

lemma bindE_of_result [run_simps]:
  "bindE (of_result (Inr x)) f = f x" "bindE (of_result (Inl e)) f = fail e"
  by (rule ext, simp add: bindE_def of_result_def fail_def)+

lemma bindE_assoc: "bindE (bindE m f) g = bindE m (\<lambda>x. bindE (f x) g)"
  by (rule ext) (simp add: bindE_def split: prod.splits sum.splits)

lemma bindE_attempt: "bindE (attempt m) f s = f (fst (m s)) (snd (m s))"
  by (simp add: bindE_def attempt_run)

lemma bindE_gets_raw: "bindE (gets g) f = (\<lambda>s. f (g s) s)"
  by (rule ext) (simp add: bindE_gets)

subsection \<open>Relations every run obeys\<close>

text \<open>
  \<^term>\<open>obeys R m\<close>: whatever the computation returns, the state it leaves is related to the
  state it started from.  With a reflexive and transitive \<open>R\<close> this composes along \<^term>\<open>bindE\<close>,
  which is how every frame and monotonicity property of the development is proved.
\<close>

definition obeys :: "('s \<Rightarrow> 's \<Rightarrow> bool) \<Rightarrow> ('s, 'e, 'a) sem \<Rightarrow> bool" where
  "obeys R m \<longleftrightarrow> (\<forall>s. R s (snd (m s)))"

lemma obeysD: "obeys R m \<Longrightarrow> m s = (r, t) \<Longrightarrow> R s t"
  by (metis obeys_def snd_conv)

lemma obeysI: "(\<And>s r t. m s = (r, t) \<Longrightarrow> R s t) \<Longrightarrow> obeys R m"
  by (auto simp: obeys_def) (metis prod.exhaust_sel)

locale run_preorder =
  fixes R :: "'s \<Rightarrow> 's \<Rightarrow> bool"
  assumes R_refl: "R s s"
    and R_trans: "R s t \<Longrightarrow> R t u \<Longrightarrow> R s u"
begin

lemma obeys_ret: "obeys R (ret x)"
  by (simp add: obeys_def ret_def R_refl)

lemma obeys_fail: "obeys R (fail e)"
  by (simp add: obeys_def fail_def R_refl)

lemma obeys_gets: "obeys R (gets f)"
  by (simp add: obeys_def gets_def R_refl)

lemma obeys_ensure: "obeys R (ensure b e)"
  by (simp add: ensure_def obeys_ret obeys_fail)

lemma obeys_of_result: "obeys R (of_result r)"
  by (simp add: obeys_def of_result_def R_refl)

lemma obeys_bindE:
  assumes "obeys R m" and "\<And>x. obeys R (f x)"
  shows "obeys R (bindE m f)"
proof (rule obeysI)
  fix s r u
  assume run: "bindE m f s = (r, u)"
  obtain q t where q: "m s = (q, t)" by fastforce
  with assms(1) have "R s t" by (rule obeysD)
  moreover have "R t u"
    using run q assms(2) R_refl
    by (cases q) (auto simp: bindE_def dest: obeysD)
  ultimately show "R s u" by (rule R_trans)
qed

lemma obeys_attempt: "obeys R m \<Longrightarrow> obeys R (attempt m)"
  by (simp add: obeys_def attempt_run)

lemma obeys_map_err: "obeys R m \<Longrightarrow> obeys R (map_err g m)"
  by (auto simp: obeys_def map_err_def split: prod.splits sum.splits) (metis snd_conv)+

lemma obeys_if: "obeys R m \<Longrightarrow> obeys R n \<Longrightarrow> obeys R (if b then m else n)"
  by simp

lemma obeys_let: "obeys R (f v) \<Longrightarrow> obeys R (Let v f)"
  by simp

lemma obeys_case_option:
  "obeys R m \<Longrightarrow> (\<And>x. obeys R (f x)) \<Longrightarrow> obeys R (case v of None \<Rightarrow> m | Some x \<Rightarrow> f x)"
  by (cases v) auto

lemma obeys_case_sum:
  "(\<And>x. obeys R (f x)) \<Longrightarrow> (\<And>x. obeys R (g x)) \<Longrightarrow>
    obeys R (case v of Inl x \<Rightarrow> f x | Inr x \<Rightarrow> g x)"
  by (cases v) auto

lemma obeys_case_bool:
  "obeys R m \<Longrightarrow> obeys R n \<Longrightarrow> obeys R (case v of True \<Rightarrow> m | False \<Rightarrow> n)"
  by (cases v) auto

lemma obeys_case_prod:
  "(\<And>x y. obeys R (f x y)) \<Longrightarrow> obeys R (case v of (x, y) \<Rightarrow> f x y)"
  by (cases v) auto

lemmas obeys_rules = obeys_ret obeys_fail obeys_gets obeys_ensure
  obeys_of_result obeys_bindE obeys_attempt obeys_map_err obeys_if obeys_let
  obeys_case_option obeys_case_sum obeys_case_bool obeys_case_prod

end

end
