(* ===== verification/Rust_Text.thy ===== *)
theory Rust_Text
  imports Prelude
begin

text \<open>
  The part of Rust's \<open>str\<close>, \<open>char\<close> and \<open>std::path\<close> the server relies on, over UTF-8 byte strings:
  ASCII classes, \<open>trim\<close> (with the Unicode \<open>White_Space\<close> encodings), \<open>char::is_control\<close>, \<open>split\<close>,
  \<open>strip_prefix\<close>, decimal formatting, and \<open>Path::components\<close>, \<open>join\<close>, \<open>parent\<close> and \<open>file_name\<close>.
\<close>

section \<open>Bytes of a string\<close>

definition code :: "char \<Rightarrow> nat" where
  "code c = of_char c"

definition is_ascii_digit :: "char \<Rightarrow> bool" where
  "is_ascii_digit c \<longleftrightarrow> 48 \<le> code c \<and> code c \<le> 57"

definition is_ascii_upper :: "char \<Rightarrow> bool" where
  "is_ascii_upper c \<longleftrightarrow> 65 \<le> code c \<and> code c \<le> 90"

definition is_ascii_lower :: "char \<Rightarrow> bool" where
  "is_ascii_lower c \<longleftrightarrow> 97 \<le> code c \<and> code c \<le> 122"

definition is_ascii_hexdigit :: "char \<Rightarrow> bool" where
  "is_ascii_hexdigit c \<longleftrightarrow> is_ascii_digit c \<or> (65 \<le> code c \<and> code c \<le> 70) \<or> (97 \<le> code c \<and> code c \<le> 102)"

definition to_ascii_lower :: "char \<Rightarrow> char" where
  "to_ascii_lower c = (if is_ascii_upper c then char_of (code c + 32) else c)"

definition to_ascii_lowercase :: "string \<Rightarrow> string" where
  "to_ascii_lowercase = map to_ascii_lower"

definition eq_ignore_ascii_case :: "string \<Rightarrow> string \<Rightarrow> bool" where
  "eq_ignore_ascii_case a b \<longleftrightarrow> to_ascii_lowercase a = to_ascii_lowercase b"

definition is_ascii :: "string \<Rightarrow> bool" where
  "is_ascii s \<longleftrightarrow> (\<forall>c \<in> set s. code c < 128)"

definition byte_at :: "nat \<Rightarrow> string \<Rightarrow> nat" where
  "byte_at i s = (if i < length s then code (s ! i) else 256)"

section \<open>Trimming and control characters\<close>

text \<open>Length of the white-space character a string starts with, 0 for none.\<close>

definition ws_len :: "string \<Rightarrow> nat" where
  "ws_len s = (let a = byte_at 0 s; b = byte_at 1 s; c = byte_at 2 s in
     if (9 \<le> a \<and> a \<le> 13) \<or> a = 32 then 1
     else if a = 0xC2 \<and> (b = 0x85 \<or> b = 0xA0) then 2
     else if a = 0xE1 \<and> b = 0x9A \<and> c = 0x80 then 3
     else if a = 0xE2 \<and> b = 0x80 \<and> ((0x80 \<le> c \<and> c \<le> 0x8A) \<or> c = 0xA8 \<or> c = 0xA9 \<or> c = 0xAF) then 3
     else if a = 0xE2 \<and> b = 0x81 \<and> c = 0x9F then 3
     else if a = 0xE3 \<and> b = 0x80 \<and> c = 0x80 then 3
     else 0)"

text \<open>The same at the end of a string: the candidates are its last one, two and three bytes.\<close>

definition ws_end_len :: "string \<Rightarrow> nat" where
  "ws_end_len s = (let n = length s in
     if 1 \<le> n \<and> ws_len (drop (n - 1) s) = 1 then 1
     else if 2 \<le> n \<and> ws_len (drop (n - 2) s) = 2 then 2
     else if 3 \<le> n \<and> ws_len (drop (n - 3) s) = 3 then 3
     else 0)"

lemma byte_at_Nil [simp]: "byte_at i [] = 256"
  by (simp add: byte_at_def)

lemma ws_len_Nil [simp]: "ws_len [] = 0"
  by (simp add: ws_len_def)

lemma ws_end_len_le: "ws_end_len s \<le> length s"
  by (simp add: ws_end_len_def Let_def)

function trim_start :: "string \<Rightarrow> string" where
  "trim_start s = (if ws_len s = 0 then s else trim_start (drop (ws_len s) s))"
  by pat_completeness auto
termination
proof (relation "measure length")
  fix s :: string
  assume "ws_len s \<noteq> 0"
  moreover from this have "s \<noteq> []" by auto
  ultimately show "(drop (ws_len s) s, s) \<in> measure length" by simp
qed simp

function trim_end :: "string \<Rightarrow> string" where
  "trim_end s = (if ws_end_len s = 0 then s else trim_end (take (length s - ws_end_len s) s))"
  by pat_completeness auto
termination
proof (relation "measure length")
  fix s :: string
  assume "ws_end_len s \<noteq> 0"
  then show "(take (length s - ws_end_len s) s, s) \<in> measure length"
    using ws_end_len_le [of s] by simp
qed simp

declare trim_start.simps [simp del] trim_end.simps [simp del]

definition trim :: "string \<Rightarrow> string" where
  "trim s = trim_end (trim_start s)"

lemma trim_start_suffix: "\<exists>p. s = p @ trim_start s"
proof (induction s rule: trim_start.induct)
  case (1 s)
  show ?case
  proof (cases "ws_len s = 0")
    case True
    then show ?thesis by (simp add: trim_start.simps [of s])
  next
    case False
    with "1.IH" obtain p where "drop (ws_len s) s = p @ trim_start (drop (ws_len s) s)" by blast
    then have "s = (take (ws_len s) s @ p) @ trim_start s"
      using False by (metis append.assoc append_take_drop_id trim_start.simps)
    then show ?thesis by blast
  qed
qed

lemma trim_start_stop: "ws_len (trim_start s) = 0"
  by (induction s rule: trim_start.induct) (metis trim_start.simps)

lemma trim_end_stop: "ws_end_len (trim_end s) = 0"
  by (induction s rule: trim_end.induct) (metis trim_end.simps)

lemma trim_end_id: "ws_end_len s = 0 \<Longrightarrow> trim_end s = s"
  by (simp add: trim_end.simps)

lemma trim_start_id: "ws_len s = 0 \<Longrightarrow> trim_start s = s"
  by (simp add: trim_start.simps)

lemma trim_id: "ws_len s = 0 \<Longrightarrow> ws_end_len s = 0 \<Longrightarrow> trim s = s"
  by (simp add: trim_def trim_start_id trim_end_id)

lemma trim_Nil [simp]: "trim [] = []"
  by (simp add: trim_id ws_end_len_def)

text \<open>\<open>char::is_control\<close> holds for U+0000..U+001F, U+007F and U+0080..U+009F.\<close>

fun has_control :: "string \<Rightarrow> bool" where
  "has_control [] = False"
| "has_control (c # cs) = (code c < 32 \<or> code c = 127 \<or>
     (code c = 0xC2 \<and> 0x80 \<le> byte_at 0 cs \<and> byte_at 0 cs \<le> 0x9F) \<or> has_control cs)"

text \<open>\<open>chars().count()\<close>: every byte but the continuation bytes starts a character.\<close>

definition char_count :: "string \<Rightarrow> nat" where
  "char_count s = length (filter (\<lambda>c. \<not> (0x80 \<le> code c \<and> code c < 0xC0)) s)"

text \<open>\<open>str::from_utf8\<close>: well-formed UTF-8 (no overlong forms, no surrogates, nothing above U+10FFFF).\<close>

definition is_cont :: "nat \<Rightarrow> bool" where
  "is_cont b \<longleftrightarrow> 0x80 \<le> b \<and> b \<le> 0xBF"

definition utf8_len :: "string \<Rightarrow> nat" where
  "utf8_len s = (let a = byte_at 0 s; b = byte_at 1 s; c = byte_at 2 s; d = byte_at 3 s in
     if a < 0x80 then 1
     else if 0xC2 \<le> a \<and> a \<le> 0xDF \<and> is_cont b then 2
     else if a = 0xE0 \<and> 0xA0 \<le> b \<and> b \<le> 0xBF \<and> is_cont c then 3
     else if (0xE1 \<le> a \<and> a \<le> 0xEC \<or> a = 0xEE \<or> a = 0xEF) \<and> is_cont b \<and> is_cont c then 3
     else if a = 0xED \<and> 0x80 \<le> b \<and> b \<le> 0x9F \<and> is_cont c then 3
     else if a = 0xF0 \<and> 0x90 \<le> b \<and> b \<le> 0xBF \<and> is_cont c \<and> is_cont d then 4
     else if 0xF1 \<le> a \<and> a \<le> 0xF3 \<and> is_cont b \<and> is_cont c \<and> is_cont d then 4
     else if a = 0xF4 \<and> 0x80 \<le> b \<and> b \<le> 0x8F \<and> is_cont c \<and> is_cont d then 4
     else 0)"

function valid_utf8 :: "string \<Rightarrow> bool" where
  "valid_utf8 s = (if s = [] then True else if utf8_len s = 0 then False
     else valid_utf8 (drop (utf8_len s) s))"
  by pat_completeness auto
termination
proof (relation "measure length")
  fix s :: string
  assume "s \<noteq> []" "utf8_len s \<noteq> 0"
  then show "(drop (utf8_len s) s, s) \<in> measure length" by simp
qed simp

declare valid_utf8.simps [simp del]

section \<open>Prefixes, suffixes, splitting\<close>

definition starts_with :: "string \<Rightarrow> string \<Rightarrow> bool" where
  "starts_with p s \<longleftrightarrow> take (length p) s = p"

definition ends_with :: "string \<Rightarrow> string \<Rightarrow> bool" where
  "ends_with p s \<longleftrightarrow> length p \<le> length s \<and> drop (length s - length p) s = p"

definition strip_prefix :: "string \<Rightarrow> string \<Rightarrow> string option" where
  "strip_prefix p s = (if starts_with p s then Some (drop (length p) s) else None)"

definition strip_suffix :: "string \<Rightarrow> string \<Rightarrow> string option" where
  "strip_suffix p s = (if ends_with p s then Some (take (length s - length p) s) else None)"

lemma starts_with_iff: "starts_with p s \<longleftrightarrow> (\<exists>r. s = p @ r)"
  by (auto simp: starts_with_def) (metis append_take_drop_id)

lemma ends_with_iff: "ends_with p s \<longleftrightarrow> (\<exists>r. s = r @ p)"
  by (auto simp: ends_with_def) (metis append_take_drop_id)

lemma strip_prefix_Some: "strip_prefix p s = Some r \<longleftrightarrow> s = p @ r"
  by (auto simp: strip_prefix_def starts_with_iff)

lemma strip_suffix_Some: "strip_suffix p s = Some r \<longleftrightarrow> s = r @ p"
  by (auto simp: strip_suffix_def ends_with_iff)

lemma strip_prefix_append [simp]: "strip_prefix p (p @ r) = Some r"
  by (simp add: strip_prefix_Some)

lemma strip_suffix_append [simp]: "strip_suffix p (r @ p) = Some r"
  by (simp add: strip_suffix_Some)

fun split_on :: "char \<Rightarrow> string \<Rightarrow> string list" where
  "split_on d [] = [[]]"
| "split_on d (c # cs) = (if c = d then [] # split_on d cs
     else (case split_on d cs of [] \<Rightarrow> [[c]] | p # ps \<Rightarrow> (c # p) # ps))"

fun join_with :: "char \<Rightarrow> string list \<Rightarrow> string" where
  "join_with d [] = []"
| "join_with d [p] = p"
| "join_with d (p # q # ps) = p @ d # join_with d (q # ps)"

lemma split_on_not_Nil [simp]: "split_on d s \<noteq> []"
  by (cases s) (auto split: list.splits)

lemma split_on_free: "p \<in> set (split_on d s) \<Longrightarrow> d \<notin> set p"
  by (induction d s arbitrary: p rule: split_on.induct) (auto split: list.splits if_splits)

lemma join_split [simp]: "join_with d (split_on d s) = s"
proof (induction d s rule: split_on.induct)
  case (1 d)
  then show ?case by simp
next
  case (2 d c cs)
  obtain p ps where split: "split_on d cs = p # ps" by (cases "split_on d cs") auto
  show ?case
  proof (cases "c = d")
    case True
    with 2 split show ?thesis by simp
  next
    case False
    with 2 split show ?thesis by (cases ps) auto
  qed
qed

lemma split_on_no_sep: "d \<notin> set s \<Longrightarrow> split_on d s = [s]"
  by (induction s) auto

lemma split_on_append: "d \<notin> set p \<Longrightarrow> split_on d (p @ d # s) = p # split_on d s"
  by (induction p) auto

lemma split_join: "ps \<noteq> [] \<Longrightarrow> (\<And>p. p \<in> set ps \<Longrightarrow> d \<notin> set p) \<Longrightarrow> split_on d (join_with d ps) = ps"
  by (induction d ps rule: join_with.induct) (simp_all add: split_on_no_sep split_on_append)

lemma join_with_append:
  "ps \<noteq> [] \<Longrightarrow> qs \<noteq> [] \<Longrightarrow> join_with d (ps @ qs) = join_with d ps @ d # join_with d qs"
proof (induction d ps rule: join_with.induct)
  case (2 d p)
  then show ?case by (cases qs) auto
qed auto

lemma split_on_app: "split_on d (s @ d # t) = split_on d s @ split_on d t"
proof (induction s)
  case (Cons c s)
  obtain p ps where "split_on d s = p # ps" by (cases "split_on d s") auto
  with Cons show ?case by auto
qed simp

text \<open>\<open>split_once\<close>: the text before and after the first separator.\<close>

fun split_once :: "char \<Rightarrow> string \<Rightarrow> (string \<times> string) option" where
  "split_once d [] = None"
| "split_once d (c # cs) = (if c = d then Some ([], cs)
     else map_option (\<lambda>(a, b). (c # a, b)) (split_once d cs))"

lemma split_once_Some: "split_once d s = Some (a, b) \<longleftrightarrow> s = a @ d # b \<and> d \<notin> set a"
proof (induction s arbitrary: a)
  case (Cons c cs)
  then show ?case by (cases a) auto
qed simp

lemma split_once_None: "split_once d s = None \<longleftrightarrow> d \<notin> set s"
  by (induction s) auto

section \<open>Decimal numbers\<close>

definition digit_char :: "nat \<Rightarrow> char" where
  "digit_char n = char_of (48 + n)"

fun show_nat :: "nat \<Rightarrow> string" where
  "show_nat n = (if n < 10 then [digit_char n] else show_nat (n div 10) @ [digit_char (n mod 10)])"

declare show_nat.simps [simp del]

definition dec_value :: "string \<Rightarrow> nat" where
  "dec_value = foldl (\<lambda>v c. 10 * v + (code c - 48)) 0"

text \<open>\<open>format!("{index:08}")\<close>.\<close>

definition fmt08 :: "nat \<Rightarrow> string" where
  "fmt08 n = (let s = show_nat n in replicate (8 - length s) (CHR ''0'') @ s)"

lemma code_digit_char: "n < 10 \<Longrightarrow> code (digit_char n) = 48 + n"
  by (simp add: code_def digit_char_def of_char_of)

lemma dec_value_show_nat: "dec_value (show_nat n) = n"
proof (induction n rule: show_nat.induct)
  case (1 n)
  show ?case
  proof (cases "n < 10")
    case True
    then show ?thesis by (simp add: show_nat.simps [of n] dec_value_def code_digit_char)
  next
    case False
    with 1 have "dec_value (show_nat (n div 10)) = n div 10" by simp
    with False show ?thesis
      by (simp add: show_nat.simps [of n] dec_value_def code_digit_char)
  qed
qed

lemma dec_value_zeros: "dec_value (replicate k (CHR ''0'') @ s) = dec_value s"
proof -
  have "foldl (\<lambda>v c. 10 * v + (code c - 48)) 0 (replicate k (CHR ''0'')) = 0"
    by (induction k) (simp_all add: code_def)
  then show ?thesis by (simp add: dec_value_def)
qed

lemma dec_value_fmt08: "dec_value (fmt08 n) = n"
  by (simp add: fmt08_def dec_value_zeros dec_value_show_nat Let_def)

lemma fmt08_inj: "fmt08 m = fmt08 n \<Longrightarrow> m = n"
  by (metis dec_value_fmt08)

lemma show_nat_digits: "c \<in> set (show_nat n) \<Longrightarrow> is_ascii_digit c"
proof (induction n rule: show_nat.induct)
  case (1 n)
  then show ?case
    by (subst (asm) (2) show_nat.simps)
       (auto simp: is_ascii_digit_def code_digit_char split: if_splits)
qed

lemma show_nat_not_Nil [simp]: "show_nat n \<noteq> []"
  by (subst show_nat.simps) simp

lemma fmt08_digits: "c \<in> set (fmt08 n) \<Longrightarrow> is_ascii_digit c"
  by (auto simp: fmt08_def Let_def is_ascii_digit_def code_def dest: show_nat_digits)

lemma fmt08_not_Nil [simp]: "fmt08 n \<noteq> []"
  by (simp add: fmt08_def Let_def)

text \<open>
  \<open>str::parse\<close> at an unsigned type of the given largest value: an optional \<open>+\<close>, then at least one
  decimal digit.
\<close>

definition parse_unsigned :: "nat \<Rightarrow> string \<Rightarrow> nat option" where
  "parse_unsigned limit s = (let d = (case s of CHR ''+'' # t \<Rightarrow> t | _ \<Rightarrow> s) in
     if d \<noteq> [] \<and> list_all is_ascii_digit d \<and> dec_value d \<le> limit then Some (dec_value d) else None)"

lemma parse_unsigned_le: "parse_unsigned limit s = Some n \<Longrightarrow> n \<le> limit"
  by (auto simp: parse_unsigned_def Let_def split: if_splits)

lemma parse_unsigned_show_nat: "n \<le> limit \<Longrightarrow> parse_unsigned limit (show_nat n) = Some n"
proof -
  assume "n \<le> limit"
  have all: "list_all is_ascii_digit (show_nat n)"
    by (simp add: list_all_iff show_nat_digits)
  have "hd (show_nat n) \<noteq> CHR ''+''"
    using show_nat_digits [of "hd (show_nat n)" n] by (auto simp: is_ascii_digit_def code_def)
  then have "(case show_nat n of CHR ''+'' # t \<Rightarrow> t | _ \<Rightarrow> show_nat n) = show_nat n"
    by (cases "show_nat n") (auto split: char.splits bool.splits)
  with all \<open>n \<le> limit\<close> show ?thesis
    by (simp add: parse_unsigned_def dec_value_show_nat)
qed

section \<open>Paths\<close>

text \<open>
  A \<open>Path\<close> is kept as the list of its components, which is what Rust's \<open>Path\<close> equality compares.
  Repeated separators, a trailing separator and every \<open>.\<close> but a leading one are dropped by
  \<open>Path::components\<close>; a path is absolute when it starts at the root.
\<close>

datatype path_component = RootDir | CurDir | ParentDir | Normal string

type_synonym path = "path_component list"

definition component_of :: "string \<Rightarrow> path_component list" where
  "component_of p = (if p = [] \<or> p = ''.'' then [] else if p = ''..'' then [ParentDir] else [Normal p])"

definition path_of :: "string \<Rightarrow> path" where
  "path_of s = (case split_on (CHR ''/'') s of
       [] \<Rightarrow> []
     | p # ps \<Rightarrow> (if p = [] \<and> ps \<noteq> [] then [RootDir] else if p = ''.'' then [CurDir] else component_of p)
         @ concat (map component_of ps))"

definition is_absolute :: "path \<Rightarrow> bool" where
  "is_absolute p \<longleftrightarrow> (case p of RootDir # _ \<Rightarrow> True | _ \<Rightarrow> False)"

definition path_join :: "path \<Rightarrow> path \<Rightarrow> path" where
  "path_join a b = (if is_absolute b then b
     else if a = [] then b
     else a @ (case b of CurDir # cs \<Rightarrow> cs | _ \<Rightarrow> b))"

definition path_parent :: "path \<Rightarrow> path option" where
  "path_parent p = (if p = [] \<or> last p = RootDir then None else Some (butlast p))"

definition path_file_name :: "path \<Rightarrow> string option" where
  "path_file_name p = (if p = [] then None else case last p of Normal n \<Rightarrow> Some n | _ \<Rightarrow> None)"

fun path_strip_prefix :: "path \<Rightarrow> path \<Rightarrow> path option" where
  "path_strip_prefix [] p = Some p"
| "path_strip_prefix (c # cs) [] = None"
| "path_strip_prefix (c # cs) (d # ds) = (if c = d then path_strip_prefix cs ds else None)"

definition component_str :: "path_component \<Rightarrow> string" where
  "component_str c = (case c of RootDir \<Rightarrow> [] | CurDir \<Rightarrow> ''.'' | ParentDir \<Rightarrow> ''..'' | Normal n \<Rightarrow> n)"

text \<open>\<open>Path::to_str\<close> of a relative path in its normal form.\<close>

definition path_str :: "path \<Rightarrow> string" where
  "path_str p = join_with (CHR ''/'') (map component_str p)"

definition normal_name :: "string \<Rightarrow> bool" where
  "normal_name n \<longleftrightarrow> n \<noteq> [] \<and> n \<noteq> ''.'' \<and> n \<noteq> ''..'' \<and> CHR ''/'' \<notin> set n"

lemma component_of_normal [simp]: "normal_name n \<Longrightarrow> component_of n = [Normal n]"
  by (simp add: normal_name_def component_of_def)

lemma path_strip_prefix_Some: "path_strip_prefix a b = Some r \<longleftrightarrow> b = a @ r"
  by (induction a b rule: path_strip_prefix.induct) auto

lemma concat_component_of:
  "(\<And>p. p \<in> set ps \<Longrightarrow> normal_name p) \<Longrightarrow> concat (map component_of ps) = map Normal ps"
  by (induction ps) auto

lemma path_of_normals:
  assumes "\<And>p. p \<in> set (split_on (CHR ''/'') s) \<Longrightarrow> normal_name p"
  shows "path_of s = map Normal (split_on (CHR ''/'') s)"
proof -
  obtain p ps where split: "split_on (CHR ''/'') s = p # ps"
    by (cases "split_on (CHR ''/'') s") auto
  with assms have "normal_name p" and rest: "\<And>q. q \<in> set ps \<Longrightarrow> normal_name q" by auto
  then show ?thesis
    using concat_component_of [OF rest] by (auto simp: path_of_def split normal_name_def component_of_def)
qed

lemma path_of_name: "normal_name n \<Longrightarrow> path_of n = [Normal n]"
  by (simp add: normal_name_def path_of_def split_on_no_sep component_of_def)

lemma component_str_Normal [simp]: "component_str \<circ> Normal = id"
  by (rule ext) (simp add: component_str_def)

lemma path_str_normals [simp]: "path_str (map Normal ns) = join_with (CHR ''/'') ns"
  by (simp add: path_str_def)

lemma path_join_normals [simp]:
  "path_join (map Normal as) [Normal b] = map Normal (as @ [b])"
  by (simp add: path_join_def is_absolute_def)

lemma path_parent_normals [simp]:
  "path_parent (map Normal ns) = (if ns = [] then None else Some (map Normal (butlast ns)))"
  by (simp add: path_parent_def last_map map_butlast)

lemma path_file_name_normals [simp]:
  "path_file_name (map Normal ns) = (if ns = [] then None else Some (last ns))"
  by (simp add: path_file_name_def last_map)

lemma inj_Normal: "inj Normal"
  by (rule injI) simp

lemma map_Normal_eq [simp]: "map Normal as = map Normal bs \<longleftrightarrow> as = bs"
  by (simp add: inj_map_eq_map [OF inj_Normal])

end
