(* ===== verification/App_Error.thy ===== *)
theory App_Error
  imports Rust_Text
begin

text \<open>
  \<open>error.rs\<close>: the error value every handler returns, its envelope, the conversions of the \<open>?\<close>
  operator and the middleware that rewrites the error responses of the framework.  The crate
  \<open>sarmg_error\<close> picks code and retryability of the statuses it knows; such an envelope is kept as
  \<open>Foundation\<close>.
\<close>

datatype envelope =
    Foundation nat (env_message: string)
  | Coded string (env_message: string) bool

record app_error =
  err_status :: nat
  err_envelope :: envelope
  err_retry_after :: "nat option"

definition error_envelope :: "nat \<Rightarrow> string \<Rightarrow> envelope" where
  "error_envelope status msg =
     (if status \<in> {400, 401, 403, 404, 409, 422, 429, 500, 503} then Foundation status msg
      else if status = 405 then Coded ''method_not_allowed'' msg False
      else if status = 406 then Coded ''not_acceptable'' msg False
      else if status = 413 then Coded ''payload_too_large'' msg False
      else if status = 415 then Coded ''unsupported_media_type'' msg False
      else if status = 426 then Coded ''secure_transport_required'' msg False
      else if status = 408 then Coded ''request_timeout'' msg True
      else if 500 \<le> status \<and> status < 600 then Coded ''server_error'' msg True
      else Coded ''request_failed'' msg False)"

definition app_error :: "nat \<Rightarrow> string \<Rightarrow> app_error" where
  "app_error status msg =
     \<lparr>err_status = status, err_envelope = error_envelope status msg, err_retry_after = None\<rparr>"

definition error_message :: "app_error \<Rightarrow> string" where
  "error_message e = env_message (err_envelope e)"

definition bad_request :: "string \<Rightarrow> app_error" where
  "bad_request msg = app_error 400 msg"

definition unauthorized :: app_error where
  "unauthorized = app_error 401 ''unauthorized''"

definition not_found :: "string \<Rightarrow> app_error" where
  "not_found msg = app_error 404 msg"

definition conflict :: "string \<Rightarrow> app_error" where
  "conflict msg = app_error 409 msg"

definition too_many_requests_with_message :: "nat \<Rightarrow> string \<Rightarrow> app_error" where
  "too_many_requests_with_message retry_after msg =
     \<lparr>err_status = 429, err_envelope = Foundation 429 msg, err_retry_after = Some (max retry_after 1)\<rparr>"

definition too_many_requests :: "nat \<Rightarrow> app_error" where
  "too_many_requests retry_after =
     too_many_requests_with_message retry_after ''too many login attempts''"

definition internal_error :: "string \<Rightarrow> app_error" where
  "internal_error msg = app_error 500 msg"

text \<open>\<open>From<sqlx::Error>\<close> and \<open>From<std::io::Error>\<close>.\<close>

definition database_error :: app_error where
  "database_error = internal_error ''database error''"

definition storage_error :: app_error where
  "storage_error = internal_error ''storage error''"

text \<open>
  Responses as the middleware sees them: the status, the two marker extensions, the headers it
  touches and the body (the JSON text of an envelope, or any other body).
\<close>

datatype body = Envelope_Body envelope | Other_Body string

record response =
  resp_status :: nat
  resp_foundation_mark :: bool
  resp_exact_mark :: bool
  resp_content_type :: "string option"
  resp_content_length :: "nat option"
  resp_cache_control :: "string option"
  resp_retry_after :: "string option"
  resp_body :: body

definition no_store :: string where
  "no_store = ''no-store, private, max-age=0''"

definition into_response :: "app_error \<Rightarrow> response" where
  "into_response e =
     \<lparr>resp_status = err_status e, resp_foundation_mark = False, resp_exact_mark = True,
      resp_content_type = Some ''application/json'', resp_content_length = None,
      resp_cache_control = Some no_store,
      resp_retry_after = map_option show_nat (err_retry_after e),
      resp_body = Envelope_Body (err_envelope e)\<rparr>"

text \<open>\<open>canonical_reason\<close> is the table of the \<open>http\<close> crate.\<close>

definition normalize_error_response :: "(nat \<Rightarrow> string option) \<Rightarrow> response \<Rightarrow> response" where
  "normalize_error_response canonical_reason r =
     (if \<not> (400 \<le> resp_status r \<and> resp_status r < 600) then r
      else if resp_foundation_mark r then r
      else if resp_exact_mark r then r\<lparr>resp_exact_mark := False\<rparr>
      else r\<lparr>resp_body := Envelope_Body (error_envelope (resp_status r)
                (case canonical_reason (resp_status r) of Some m \<Rightarrow> m | None \<Rightarrow> ''request failed'')),
             resp_content_type := Some ''application/json'',
             resp_content_length := None,
             resp_cache_control := Some no_store\<rparr>)"

text \<open>Every error response that leaves the server carries an envelope and its own status.\<close>

lemma error_envelope_message [simp]: "env_message (error_envelope status msg) = msg"
  by (simp add: error_envelope_def)

lemma error_message_simps [simp]:
  "error_message (app_error s msg) = msg" "error_message (bad_request msg) = msg"
  "error_message (not_found msg) = msg" "error_message (conflict msg) = msg"
  "error_message (internal_error msg) = msg"
  by (simp_all add: error_message_def app_error_def bad_request_def not_found_def conflict_def
      internal_error_def)

lemma err_status_simps [simp]:
  "err_status (app_error s msg) = s" "err_status (bad_request msg) = 400"
  "err_status unauthorized = 401" "err_status (not_found msg) = 404"
  "err_status (conflict msg) = 409" "err_status (internal_error msg) = 500"
  "err_status database_error = 500" "err_status storage_error = 500"
  "err_status (too_many_requests n) = 429" "err_status (too_many_requests_with_message n msg) = 429"
  by (simp_all add: app_error_def bad_request_def unauthorized_def not_found_def conflict_def
      internal_error_def database_error_def storage_error_def too_many_requests_def
      too_many_requests_with_message_def)

lemma normalize_into_response:
  "400 \<le> err_status e \<Longrightarrow> err_status e < 600 \<Longrightarrow>
   normalize_error_response reason (into_response e) = (into_response e)\<lparr>resp_exact_mark := False\<rparr>"
  by (simp add: normalize_error_response_def into_response_def)

lemma normalize_keeps_status: "resp_status (normalize_error_response reason r) = resp_status r"
  by (simp add: normalize_error_response_def)

end
