(* ===== verification/Trusted_Proxy.thy ===== *)
theory Trusted_Proxy
  imports App_Error
begin

text \<open>
  \<open>trusted_proxy.rs\<close>: which transport peers may speak for a client, and the walk through
  \<open>X-Forwarded-For\<close> that finds the address of the client.  The parser of \<open>std::net::IpAddr\<close> is
  modelled as the standard library writes it.
\<close>

unbundle bit_operations_syntax

section \<open>Addresses\<close>

datatype ip_addr = V4 "32 word" | V6 "128 word"

definition is_ipv4 :: "ip_addr \<Rightarrow> bool" where
  "is_ipv4 a = (case a of V4 _ \<Rightarrow> True | V6 _ \<Rightarrow> False)"

text \<open>\<open>Ipv6Addr::to_ipv4_mapped\<close>: the addresses of \<open>::ffff:0:0/96\<close>.\<close>

definition to_ipv4_mapped :: "128 word \<Rightarrow> 32 word option" where
  "to_ipv4_mapped w = (if drop_bit 32 w = 0xFFFF then Some (ucast w) else None)"

definition canonical_ip :: "ip_addr \<Rightarrow> ip_addr" where
  "canonical_ip a = (case a of
       V6 w \<Rightarrow> (case to_ipv4_mapped w of Some v \<Rightarrow> V4 v | None \<Rightarrow> V6 w)
     | V4 v \<Rightarrow> V4 v)"

lemma canonical_ip_idem [simp]: "canonical_ip (canonical_ip a) = canonical_ip a"
  by (auto simp: canonical_ip_def split: ip_addr.splits option.splits)

subsection \<open>The address parser of the standard library\<close>

definition hex_value :: "char \<Rightarrow> nat" where
  "hex_value c = (if is_ascii_digit c then code c - 48
     else if 97 \<le> code c then code c - 87 else code c - 55)"

definition is_digit_of :: "nat \<Rightarrow> char \<Rightarrow> bool" where
  "is_digit_of radix c \<longleftrightarrow> (if radix = 16 then is_ascii_hexdigit c else is_ascii_digit c)"

text \<open>\<open>read_number\<close>: at most \<open>width\<close> digits and at most \<open>limit\<close>; the text after it on success.\<close>

definition read_number :: "nat \<Rightarrow> nat \<Rightarrow> bool \<Rightarrow> nat \<Rightarrow> string \<Rightarrow> (nat \<times> string) option" where
  "read_number radix width zero_prefix limit s =
     (let ds = takeWhile (is_digit_of radix) s;
          n = foldl (\<lambda>v c. radix * v + hex_value c) 0 ds
      in if ds = [] \<or> width < length ds \<or> (\<not> zero_prefix \<and> hd ds = CHR ''0'' \<and> 1 < length ds) \<or> limit < n
         then None else Some (n, drop (length ds) s))"

definition read_separator :: "char \<Rightarrow> nat \<Rightarrow> (string \<Rightarrow> ('a \<times> string) option) \<Rightarrow> string \<Rightarrow> ('a \<times> string) option" where
  "read_separator sep i inner s =
     (if i = 0 then inner s else case s of [] \<Rightarrow> None | c # t \<Rightarrow> if c = sep then inner t else None)"

fun read_octets :: "nat \<Rightarrow> nat \<Rightarrow> string \<Rightarrow> (nat list \<times> string) option" where
  "read_octets i 0 s = Some ([], s)"
| "read_octets i (Suc k) s = (case read_separator (CHR ''.'') i (read_number 10 3 False 255) s of
       None \<Rightarrow> None
     | Some (n, t) \<Rightarrow> map_option (\<lambda>(ns, u). (n # ns, u)) (read_octets (Suc i) k t))"

text \<open>The value of a big-endian list of digits of the given base.\<close>

definition be_value :: "nat \<Rightarrow> nat list \<Rightarrow> nat" where
  "be_value base = foldl (\<lambda>v d. base * v + d) 0"

definition read_ipv4_addr :: "string \<Rightarrow> (nat list \<times> string) option" where
  "read_ipv4_addr s = read_octets 0 4 s"

text \<open>
  \<open>read_groups\<close> with \<open>limit - i\<close> groups left: the groups read, whether they end with an embedded
  IPv4 address, and the text after them.
\<close>

function read_groups :: "nat \<Rightarrow> nat \<Rightarrow> string \<Rightarrow> nat list \<times> bool \<times> string" where
  "read_groups limit i s =
     (if limit \<le> i then ([], False, s)
      else case (if Suc i < limit then read_separator (CHR '':'') i read_ipv4_addr s else None) of
        Some (os, t) \<Rightarrow> ([256 * os ! 0 + os ! 1, 256 * os ! 2 + os ! 3], True, t)
      | None \<Rightarrow>
        (case read_separator (CHR '':'') i (read_number 16 4 True 65535) s of
           None \<Rightarrow> ([], False, s)
         | Some (g, t) \<Rightarrow> (case read_groups limit (Suc i) t of (gs, v4, u) \<Rightarrow> (g # gs, v4, u))))"
  by pat_completeness auto
termination
  by (relation "measure (\<lambda>(limit, i, s). limit - i)") auto

declare read_groups.simps [simp del]

definition read_ipv6_addr :: "string \<Rightarrow> (nat list \<times> string) option" where
  "read_ipv6_addr s = (case read_groups 8 0 s of (head, v4, t) \<Rightarrow>
     if length head = 8 then Some (head, t)
     else if v4 then None
     else case t of
       CHR '':'' # CHR '':'' # u \<Rightarrow>
         (case read_groups (7 - length head) 0 u of (tail, _, w) \<Rightarrow>
            Some (head @ replicate (8 - length head - length tail) 0 @ tail, w))
     | _ \<Rightarrow> None)"

text \<open>\<open>str::parse::<IpAddr>\<close>: the whole text must be consumed.\<close>

definition parse_ip :: "string \<Rightarrow> ip_addr option" where
  "parse_ip s = (case read_ipv4_addr s of
       Some (os, t) \<Rightarrow> if t = [] then Some (V4 (word_of_nat (be_value 256 os))) else None
     | None \<Rightarrow>
       (case read_ipv6_addr s of
          Some (gs, t) \<Rightarrow> if t = [] then Some (V6 (word_of_nat (be_value 65536 gs))) else None
        | None \<Rightarrow> None))"

section \<open>Trusted networks\<close>

record trusted_network =
  net_address :: ip_addr
  net_prefix :: nat

definition prefix_mask :: "nat \<Rightarrow> 'a::len word" where
  "prefix_mask prefix = (if prefix = 0 then 0 else push_bit (LENGTH('a) - prefix) (- 1))"

text \<open>
  \<open>contains\<close>: both shifts are by less than the width once the prefix is at most the width, which
  is what \<open>from_str\<close> ensures; \<open>32 - prefix\<close> underflows in Rust otherwise.
\<close>

definition contains :: "trusted_network \<Rightarrow> ip_addr \<Rightarrow> bool" where
  "contains net candidate = (case (canonical_ip (net_address net), canonical_ip candidate) of
       (V4 n, V4 c) \<Rightarrow>
         (let mask = prefix_mask (net_prefix net) in n AND mask = c AND mask)
     | (V6 n, V6 c) \<Rightarrow>
         (let mask = prefix_mask (net_prefix net) in n AND mask = c AND mask)
     | _ \<Rightarrow> False)"

definition network_from_str :: "string \<Rightarrow> string + trusted_network" where
  "network_from_str raw = (let value = trim raw in
     if value = [] then Inl ''trusted proxy CIDR cannot be empty''
     else
       case (case split_once (CHR ''/'') value of
          Some (address, prefix) \<Rightarrow>
            (case parse_ip address of
               None \<Rightarrow> Inl (''invalid trusted proxy address: '' @ address)
             | Some a \<Rightarrow>
                 (case parse_unsigned 255 prefix of
                    None \<Rightarrow> Inl (''invalid trusted proxy prefix: '' @ prefix)
                  | Some p \<Rightarrow> Inr (canonical_ip a, p)))
        | None \<Rightarrow>
            (case parse_ip value of
               None \<Rightarrow> Inl (''invalid trusted proxy address: '' @ value)
             | Some a \<Rightarrow> Inr (canonical_ip a, if is_ipv4 (canonical_ip a) then 32 else 128)))
       of Inl e \<Rightarrow> Inl e
        | Inr (address, prefix) \<Rightarrow>
            (let maximum = (if is_ipv4 address then 32 else 128) in
             if maximum < prefix then Inl (''trusted proxy prefix exceeds '' @ show_nat maximum)
             else Inr \<lparr>net_address = address, net_prefix = prefix\<rparr>))"

definition is_trusted :: "ip_addr \<Rightarrow> trusted_network list \<Rightarrow> bool" where
  "is_trusted a trusted = list_ex (\<lambda>net. contains net a) trusted"

section \<open>The client of a request\<close>

text \<open>
  \<open>HeaderMap::get_all\<close> of a name: the values in order, each as \<open>HeaderValue::to_str\<close> shows it
  (\<^term>\<open>None\<close> when it has bytes that are not visible ASCII).
\<close>

type_synonym header_map = "string \<Rightarrow> string option list"

definition MAX_FORWARDED_HOPS :: nat where
  "MAX_FORWARDED_HOPS = 32"

fun collect_hops :: "string list \<Rightarrow> ip_addr list \<Rightarrow> app_error + ip_addr list" where
  "collect_hops [] hops = Inr hops"
| "collect_hops (h # hs) hops =
     (if MAX_FORWARDED_HOPS \<le> length hops then Inl (bad_request ''too many forwarded hops'')
      else case parse_ip (trim h) of
        None \<Rightarrow> Inl (bad_request ''invalid X-Forwarded-For header'')
      | Some a \<Rightarrow> collect_hops hs (hops @ [canonical_ip a]))"

fun collect_values :: "string option list \<Rightarrow> ip_addr list \<Rightarrow> app_error + ip_addr list" where
  "collect_values [] hops = Inr hops"
| "collect_values (None # vs) hops = Inl (bad_request ''invalid X-Forwarded-For header'')"
| "collect_values (Some v # vs) hops = (case collect_hops (split_on (CHR '','') v) hops of
       Inl e \<Rightarrow> Inl e
     | Inr hops' \<Rightarrow> collect_values vs hops')"

text \<open>The loop over the hops from the right.\<close>

fun walk_hops :: "trusted_network list \<Rightarrow> ip_addr \<Rightarrow> ip_addr list \<Rightarrow> ip_addr" where
  "walk_hops trusted client [] = client"
| "walk_hops trusted client (hop # hops) =
     (if \<not> is_trusted client trusted then client else walk_hops trusted hop hops)"

definition resolve_client_ip ::
  "ip_addr \<Rightarrow> header_map \<Rightarrow> trusted_network list \<Rightarrow> app_error + ip_addr" where
  "resolve_client_ip peer0 headers trusted = (let peer = canonical_ip peer0 in
     if \<not> is_trusted peer trusted then Inr peer
     else case collect_values (headers ''x-forwarded-for'') [] of
       Inl e \<Rightarrow> Inl e
     | Inr hops \<Rightarrow> Inr (walk_hops trusted peer (rev hops)))"

definition forwarded_as_https :: "ip_addr \<Rightarrow> header_map \<Rightarrow> trusted_network list \<Rightarrow> bool" where
  "forwarded_as_https peer headers trusted =
     (if \<not> is_trusted (canonical_ip peer) trusted then False
      else let values = map trim (concat (map (\<lambda>v. case v of None \<Rightarrow> [] | Some t \<Rightarrow> split_on (CHR '','') t)
                          (headers ''x-forwarded-proto'')))
           in values \<noteq> [] \<and> eq_ignore_ascii_case (last values) ''https'')"

section \<open>Correctness\<close>

text \<open>Masking by a prefix compares exactly the leading bits.\<close>

lemma word_bits_eq: "(a :: 'a::len word) = b \<longleftrightarrow> (\<forall>j < LENGTH('a). bit a j = bit b j)"
  by (auto intro: bit_word_eqI)

lemma bit_prefix_mask:
  "k \<le> LENGTH('a) \<Longrightarrow> bit (prefix_mask k :: 'a::len word) j \<longleftrightarrow> LENGTH('a) - k \<le> j \<and> j < LENGTH('a)"
  by (cases "k = 0") (auto simp: prefix_mask_def bit_push_bit_iff bit_not_iff bit_mask_iff possible_bit_word)

lemma prefix_mask_eq_iff:
  fixes n c :: "'a::len word"
  assumes "k \<le> LENGTH('a)"
  shows "n AND prefix_mask k = c AND prefix_mask k \<longleftrightarrow>
    (\<forall>i < k. bit n (LENGTH('a) - Suc i) = bit c (LENGTH('a) - Suc i))" (is "?masked \<longleftrightarrow> ?prefix")
proof -
  let ?w = "LENGTH('a)"
  have "?masked \<longleftrightarrow> (\<forall>j < ?w. ?w - k \<le> j \<longrightarrow> bit n j = bit c j)"
    unfolding word_bits_eq bit_and_iff bit_prefix_mask [OF assms] by auto
  also have "\<dots> \<longleftrightarrow> ?prefix"
  proof
    assume *: "\<forall>j < ?w. ?w - k \<le> j \<longrightarrow> bit n j = bit c j"
    show ?prefix
      using assms by (intro allI impI *[rule_format]) auto
  next
    assume *: ?prefix
    show "\<forall>j < ?w. ?w - k \<le> j \<longrightarrow> bit n j = bit c j"
    proof (intro allI impI)
      fix j assume "j < ?w" "?w - k \<le> j"
      then show "bit n j = bit c j"
        using * [rule_format, of "?w - Suc j"] assms by (simp add: Suc_diff_Suc)
    qed
  qed
  finally show ?thesis .
qed

definition width :: "ip_addr \<Rightarrow> nat" where
  "width a = (if is_ipv4 a then 32 else 128)"

definition leading_bit :: "ip_addr \<Rightarrow> nat \<Rightarrow> bool" where
  "leading_bit a i = (case a of V4 w \<Rightarrow> bit w (32 - Suc i) | V6 w \<Rightarrow> bit w (128 - Suc i))"

text \<open>The abstract meaning of a network: the addresses of its family that share its first bits.\<close>

definition in_network :: "ip_addr \<Rightarrow> nat \<Rightarrow> ip_addr \<Rightarrow> bool" where
  "in_network net prefix a \<longleftrightarrow> width a = width net \<and> list_all (\<lambda>i. leading_bit net i = leading_bit a i) [0..<prefix]"

lemma contains_iff:
  assumes "canonical_ip (net_address net) = net_address net" and "net_prefix net \<le> width (net_address net)"
  shows "contains net a \<longleftrightarrow> in_network (net_address net) (net_prefix net) (canonical_ip a)"
proof (cases "net_address net")
  case n: (V4 n)
  show ?thesis
  proof (cases "canonical_ip a")
    case (V4 c)
    with n assms show ?thesis
      using prefix_mask_eq_iff [of "net_prefix net" n c]
      by (simp add: contains_def in_network_def width_def is_ipv4_def leading_bit_def list_all_iff Ball_def)
  next
    case (V6 c)
    with n assms show ?thesis
      by (simp add: contains_def in_network_def width_def is_ipv4_def)
  qed
next
  case n: (V6 n)
  show ?thesis
  proof (cases "canonical_ip a")
    case (V4 c)
    with n assms show ?thesis
      by (simp add: contains_def in_network_def width_def is_ipv4_def)
  next
    case (V6 c)
    with n assms show ?thesis
      using prefix_mask_eq_iff [of "net_prefix net" n c]
      by (simp add: contains_def in_network_def width_def is_ipv4_def leading_bit_def list_all_iff Ball_def)
  qed
qed

lemma network_from_str_wf:
  assumes "network_from_str raw = Inr net"
  shows "canonical_ip (net_address net) = net_address net" "net_prefix net \<le> width (net_address net)"
  using assms
  by (auto simp: network_from_str_def Let_def width_def split: if_splits option.splits sum.splits prod.splits)

text \<open>
  C36. A parsed CIDR is well formed (canonical address, prefix no longer than the address), and
  membership is exactly agreement on the leading bits within the address family.
\<close>

theorem parsed_network_contains:
  assumes "network_from_str raw = Inr net"
  shows "net_prefix net \<le> width (net_address net) \<and>
    (contains net a \<longleftrightarrow> in_network (net_address net) (net_prefix net) (canonical_ip a))"
  using network_from_str_wf [OF assms] by (simp add: contains_iff)

lemma parse_10_8:
  "network_from_str '' 10.0.0.0/8'' = Inr \<lparr>net_address = V4 0x0A000000, net_prefix = 8\<rparr>"
  by code_simp

lemma parsed_network_contains_witness:
  "contains \<lparr>net_address = V4 0x0A000000, net_prefix = 8\<rparr> (V4 0x0A040506) \<longleftrightarrow>
     in_network (V4 0x0A000000) 8 (canonical_ip (V4 0x0A040506))"
  using parsed_network_contains [OF parse_10_8, of "V4 0x0A040506"] by simp

lemma walk_hops_find:
  "walk_hops trusted client hops =
     (case find (\<lambda>a. \<not> is_trusted a trusted) (client # hops) of
        Some a \<Rightarrow> a | None \<Rightarrow> last (client # hops))"
  by (induction trusted client hops rule: walk_hops.induct) (auto split: option.split)

text \<open>
  C34. When the forwarding header parses, the client is the first address, from the transport peer
  backwards through the header, that is not a trusted proxy (the leftmost hop if all are trusted).
\<close>

theorem resolve_first_untrusted:
  assumes "collect_values (headers ''x-forwarded-for'') [] = Inr hops"
  shows "resolve_client_ip peer headers trusted =
    Inr (case find (\<lambda>a. \<not> is_trusted a trusted) (canonical_ip peer # rev hops) of
           Some a \<Rightarrow> a | None \<Rightarrow> last (canonical_ip peer # rev hops))"
  using assms by (auto simp: resolve_client_ip_def Let_def walk_hops_find)

definition test_net :: trusted_network where
  "test_net = \<lparr>net_address = V4 0x0A000000, net_prefix = 8\<rparr>"

definition test_headers :: header_map where
  "test_headers name = (if name = ''x-forwarded-for'' then [Some ''198.51.100.5, 203.0.113.8'', Some ''10.1.2.3''] else [])"

lemma test_hops:
  "collect_values (test_headers ''x-forwarded-for'') [] = Inr [V4 0xC6336405, V4 0xCB007108, V4 0x0A010203]"
  by code_simp

lemma test_find:
  "find (\<lambda>a. \<not> is_trusted a [test_net]) (canonical_ip (V4 0x0A000003) #
     rev [V4 0xC6336405, V4 0xCB007108, V4 0x0A010203]) = Some (V4 0xCB007108)"
  by code_simp

lemma resolve_first_untrusted_witness:
  "resolve_client_ip (V4 0x0A000003) test_headers [test_net] = Inr (V4 0xCB007108)"
  using resolve_first_untrusted [where headers = test_headers and peer = "V4 0x0A000003"
      and trusted = "[test_net]", OF test_hops]
  by (simp only: test_find option.case)

lemma find_append: "find P (as @ bs) = (case find P as of Some a \<Rightarrow> Some a | None \<Rightarrow> find P bs)"
  by (induction as) auto

lemma find_None_all: "list_all (\<lambda>a. \<not> P a) as \<Longrightarrow> find P as = None"
  by (induction as) auto

text \<open>
  C35. An untrusted peer, and the part of the header to the left of the first untrusted hop, cannot
  influence the result: whatever a client writes there, the resolved address is that hop.
\<close>

theorem forwarded_prefix_cannot_spoof:
  assumes "is_trusted (canonical_ip peer) trusted \<Longrightarrow>
      collect_values (headers ''x-forwarded-for'') [] = Inr (forged @ hop # proxies)"
    and "\<not> is_trusted hop trusted" and "list_all (\<lambda>a. is_trusted a trusted) proxies"
  shows "resolve_client_ip peer headers trusted =
    Inr (if is_trusted (canonical_ip peer) trusted then hop else canonical_ip peer)"
  using assms
  by (simp add: resolve_client_ip_def Let_def walk_hops_find find_append find_None_all list_all_rev)

lemma forwarded_prefix_cannot_spoof_witness:
  "resolve_client_ip (V4 0x0A000003) test_headers [test_net] =
     Inr (if is_trusted (canonical_ip (V4 0x0A000003)) [test_net] then V4 0xCB007108
          else canonical_ip (V4 0x0A000003))"
proof (rule forwarded_prefix_cannot_spoof)
  show "collect_values (test_headers ''x-forwarded-for'') [] = Inr ([V4 0xC6336405] @ V4 0xCB007108 # [V4 0x0A010203])"
    using test_hops by simp
  show "\<not> is_trusted (V4 0xCB007108) [test_net]" by code_simp
  show "list_all (\<lambda>a. is_trusted a [test_net]) [V4 0x0A010203]" by code_simp
qed

end
