(* ===== verification/Binary64.thy ===== *)
theory Binary64
  imports Complex_Main "HOL-Library.Log_Nat"
begin

text \<open>
  The arithmetic of \<open>f64\<close>.  A number is the rational it stands for, and \<open>f64\<close> rounds the exact result of an
  operation to 53 significant bits, to nearest with ties to even (IEEE 754, binary64).  The range of the
  exponent is not bounded: the numbers of seconds and tokens the program computes with are zero, or at
  least \<open>2 ^ -120\<close> and at most \<open>2 ^ 100\<close> in absolute value, so none is subnormal or overflows.
\<close>

definition round_half_even :: "rat \<Rightarrow> int" where
  "round_half_even x = (let lo = \<lfloor>x\<rfloor>; r = x - of_int lo in
     if r < 1/2 \<or> (r = 1/2 \<and> even lo) then lo else lo + 1)"

text \<open>The exponent of the leading bit.\<close>

definition f64_exponent :: "rat \<Rightarrow> int" where
  "f64_exponent x = (case quotient_of \<bar>x\<bar> of (n, d) \<Rightarrow>
     let e = bitlen n - bitlen d in if 2 powi e \<le> \<bar>x\<bar> then e else e - 1)"

definition f64 :: "rat \<Rightarrow> rat" where
  "f64 x = (if x = 0 then 0 else
     let ulp = 2 powi (f64_exponent x - 52) in of_int (round_half_even (x / ulp)) * ulp)"

definition unit_roundoff :: rat where
  "unit_roundoff = 1 / 2 ^ 53"

lemma round_half_even_error: "\<bar>of_int (round_half_even x) - x\<bar> \<le> 1 / 2"
proof -
  have "of_int \<lfloor>x\<rfloor> \<le> x" "x < of_int \<lfloor>x\<rfloor> + 1" by linarith+
  then show ?thesis unfolding round_half_even_def Let_def by (auto simp: abs_le_iff)
qed

lemma bitlen_range: "0 < n \<Longrightarrow> 2 powi (bitlen n - 1) \<le> (of_int n :: rat) \<and> (of_int n :: rat) < 2 powi bitlen n"
proof -
  assume n: "0 < n"
  then have pos: "1 \<le> bitlen n" using bitlen_bounds [of n] by (metis bitlen_eq_zero_iff bitlen_nonneg int_one_le_iff_zero_less not_less order_le_less)
  from n have b: "2 ^ nat (bitlen n - 1) \<le> n" "n < 2 ^ nat (bitlen n)" using bitlen_bounds [of n] by auto
  have "(of_int (2 ^ nat (bitlen n - 1)) :: rat) \<le> of_int n" "(of_int n :: rat) < of_int (2 ^ nat (bitlen n))"
    using b by (simp_all only: of_int_le_iff of_int_less_iff)
  then show ?thesis using pos by (simp add: power_int_def)
qed

lemma f64_exponent_bounds:
  assumes "x \<noteq> 0"
  shows "2 powi f64_exponent x \<le> \<bar>x\<bar>" "\<bar>x\<bar> < 2 powi (f64_exponent x + 1)"
proof -
  obtain n d where nd: "quotient_of \<bar>x\<bar> = (n, d)" by fastforce
  have d: "0 < d" using quotient_of_denom_pos [OF nd] .
  have x: "\<bar>x\<bar> = of_int n / of_int d" using quotient_of_div [OF nd] .
  have n: "0 < n" using x d assms by (metis abs_of_nonneg linorder_neqE_linordered_idom not_less of_int_0 of_int_0_less_iff
    zero_less_abs_iff zero_less_divide_iff order_less_asym)
  let ?e = "bitlen n - bitlen d"
  note bn = bitlen_range [OF n] and bd = bitlen_range [OF d]
  have lower: "2 powi (?e - 1) \<le> \<bar>x\<bar>"
  proof -
    have "2 powi (?e - 1) = (2 powi (bitlen n - 1) / 2 powi bitlen d :: rat)"
      by (simp add: power_int_diff)
    also have "\<dots> \<le> of_int n / of_int d" using bn bd d n by (intro frac_le) auto
    finally show ?thesis by (simp add: x)
  qed
  have upper: "\<bar>x\<bar> < 2 powi (?e + 1)"
  proof -
    have "of_int n / of_int d < (2 powi bitlen n / 2 powi (bitlen d - 1) :: rat)"
      using bn bd d n by (intro frac_less) auto
    also have "\<dots> = 2 powi (?e + 1)" by (simp add: power_int_diff power_int_add)
    finally show ?thesis by (simp add: x)
  qed
  show "2 powi f64_exponent x \<le> \<bar>x\<bar>" "\<bar>x\<bar> < 2 powi (f64_exponent x + 1)"
    using lower upper by (auto simp: f64_exponent_def nd Let_def)
qed

text \<open>The literals of \<open>0.1\<close> and \<open>2 ^ 53 + 1\<close> are these numbers.\<close>

lemma f64_literals: "f64 (1 / 10) = 3602879701896397 / 2 ^ 55" "f64 (2 ^ 53 + 1) = 2 ^ 53" "f64 (- 7) = - 7"
  by code_simp+

text \<open>The relative error of one operation.\<close>

lemma f64_error: "\<bar>f64 x - x\<bar> \<le> unit_roundoff * \<bar>x\<bar>"
proof (cases "x = 0")
  case False
  let ?u = "2 powi (f64_exponent x - 52) :: rat"
  have u: "0 < ?u" by simp
  have "f64 x - x = (of_int (round_half_even (x / ?u)) - x / ?u) * ?u"
    using False u by (simp add: f64_def Let_def left_diff_distrib)
  then have "\<bar>f64 x - x\<bar> = \<bar>of_int (round_half_even (x / ?u)) - x / ?u\<bar> * ?u"
    by (simp add: abs_mult)
  also have "\<dots> \<le> 1 / 2 * ?u" using round_half_even_error u by (intro mult_right_mono) auto
  also have "\<dots> = unit_roundoff * 2 powi f64_exponent x"
    by (simp add: power_int_diff unit_roundoff_def)
  also have "\<dots> \<le> unit_roundoff * \<bar>x\<bar>"
    using f64_exponent_bounds(1) [OF False] by (simp add: unit_roundoff_def)
  finally show ?thesis .
qed (simp add: f64_def)

lemma f64_le: "0 \<le> x \<Longrightarrow> f64 x \<le> x * (1 + unit_roundoff)"
  using f64_error [of x] by (simp add: algebra_simps abs_le_iff)

lemma f64_ge: "0 \<le> x \<Longrightarrow> x * (1 - unit_roundoff) \<le> f64 x"
  using f64_error [of x] by (simp add: algebra_simps abs_le_iff)

lemma f64_upper: "0 \<le> x \<Longrightarrow> x \<le> y \<Longrightarrow> f64 x \<le> y * (1 + unit_roundoff)"
  by (rule order_trans [OF f64_le mult_right_mono]) (simp_all add: unit_roundoff_def)

lemma f64_lower: "0 \<le> x \<Longrightarrow> y \<le> x \<Longrightarrow> y * (1 - unit_roundoff) \<le> f64 x"
  by (rule order_trans [OF mult_right_mono f64_ge]) (simp_all add: unit_roundoff_def)

lemma f64_nonneg: "0 \<le> x \<Longrightarrow> 0 \<le> f64 x"
  using f64_ge [of x] by (auto simp: unit_roundoff_def intro: order_trans [rotated])

lemma f64_zero [simp]: "f64 0 = 0"
  by (simp add: f64_def)

end
