(* ===== verification/Login_Admission.thy ===== *)
theory Login_Admission
  imports Trusted_Proxy Binary64
begin

text \<open>
  \<open>login_admission.rs\<close>: the bounded token buckets that limit login attempts per source address and
  per account, and the semaphore that bounds concurrent password verifications.  Instants and
  durations are nanoseconds.  A floating-point number is a rational; \<open>fl\<close> rounds the result of each
  floating-point operation, in the program it is \<open>f64\<close> of \<open>Binary64\<close>.  A \<open>HashMap\<close> is the list of its entries in iteration order, which
  matters only to break ties between buckets last seen at the same instant.
\<close>

section \<open>Token buckets\<close>

definition nanos_per_sec :: nat where
  "nanos_per_sec = 1000000000"

definition as_secs_f64 :: "(rat \<Rightarrow> rat) \<Rightarrow> nat \<Rightarrow> rat" where
  "as_secs_f64 fl d = fl (fl (of_nat (d div nanos_per_sec))
     + fl (fl (of_nat (d mod nanos_per_sec)) / of_nat nanos_per_sec))"

text \<open>\<open>Duration::from_secs_f64\<close>: nearest nanosecond, ties to even.\<close>

definition from_secs_f64 :: "rat \<Rightarrow> nat" where
  "from_secs_f64 x = nat (round_half_even (x * of_nat nanos_per_sec))"

record bucket_policy =
  burst :: nat
  refill_interval :: nat

record bucket =
  tokens :: rat
  last_refill :: nat
  last_seen :: nat

definition new_bucket :: "bucket_policy \<Rightarrow> nat \<Rightarrow> bucket" where
  "new_bucket policy now = \<lparr>tokens = of_nat (burst policy), last_refill = now, last_seen = now\<rparr>"

text \<open>Subtraction of instants is \<open>saturating_duration_since\<close>.\<close>

definition tokens_at :: "(rat \<Rightarrow> rat) \<Rightarrow> bucket_policy \<Rightarrow> nat \<Rightarrow> bucket \<Rightarrow> rat" where
  "tokens_at fl policy now b =
     min (fl (tokens b + fl (as_secs_f64 fl (now - last_refill b) / as_secs_f64 fl (refill_interval policy))))
       (of_nat (burst policy))"

definition refill :: "(rat \<Rightarrow> rat) \<Rightarrow> bucket_policy \<Rightarrow> nat \<Rightarrow> bucket \<Rightarrow> bucket" where
  "refill fl policy now b = \<lparr>tokens = tokens_at fl policy now b, last_refill = now, last_seen = now\<rparr>"

definition delay_until_tokens :: "(rat \<Rightarrow> rat) \<Rightarrow> bucket_policy \<Rightarrow> rat \<Rightarrow> nat \<Rightarrow> bucket \<Rightarrow> nat" where
  "delay_until_tokens fl policy wanted now b =
     from_secs_f64 (fl (max (fl (wanted - tokens_at fl policy now b)) 0 * as_secs_f64 fl (refill_interval policy)))"

record 'k bounded_buckets =
  entries :: "('k \<times> bucket) list"
  bb_policy :: bucket_policy
  capacity :: nat
  entry_ttl :: nat

definition new_buckets :: "bucket_policy \<Rightarrow> nat \<Rightarrow> nat \<Rightarrow> 'k bounded_buckets" where
  "new_buckets policy cap ttl = \<lparr>entries = [], bb_policy = policy, capacity = cap, entry_ttl = ttl\<rparr>"

definition prune_expired :: "nat \<Rightarrow> 'k bounded_buckets \<Rightarrow> 'k bounded_buckets" where
  "prune_expired now bb =
     bb\<lparr>entries := filter (\<lambda>(_, b). now - last_seen b < entry_ttl bb) (entries bb)\<rparr>"

text \<open>\<open>min_by_key\<close>: the first entry with the smallest key.\<close>

fun min_by :: "('a \<Rightarrow> nat) \<Rightarrow> 'a list \<Rightarrow> 'a option" where
  "min_by f [] = None"
| "min_by f (x # xs) = (case min_by f xs of None \<Rightarrow> Some x | Some y \<Rightarrow> Some (if f x \<le> f y then x else y))"

definition min_list_opt :: "nat list \<Rightarrow> nat option" where
  "min_list_opt = min_by (\<lambda>x. x)"

definition make_room :: "(rat \<Rightarrow> rat) \<Rightarrow> nat \<Rightarrow> 'k bounded_buckets \<Rightarrow> (nat + unit) \<times> 'k bounded_buckets" where
  "make_room fl now bb =
     (if length (entries bb) < capacity bb then (Inr (), bb)
      else case min_by (\<lambda>(_, b). last_seen b)
          (filter (\<lambda>(_, b). of_nat (burst (bb_policy bb)) \<le> tokens_at fl (bb_policy bb) now b) (entries bb)) of
        Some (k, _) \<Rightarrow> (Inr (), bb\<lparr>entries := filter (\<lambda>(k', _). k' \<noteq> k) (entries bb)\<rparr>)
      | None \<Rightarrow>
        (let retry = (case min_list_opt (map (\<lambda>(_, b).
               min (delay_until_tokens fl (bb_policy bb) (of_nat (burst (bb_policy bb))) now b)
                   (entry_ttl bb - (now - last_seen b))) (entries bb)) of
               Some d \<Rightarrow> d | None \<Rightarrow> entry_ttl bb)
         in (Inl (max retry 1), bb)))"

text \<open>\<open>entries.get_mut(&key)\<close> followed by a write.\<close>

definition set_entry :: "'k \<Rightarrow> bucket \<Rightarrow> 'k bounded_buckets \<Rightarrow> 'k bounded_buckets" where
  "set_entry k b bb = bb\<lparr>entries := map (\<lambda>(k', b'). (k', if k' = k then b else b')) (entries bb)\<rparr>"

definition spend :: "(rat \<Rightarrow> rat) \<Rightarrow> 'k \<Rightarrow> nat \<Rightarrow> 'k bounded_buckets \<Rightarrow> (nat + unit) \<times> 'k bounded_buckets" where
  "spend fl k now bb = (case map_of (entries bb) k of
       None \<Rightarrow> (Inl 0, bb)
     | Some b0 \<Rightarrow>
       (let b = refill fl (bb_policy bb) now b0 in
        if tokens b < 1 then (Inl (delay_until_tokens fl (bb_policy bb) 1 now b), set_entry k b bb)
        else (Inr (), set_entry k (b\<lparr>tokens := fl (tokens b - 1)\<rparr>) bb)))"

definition check_at :: "(rat \<Rightarrow> rat) \<Rightarrow> 'k \<Rightarrow> nat \<Rightarrow> 'k bounded_buckets \<Rightarrow> (nat + unit) \<times> 'k bounded_buckets" where
  "check_at fl k now bb0 = (let bb = prune_expired now bb0 in
     if map_of (entries bb) k = None then
       (case make_room fl now bb of
          (Inl d, bb') \<Rightarrow> (Inl d, bb')
        | (Inr _, bb') \<Rightarrow>
            spend fl k now (bb'\<lparr>entries := entries bb' @ [(k, new_bucket (bb_policy bb') now)]\<rparr>))
     else spend fl k now bb)"

section \<open>Admission\<close>

definition retry_after_seconds :: "nat \<Rightarrow> nat" where
  "retry_after_seconds d =
     max (min (d div nanos_per_sec + (if d mod nanos_per_sec \<noteq> 0 then 1 else 0)) u64_max) 1"

definition rate_limited :: "nat \<Rightarrow> app_error" where
  "rate_limited d = too_many_requests (retry_after_seconds d)"

record login_rate_state =
  sources :: "ip_addr bounded_buckets"
  accounts :: "bytes bounded_buckets"

definition source_policy :: bucket_policy where
  "source_policy = \<lparr>burst = 16, refill_interval = 1 * nanos_per_sec\<rparr>"

definition account_policy :: bucket_policy where
  "account_policy = \<lparr>burst = 8, refill_interval = 15 * nanos_per_sec\<rparr>"

definition rate_entry_ttl :: nat where
  "rate_entry_ttl = 900 * nanos_per_sec"

definition default_rates :: login_rate_state where
  "default_rates =
     \<lparr>sources = new_buckets source_policy 2048 rate_entry_ttl,
      accounts = new_buckets account_policy 4096 rate_entry_ttl\<rparr>"

definition check_source_at :: "(rat \<Rightarrow> rat) \<Rightarrow> ip_addr \<Rightarrow> nat \<Rightarrow> (login_rate_state, app_error, unit) sem" where
  "check_source_at fl source now st = (case check_at fl source now (sources st) of
       (Inl d, bb) \<Rightarrow> (Inl (rate_limited d), st\<lparr>sources := bb\<rparr>)
     | (Inr _, bb) \<Rightarrow> (Inr (), st\<lparr>sources := bb\<rparr>))"

definition check_source :: "(rat \<Rightarrow> rat) \<Rightarrow> ip_addr \<Rightarrow> nat \<Rightarrow> (login_rate_state, app_error, unit) sem" where
  "check_source fl source now = check_source_at fl (canonical_ip source) now"

text \<open>The account key is the SHA-256 digest of the normalised name.\<close>

definition check_account_at ::
  "(rat \<Rightarrow> rat) \<Rightarrow> (string \<Rightarrow> bytes) \<Rightarrow> string \<Rightarrow> nat \<Rightarrow> (login_rate_state, app_error, unit) sem" where
  "check_account_at fl sha256 account now st = (case check_at fl (sha256 account) now (accounts st) of
       (Inl d, bb) \<Rightarrow> (Inl (rate_limited d), st\<lparr>accounts := bb\<rparr>)
     | (Inr _, bb) \<Rightarrow> (Inr (), st\<lparr>accounts := bb\<rparr>))"

section \<open>Password verification\<close>

text \<open>
  \<open>run_argon2\<close>: the semaphore permit belongs to the blocking worker, so it is returned when the
  worker ends and not when the request gives up.  The result of a request from how its two awaits
  ended:
\<close>

datatype acquire_outcome = Acquired | Semaphore_Closed | Acquire_Timeout

datatype 'a worker_outcome = Worker_Done 'a | Worker_Panicked | Worker_Timeout

definition verification_unavailable :: app_error where
  "verification_unavailable = app_error 503 ''password verification is unavailable''"

fun run_argon2 :: "acquire_outcome \<Rightarrow> 'a worker_outcome \<Rightarrow> app_error + 'a" where
  "run_argon2 Semaphore_Closed w = Inl verification_unavailable"
| "run_argon2 Acquire_Timeout w = Inl (too_many_requests 1)"
| "run_argon2 Acquired (Worker_Done a) = Inr a"
| "run_argon2 Acquired Worker_Panicked = Inl verification_unavailable"
| "run_argon2 Acquired Worker_Timeout = Inl (too_many_requests 1)"

definition dummy_password_hash :: string where
  "dummy_password_hash = ''$argon2id$v=19$m=19456,t=2,p=1$aOVS660TGXMspMgoSOcv6A$1eMydp1lX0/SzNdUYR28nln2fa2gMPGF626+W6gPKK8''"

text \<open>The task a verification runs; \<open>check\<close> is \<open>verify_current_password_blocking\<close>.\<close>

definition verify_task :: "(string \<Rightarrow> string \<Rightarrow> bool) \<Rightarrow> string \<Rightarrow> string option \<Rightarrow> bool" where
  "verify_task check password hash =
     check password (case hash of Some h \<Rightarrow> h | None \<Rightarrow> dummy_password_hash)"

datatype phase = Waiting | Executing | Answered "app_error + bool"

record argon_state =
  permits :: nat
  requests :: "nat \<Rightarrow> phase option"
  workers :: "(nat \<times> bool) list"

definition argon_init :: "nat \<Rightarrow> argon_state" where
  "argon_init n = \<lparr>permits = n, requests = (\<lambda>_. None), workers = []\<rparr>"

text \<open>
  The interleavings of requests, workers and timers.  A worker is listed with the verdict it
  computes; a worker that panics (\<open>Worker_Dies\<close>) drops its permit as well.
\<close>

inductive argon_step :: "argon_state \<Rightarrow> argon_state \<Rightarrow> bool" where
  Arrive: "requests s r = None \<Longrightarrow>
    argon_step s (s\<lparr>requests := (requests s)(r \<mapsto> Waiting)\<rparr>)"
| Acquire: "requests s r = Some Waiting \<Longrightarrow> 0 < permits s \<Longrightarrow>
    argon_step s (s\<lparr>permits := permits s - 1, requests := (requests s)(r \<mapsto> Executing),
                    workers := (r, v) # workers s\<rparr>)"
| Give_Up: "requests s r = Some Waiting \<Longrightarrow>
    argon_step s (s\<lparr>requests := (requests s)(r \<mapsto> Answered (run_argon2 Acquire_Timeout Worker_Timeout))\<rparr>)"
| Deadline: "requests s r = Some Executing \<Longrightarrow>
    argon_step s (s\<lparr>requests := (requests s)(r \<mapsto> Answered (run_argon2 Acquired Worker_Timeout))\<rparr>)"
| Worker_Ends: "(r, v) \<in> set (workers s) \<Longrightarrow>
    argon_step s (s\<lparr>permits := permits s + 1, workers := remove1 (r, v) (workers s),
                    requests := (if requests s r = Some Executing
                      then (requests s)(r \<mapsto> Answered (run_argon2 Acquired (Worker_Done v))) else requests s)\<rparr>)"
| Worker_Dies: "(r, v) \<in> set (workers s) \<Longrightarrow>
    argon_step s (s\<lparr>permits := permits s + 1, workers := remove1 (r, v) (workers s),
                    requests := (if requests s r = Some Executing
                      then (requests s)(r \<mapsto> Answered (run_argon2 Acquired Worker_Panicked)) else requests s)\<rparr>)"

inductive_cases argon_stepE: "argon_step s t"

text \<open>Permits and running workers always add up to the configured concurrency.\<close>

definition argon_inv :: "nat \<Rightarrow> argon_state \<Rightarrow> bool" where
  "argon_inv n s \<longleftrightarrow> permits s + length (workers s) = n \<and>
     (\<forall>r. requests s r = Some Executing \<longrightarrow> r \<in> fst ` set (workers s))"

lemma fst_remove1:
  "x \<in> fst ` set ws \<Longrightarrow> x \<noteq> fst w \<Longrightarrow> x \<in> fst ` set (remove1 w ws)"
  by (induction ws) auto

lemma argon_step_inv:
  assumes "argon_step s t" "argon_inv n s"
  shows "argon_inv n t"
  using assms
proof (cases rule: argon_step.cases)
  case (Worker_Ends r v)
  then show ?thesis
    using assms(2) length_pos_if_in_set [of "(r, v)" "workers s"]
    by (auto simp: argon_inv_def length_remove1 intro!: fst_remove1 split: if_splits)
next
  case (Worker_Dies r v)
  then show ?thesis
    using assms(2) length_pos_if_in_set [of "(r, v)" "workers s"]
    by (auto simp: argon_inv_def length_remove1 intro!: fst_remove1 split: if_splits)
qed (auto simp: argon_inv_def split: if_splits)

text \<open>
  C30. However requests, deadlines and workers interleave, free permits plus running workers equal
  the configured concurrency, so no more than that many verifications run, and every request that is
  still waiting for its verdict has a running worker.
\<close>

theorem argon_concurrency_bound:
  assumes "argon_step\<^sup>*\<^sup>* (argon_init n) s"
  shows "permits s + length (workers s) = n \<and>
    (requests s r = Some Executing \<longrightarrow> r \<in> fst ` set (workers s))"
proof -
  from assms have "argon_inv n s"
    by (induction rule: rtranclp_induct) (auto simp: argon_init_def argon_inv_def dest: argon_step_inv)
  then show ?thesis by (auto simp: argon_inv_def)
qed

definition argon_busy :: argon_state where
  "argon_busy = \<lparr>permits = 1, requests = (\<lambda>_. None)(5 \<mapsto> Executing), workers = [(5, True)]\<rparr>"

lemma argon_busy_reachable: "argon_step\<^sup>*\<^sup>* (argon_init 2) argon_busy"
proof -
  let ?w = "(argon_init 2)\<lparr>requests := (requests (argon_init 2))(5 \<mapsto> Waiting)\<rparr>"
  have "argon_step (argon_init 2) ?w"
    by (rule Arrive) (simp add: argon_init_def)
  moreover have "argon_step ?w (?w\<lparr>permits := permits ?w - 1, requests := (requests ?w)(5 \<mapsto> Executing),
      workers := (5, True) # workers ?w\<rparr>)"
    by (rule Acquire) (simp_all add: argon_init_def)
  moreover have "?w\<lparr>permits := permits ?w - 1, requests := (requests ?w)(5 \<mapsto> Executing),
      workers := (5, True) # workers ?w\<rparr> = argon_busy"
    by (simp add: argon_init_def argon_busy_def)
  ultimately show ?thesis by auto
qed

lemma argon_concurrency_bound_witness:
  "permits argon_busy + length (workers argon_busy) = 2 \<and> 5 \<in> fst ` set (workers argon_busy)"
  using argon_concurrency_bound [OF argon_busy_reachable, of 5] by (simp add: argon_busy_def)

section \<open>Correctness of the buckets\<close>

text \<open>
  What rounding can add: the credit of a bucket grows faster than it should by a factor \<open>1 + 8u\<close> at most,
  and one operation on its tokens adds \<open>u * burst\<close> at most, \<open>u\<close> the unit roundoff.
\<close>

definition growth :: rat where
  "growth = 1 + 8 * unit_roundoff"

definition slack :: "bucket_policy \<Rightarrow> rat" where
  "slack policy = unit_roundoff * of_nat (burst policy)"

definition ideal :: "bucket_policy \<Rightarrow> nat \<Rightarrow> bucket \<Rightarrow> rat" where
  "ideal policy now b = min (tokens b + growth * (of_nat (now - last_refill b) / of_nat (refill_interval policy)))
     (of_nat (burst policy))"

lemma unit_roundoff_bounds: "0 < unit_roundoff" "unit_roundoff < 1" "0 < growth" "0 < 1 - unit_roundoff"
  by (simp_all add: unit_roundoff_def growth_def)

lemma slack_nonneg: "0 \<le> slack policy"
  by (simp add: slack_def unit_roundoff_def)

text \<open>Three roundings on each side of the quotient, and one of the quotient.\<close>

lemma seconds_split: "of_nat (d div nanos_per_sec) + of_nat (d mod nanos_per_sec) / of_nat nanos_per_sec
  = (of_nat d / of_nat nanos_per_sec :: rat)"
proof -
  have "(of_nat d :: rat) = of_nat (d div nanos_per_sec * nanos_per_sec + d mod nanos_per_sec)"
    by (simp only: div_mult_mod_eq)
  also have "\<dots> = of_nat (d div nanos_per_sec) * of_nat nanos_per_sec + of_nat (d mod nanos_per_sec)"
    by (simp only: of_nat_add of_nat_mult)
  finally show ?thesis by (simp add: nanos_per_sec_def field_simps)
qed

lemma as_secs_bounds:
  "of_nat d / of_nat nanos_per_sec * (1 - unit_roundoff) ^ 3 \<le> as_secs_f64 f64 d"
  "as_secs_f64 f64 d \<le> of_nat d / of_nat nanos_per_sec * (1 + unit_roundoff) ^ 3"
proof -
  let ?u = unit_roundoff and ?s = "of_nat (d div nanos_per_sec) :: rat" and ?n = "of_nat (d mod nanos_per_sec) :: rat"
  let ?b = "of_nat nanos_per_sec :: rat"
  have u: "0 < ?u" "0 < 1 - ?u" "0 < 1 + ?u" using unit_roundoff_bounds by simp_all
  have b: "0 < ?b" by (simp add: nanos_per_sec_def)
  have n: "?n * (1 - ?u) / ?b \<le> f64 ?n / ?b" "f64 ?n / ?b \<le> ?n * (1 + ?u) / ?b"
    using f64_le [of ?n] f64_ge [of ?n] b by (simp_all add: divide_right_mono)
  have pos: "0 \<le> f64 ?n / ?b" using f64_nonneg [of ?n] b by simp
  have q: "?n * (1 - ?u) / ?b * (1 - ?u) \<le> f64 (f64 ?n / ?b)" "f64 (f64 ?n / ?b) \<le> ?n * (1 + ?u) / ?b * (1 + ?u)"
    by (rule f64_lower [OF pos n(1)] f64_upper [OF pos n(2)])+
  have s: "?s * (1 - ?u) \<le> f64 ?s" "f64 ?s \<le> ?s * (1 + ?u)" using f64_le [of ?s] f64_ge [of ?s] by simp_all
  have s': "?s * (1 - ?u) * (1 - ?u) \<le> ?s * (1 - ?u)" "?s * (1 + ?u) \<le> ?s * (1 + ?u) * (1 + ?u)"
    using u mult_left_mono [of 1 "1 + ?u" "?s * (1 + ?u)"] by (simp_all add: mult_left_le)
  have square: "(x + y / ?b) * k ^ 2 = x * k * k + y * k / ?b * k" for x y k :: rat
    by (simp add: power2_eq_square distrib_right)
  have cube: "x * k ^ 2 * k = x * k ^ 3" for x k :: rat
    by (simp add: power2_eq_square power3_eq_cube)
  let ?sum = "f64 ?s + f64 (f64 ?n / ?b)"
  have "0 \<le> ?sum" using f64_nonneg [of ?s] f64_nonneg [of "f64 ?n / ?b"] f64_nonneg [of ?n] b by simp
  moreover have "(?s + ?n / ?b) * (1 - ?u) ^ 2 \<le> ?sum"
    using q(1) s(1) s'(1) unfolding square by linarith
  moreover have "?sum \<le> (?s + ?n / ?b) * (1 + ?u) ^ 2"
    using q(2) s(2) s'(2) unfolding square by linarith
  ultimately have "(?s + ?n / ?b) * (1 - ?u) ^ 2 * (1 - ?u) \<le> f64 ?sum" "f64 ?sum \<le> (?s + ?n / ?b) * (1 + ?u) ^ 2 * (1 + ?u)"
    by (auto intro: f64_upper f64_lower)
  then show "of_nat d / ?b * (1 - ?u) ^ 3 \<le> as_secs_f64 f64 d" "as_secs_f64 f64 d \<le> of_nat d / ?b * (1 + ?u) ^ 3"
    by (simp_all only: as_secs_f64_def cube seconds_split)
qed

lemma growth_margin: "(1 + unit_roundoff) ^ 4 \<le> growth * (1 - unit_roundoff) ^ 3"
  by code_simp

lemma as_secs_nonneg: "0 \<le> as_secs_f64 f64 d"
  using as_secs_bounds(1) [of d] unit_roundoff_bounds by (auto intro: order_trans [rotated])

lemma refill_quotient:
  assumes "0 < i"
  shows "0 \<le> f64 (as_secs_f64 f64 e / as_secs_f64 f64 i)"
    "f64 (as_secs_f64 f64 e / as_secs_f64 f64 i) \<le> growth * (of_nat e / of_nat i)"
proof -
  let ?u = unit_roundoff and ?b = "of_nat nanos_per_sec :: rat"
  let ?q = "as_secs_f64 f64 e / as_secs_f64 f64 i"
  have b: "0 < ?b" by (simp add: nanos_per_sec_def)
  have u: "0 < (1 - ?u) ^ 3" "0 < (1 + ?u) ^ 3" "0 < 1 + ?u" using unit_roundoff_bounds by simp_all
  have low: "0 < of_nat i / ?b * (1 - ?u) ^ 3" using assms b u by simp
  show "0 \<le> f64 ?q" using as_secs_nonneg by (intro f64_nonneg) simp
  have "?q \<le> (of_nat e / ?b * (1 + ?u) ^ 3) / (of_nat i / ?b * (1 - ?u) ^ 3)"
    using as_secs_bounds(2) [of e] as_secs_bounds(1) [of i] low as_secs_nonneg [of e] by (intro frac_le) auto
  also have "\<dots> = of_nat e / of_nat i * ((1 + ?u) ^ 3 / (1 - ?u) ^ 3)" using b by simp
  finally have q: "?q \<le> of_nat e / of_nat i * ((1 + ?u) ^ 3 / (1 - ?u) ^ 3)" .
  have "f64 ?q \<le> of_nat e / of_nat i * ((1 + ?u) ^ 3 / (1 - ?u) ^ 3) * (1 + ?u)"
    using as_secs_nonneg q by (intro f64_upper) simp_all
  also have "\<dots> = of_nat e / of_nat i * ((1 + ?u) ^ 4 / (1 - ?u) ^ 3)"
    by (simp add: power_Suc2 [of "1 + ?u" 3, simplified])
  also have "\<dots> \<le> of_nat e / of_nat i * growth"
    using growth_margin u by (intro mult_left_mono) (simp_all add: divide_le_eq)
  finally show "f64 ?q \<le> growth * (of_nat e / of_nat i)" by (simp add: mult.commute)
qed

lemma tokens_at_bounds:
  assumes "0 \<le> tokens b" "0 < refill_interval policy"
  shows "0 \<le> tokens_at f64 policy now b" "tokens_at f64 policy now b \<le> of_nat (burst policy)"
    "tokens_at f64 policy now b \<le> ideal policy now b + slack policy"
proof -
  let ?x = "tokens b + f64 (as_secs_f64 f64 (now - last_refill b) / as_secs_f64 f64 (refill_interval policy))"
  note q = refill_quotient [OF assms(2), of "now - last_refill b"]
  have x: "0 \<le> ?x" "?x \<le> tokens b + growth * (of_nat (now - last_refill b) / of_nat (refill_interval policy))"
    using q assms(1) by auto
  show "0 \<le> tokens_at f64 policy now b" using f64_nonneg [OF x(1)] by (simp add: tokens_at_def)
  show "tokens_at f64 policy now b \<le> of_nat (burst policy)" by (simp add: tokens_at_def)
  have "min (f64 ?x) (of_nat (burst policy)) \<le> min ?x (of_nat (burst policy)) + slack policy"
  proof (cases "?x \<le> of_nat (burst policy)")
    case True
    then have "?x * unit_roundoff \<le> slack policy"
      using unit_roundoff_bounds(1) by (simp add: slack_def mult.commute mult_left_mono)
    then show ?thesis using f64_le [OF x(1)] True by (simp add: algebra_simps min_def)
  qed (use slack_nonneg [of policy] in simp)
  also have "\<dots> \<le> ideal policy now b + slack policy" using x(2) by (auto simp: ideal_def intro: min.coboundedI1)
  finally show "tokens_at f64 policy now b \<le> ideal policy now b + slack policy" by (simp add: tokens_at_def)
qed

text \<open>
  What every call keeps: one entry per key, no more entries than the capacity, and no negative token
  count.  The instants of the calls may be in any order, as each is read before the lock is taken.
\<close>

definition buckets_ok :: "'k bounded_buckets \<Rightarrow> bool" where
  "buckets_ok bb \<longleftrightarrow> distinct (map fst (entries bb)) \<and> length (entries bb) \<le> capacity bb \<and>
     list_all (\<lambda>(_, b). 0 \<le> tokens b \<and> last_seen b = last_refill b) (entries bb)"

text \<open>The configuration: a bucket is full again before it expires.\<close>

definition config_ok :: "'k bounded_buckets \<Rightarrow> bool" where
  "config_ok bb \<longleftrightarrow> 0 < refill_interval (bb_policy bb) \<and> 0 < capacity bb \<and>
     burst (bb_policy bb) * refill_interval (bb_policy bb) \<le> entry_ttl bb"

text \<open>
  The potential of a key: the tokens it would have without rounding, plus the error an eviction of
  its bucket may give away.
\<close>

definition credit :: "'k \<Rightarrow> nat \<Rightarrow> 'k bounded_buckets \<Rightarrow> rat" where
  "credit k now bb = (case map_of (entries bb) k of
       Some b \<Rightarrow> ideal (bb_policy bb) now b + slack (bb_policy bb)
     | None \<Rightarrow> of_nat (burst (bb_policy bb)))"

lemma min_by_in: "min_by f xs = Some x \<Longrightarrow> x \<in> set xs"
  by (induction xs arbitrary: x) (auto split: option.splits if_splits)

lemma map_of_filter_key:
  "map_of (filter (\<lambda>(k', _). k' \<noteq> k) xs) k' = (if k' = k then None else map_of xs k')"
  by (induction xs) auto

lemma map_of_filter_distinct:
  assumes "distinct (map fst es)"
  shows "map_of (filter Q es) key = Option.bind (map_of es key) (\<lambda>b. if Q (key, b) then Some b else None)"
  using assms
proof (induction es)
  case (Cons e es)
  then have "map_of es (fst e) = None" by (simp add: map_of_eq_None_iff)
  with Cons show ?case by (cases e) (auto split: option.splits)
qed simp

lemma distinct_filter_fst: "distinct (map fst xs) \<Longrightarrow> distinct (map fst (filter P xs))"
  by (simp add: distinct_map_filter)

lemma entry_ok:
  "buckets_ok bb \<Longrightarrow> map_of (entries bb) k = Some b \<Longrightarrow> 0 \<le> tokens b \<and> last_seen b = last_refill b"
  by (auto simp: buckets_ok_def list_all_iff dest!: map_of_SomeD)

lemma expired_full:
  assumes "config_ok bb" "0 \<le> tokens b" "last_seen b = last_refill b" "\<not> now - last_seen b < entry_ttl bb"
  shows "ideal (bb_policy bb) now b = of_nat (burst (bb_policy bb))"
proof -
  let ?i = "refill_interval (bb_policy bb)" and ?e = "now - last_refill b"
  have "burst (bb_policy bb) * ?i \<le> ?e"
    using assms by (simp add: config_ok_def)
  then have "(of_nat (burst (bb_policy bb) * ?i) :: rat) \<le> of_nat ?e"
    by (simp only: of_nat_le_iff)
  then have "(of_nat (burst (bb_policy bb)) :: rat) \<le> of_nat ?e / of_nat ?i"
    using assms(1) by (simp add: config_ok_def field_simps)
  also have "\<dots> \<le> growth * (of_nat ?e / of_nat ?i)"
    by (rule mult_right_mono [of 1 growth, simplified]) (simp_all add: growth_def unit_roundoff_def)
  finally show ?thesis using assms(2) by (simp add: ideal_def)
qed

lemma prune_fields [simp]:
  "bb_policy (prune_expired now bb) = bb_policy bb" "capacity (prune_expired now bb) = capacity bb"
  "entry_ttl (prune_expired now bb) = entry_ttl bb"
  by (simp_all add: prune_expired_def)

lemma prune_ok: "buckets_ok bb \<Longrightarrow> buckets_ok (prune_expired now bb)"
  by (auto simp: buckets_ok_def prune_expired_def distinct_filter_fst list_all_iff
      intro: le_trans [OF length_filter_le])

lemma prune_credit:
  assumes "config_ok bb" "buckets_ok bb"
  shows "credit k now (prune_expired now bb) \<le> credit k now bb"
proof -
  have dist: "distinct (map fst (entries bb))" using assms(2) by (simp add: buckets_ok_def)
  show ?thesis
    using entry_ok [OF assms(2), of k] expired_full [OF assms(1)] slack_nonneg [of "bb_policy bb"]
    by (auto simp: credit_def prune_expired_def map_of_filter_distinct [OF dist] bind_eq_Some_conv split: option.splits bind_splits if_splits)
qed

text \<open>Room is made only by dropping one bucket that is full.\<close>

lemma make_room_cases:
  assumes "make_room fl now bb = (r, bb')"
  obtains (same) "bb' = bb" "r = Inr () \<Longrightarrow> length (entries bb) < capacity bb"
    | (evict) k b where "(k, b) \<in> set (entries bb)" "r = Inr ()"
        "of_nat (burst (bb_policy bb)) \<le> tokens_at fl (bb_policy bb) now b"
        "bb' = bb\<lparr>entries := filter (\<lambda>(k', _). k' \<noteq> k) (entries bb)\<rparr>"
proof (cases "length (entries bb) < capacity bb")
  case True
  with assms have "bb' = bb" by (simp add: make_room_def)
  then show ?thesis using True by (rule same)
next
  case False
  show ?thesis
  proof (cases "min_by (\<lambda>(_, b). last_seen b)
      (filter (\<lambda>(_, b). of_nat (burst (bb_policy bb)) \<le> tokens_at fl (bb_policy bb) now b) (entries bb))")
    case None
    with False assms have "bb' = bb" "r \<noteq> Inr ()" by (auto simp: make_room_def Let_def)
    then show ?thesis by (intro same) auto
  next
    case (Some e)
    obtain k b where e: "e = (k, b)" by fastforce
    from min_by_in [OF Some] e have "(k, b) \<in> set (entries bb)"
      "of_nat (burst (bb_policy bb)) \<le> tokens_at fl (bb_policy bb) now b" by auto
    with False assms Some e show ?thesis by (intro evict [of k b]) (auto simp: make_room_def)
  qed
qed

lemma make_room_ok:
  assumes "make_room fl now bb = (r, bb')" "buckets_ok bb"
  shows "buckets_ok bb'" "bb_policy bb' = bb_policy bb" "capacity bb' = capacity bb"
    "entry_ttl bb' = entry_ttl bb" "r = Inr () \<Longrightarrow> length (entries bb') < capacity bb'"
    "map_of (entries bb) k = None \<Longrightarrow> map_of (entries bb') k = None"
proof -
  have "buckets_ok bb' \<and> bb_policy bb' = bb_policy bb \<and> capacity bb' = capacity bb
    \<and> entry_ttl bb' = entry_ttl bb \<and> (r = Inr () \<longrightarrow> length (entries bb') < capacity bb')
    \<and> (map_of (entries bb) k = None \<longrightarrow> map_of (entries bb') k = None)"
    using assms(1)
  proof (cases rule: make_room_cases)
    case same
    with assms(2) show ?thesis by auto
  next
    case (evict k0 b)
    have "length (filter (\<lambda>(k', _). k' \<noteq> k0) (entries bb)) < length (entries bb)"
      using evict(1) by (auto intro: length_filter_less [of "(k0, b)"])
    with evict(4) assms(2) show ?thesis
      by (auto simp: buckets_ok_def distinct_filter_fst list_all_iff map_of_filter_key)
  qed
  then show "buckets_ok bb'" "bb_policy bb' = bb_policy bb" "capacity bb' = capacity bb"
    "entry_ttl bb' = entry_ttl bb" "r = Inr () \<Longrightarrow> length (entries bb') < capacity bb'"
    "map_of (entries bb) k = None \<Longrightarrow> map_of (entries bb') k = None"
    by auto
qed

lemma make_room_credit:
  assumes "make_room f64 now bb = (r, bb')" "buckets_ok bb" "config_ok bb"
  shows "credit k now bb' \<le> credit k now bb"
  using assms(1)
proof (cases rule: make_room_cases)
  case (evict k0 b)
  then have b: "map_of (entries bb) k0 = Some b"
    using assms(2) by (simp add: buckets_ok_def)
  have "of_nat (burst (bb_policy bb)) \<le> ideal (bb_policy bb) now b + slack (bb_policy bb)"
    using evict(3) tokens_at_bounds(3) [of b "bb_policy bb" now] entry_ok [OF assms(2) b] assms(3)
    by (simp add: config_ok_def)
  then show ?thesis
    using evict(4) b by (auto simp: credit_def map_of_filter_key split: option.splits if_splits)
qed simp

lemma set_entry_fields [simp]:
  "bb_policy (set_entry k b bb) = bb_policy bb" "capacity (set_entry k b bb) = capacity bb"
  "entry_ttl (set_entry k b bb) = entry_ttl bb"
  "map fst (entries (set_entry k b bb)) = map fst (entries bb)"
  by (auto simp: set_entry_def)

lemma map_of_set_entry:
  "map_of (entries (set_entry k b bb)) k' =
     (if k' = k \<and> map_of (entries bb) k \<noteq> None then Some b else map_of (entries bb) k')"
proof -
  have "map_of (map (\<lambda>(k', b'). (k', if k' = k then b else b')) xs) k' =
     (if k' = k \<and> map_of xs k \<noteq> None then Some b else map_of xs k')" for xs
    by (induction xs) auto
  then show ?thesis by (simp add: set_entry_def)
qed

lemma spend_fields:
  assumes "spend fl k now bb = (r, bb')"
  shows "bb_policy bb' = bb_policy bb" "capacity bb' = capacity bb" "entry_ttl bb' = entry_ttl bb"
    "map fst (entries bb') = map fst (entries bb)"
  using assms by (auto simp: spend_def Let_def split: option.splits if_splits)

lemma length_by_keys: "map fst xs = map fst ys \<Longrightarrow> length xs = length ys"
  by (metis length_map)

lemma set_entry_ok:
  assumes "buckets_ok bb" "0 \<le> tokens b" "last_seen b = last_refill b"
  shows "buckets_ok (set_entry k b bb)"
proof -
  have "length (entries (set_entry k b bb)) = length (entries bb)"
    by (rule length_by_keys) simp
  moreover have "list_all (\<lambda>(_, b). 0 \<le> tokens b \<and> last_seen b = last_refill b) (entries (set_entry k b bb))"
    using assms by (auto simp: buckets_ok_def list_all_iff set_entry_def split: if_splits)
  ultimately show ?thesis using assms(1) by (simp add: buckets_ok_def)
qed

lemma spend_ok:
  assumes "spend f64 k now bb = (r, bb')" "buckets_ok bb" "config_ok bb"
  shows "buckets_ok bb'"
proof (cases "map_of (entries bb) k")
  case None
  with assms show ?thesis by (simp add: spend_def)
next
  case (Some b)
  have "0 \<le> tokens_at f64 (bb_policy bb) now b"
    using entry_ok [OF assms(2) Some] assms(3) tokens_at_bounds(1) by (simp add: config_ok_def)
  with assms Some show ?thesis
    by (auto simp: spend_def Let_def refill_def f64_nonneg intro!: set_entry_ok split: if_splits)
qed

text \<open>The tokens left after a call are those before it, less the one spent, up to two roundings.\<close>

lemma ideal_now: "last_refill b = now \<Longrightarrow> ideal policy now b \<le> tokens b"
  by (simp add: ideal_def)

lemma spend_credit:
  assumes "spend f64 k now bb = (r, bb')" "map_of (entries bb) k = Some b0" "buckets_ok bb" "config_ok bb"
  shows "credit k' now bb' \<le> credit k' now bb +
    (if k' = k then 2 * slack (bb_policy bb) - (if r = Inr () then 1 else 0) else 0)"
proof (cases "k' = k")
  case False
  then show ?thesis
    using assms(1,2) by (auto simp: spend_def Let_def credit_def map_of_set_entry split: if_splits option.splits)
next
  case True
  let ?p = "bb_policy bb"
  have b0: "0 \<le> tokens b0" "0 < refill_interval ?p"
    using entry_ok [OF assms(3,2)] assms(4) by (simp_all add: config_ok_def)
  note t = tokens_at_bounds [OF b0, of now]
  let ?t = "tokens_at f64 ?p now b0"
  have cred: "credit k now bb = ideal ?p now b0 + slack ?p" using assms(2) by (simp add: credit_def)
  show ?thesis
  proof (cases "?t < 1")
    case low: True
    then have "r \<noteq> Inr ()" "map_of (entries bb') k = Some (refill f64 ?p now b0)" "bb_policy bb' = ?p"
      using assms(1,2) by (auto simp: spend_def Let_def refill_def map_of_set_entry)
    then show ?thesis
      using True cred t(3) ideal_now [of "refill f64 ?p now b0" now ?p] slack_nonneg [of ?p]
      by (simp add: credit_def refill_def)
  next
    case False
    let ?b = "(refill f64 ?p now b0)\<lparr>tokens := f64 (?t - 1)\<rparr>"
    have res: "r = Inr ()" "map_of (entries bb') k = Some ?b" "bb_policy bb' = ?p"
      using False assms(1,2) by (auto simp: spend_def Let_def refill_def map_of_set_entry)
    have "(?t - 1) * unit_roundoff \<le> slack ?p"
      using t(2) unit_roundoff_bounds(1) by (simp add: slack_def mult.commute mult_left_mono)
    then have "f64 (?t - 1) \<le> ?t - 1 + slack ?p"
      using f64_le [of "?t - 1"] False by (simp add: algebra_simps)
    then have "ideal ?p now ?b \<le> ideal ?p now b0 + 2 * slack ?p - 1"
      using t(3) ideal_now [of ?b now ?p] by (simp add: refill_def)
    then show ?thesis using True cred res by (simp add: credit_def)
  qed
qed

text \<open>One call: the invariant is kept, and a call that is admitted costs a token, up to three roundings.\<close>

lemma check_at_step:
  assumes "check_at f64 k now bb = (r, bb')" "config_ok bb" "buckets_ok bb"
  shows "buckets_ok bb'" "config_ok bb'" "bb_policy bb' = bb_policy bb"
    "credit k' now bb' \<le> credit k' now bb +
      (if k' = k then 3 * slack (bb_policy bb) - (if r = Inr () then 1 else 0) else 0)"
proof -
  let ?p = "prune_expired now bb" and ?s = "slack (bb_policy bb)"
  have p: "buckets_ok ?p" "config_ok ?p" "\<And>k. credit k now ?p \<le> credit k now bb"
    using assms by (simp_all add: prune_ok prune_credit config_ok_def)
  have s: "0 \<le> ?s" by (rule slack_nonneg)
  consider (known) b where "map_of (entries ?p) k = Some b" "spend f64 k now ?p = (r, bb')"
    | (refused) d where "map_of (entries ?p) k = None" "make_room f64 now ?p = (Inl d, bb')" "r = Inl d"
    | (fresh) q where "map_of (entries ?p) k = None" "make_room f64 now ?p = (Inr (), q)"
        "spend f64 k now (q\<lparr>entries := entries q @ [(k, new_bucket (bb_policy q) now)]\<rparr>) = (r, bb')"
    using assms(1) by (auto simp: check_at_def Let_def split: if_splits sum.splits prod.splits)
  then have "buckets_ok bb' \<and> bb_policy bb' = bb_policy bb \<and> capacity bb' = capacity bb
    \<and> entry_ttl bb' = entry_ttl bb
    \<and> credit k' now bb' \<le> credit k' now bb + (if k' = k then 3 * ?s - (if r = Inr () then 1 else 0) else 0)"
  proof cases
    case known
    then show ?thesis
      using spend_ok [OF known(2) p(1,2)] spend_fields [OF known(2)] spend_credit [OF known(2,1) p(1,2), of k'] p(3) [of k'] s
      by (auto split: if_splits)
  next
    case refused
    then show ?thesis
      using make_room_ok [OF refused(2) p(1)] make_room_credit [OF refused(2) p(1,2), of k'] p(3) [of k'] s by auto
  next
    case fresh
    let ?q = "q\<lparr>entries := entries q @ [(k, new_bucket (bb_policy q) now)]\<rparr>"
    note room = make_room_ok [OF fresh(2) p(1)]
    have none: "map_of (entries q) k = None" by (rule room(6) [OF fresh(1)])
    have ok: "buckets_ok ?q"
      using room(1,5) none by (auto simp: buckets_ok_def new_bucket_def map_of_eq_None_iff)
    have conf: "config_ok ?q" using p(2) room(2-4) by (simp add: config_ok_def)
    have look: "map_of (entries ?q) k = Some (new_bucket (bb_policy q) now)"
      using none by (simp add: map_add_def)
    have "credit k' now ?q \<le> credit k' now q + (if k' = k then ?s else 0)"
      using none room(2) by (auto simp: credit_def map_add_def new_bucket_def ideal_def split: option.splits)
    then have "credit k' now ?q \<le> credit k' now bb + (if k' = k then ?s else 0)"
      using make_room_credit [OF fresh(2) p(1,2), of k'] p(3) [of k'] by linarith
    then show ?thesis
      using spend_ok [OF fresh(3) ok conf] spend_fields [OF fresh(3)] spend_credit [OF fresh(3) look ok conf, of k'] room
      by (auto split: if_splits)
  qed
  with assms(2) show "buckets_ok bb'" "config_ok bb'" "bb_policy bb' = bb_policy bb"
    "credit k' now bb' \<le> credit k' now bb + (if k' = k then 3 * ?s - (if r = Inr () then 1 else 0) else 0)"
    by (auto simp: config_ok_def)
qed

lemma min_shift: "0 \<le> (d :: rat) \<Longrightarrow> min (a + (x + d)) m \<le> min (a + x) m + d"
  by (simp add: min_def)

text \<open>Between calls the credit grows at the refill rate at most, and not at all when the clock steps back.\<close>

lemma credit_time:
  assumes "config_ok bb"
  shows "credit k now bb \<le> credit k t bb + growth * (of_nat (now - t) / of_nat (refill_interval (bb_policy bb)))"
proof (cases "map_of (entries bb) k")
  case None
  then show ?thesis using unit_roundoff_bounds(3) by (simp add: credit_def)
next
  case (Some b)
  let ?i = "of_nat (refill_interval (bb_policy bb)) :: rat" and ?L = "last_refill b"
  have "now - ?L \<le> (t - ?L) + (now - t)" by simp
  then have "(of_nat (now - ?L) :: rat) \<le> of_nat (t - ?L) + of_nat (now - t)"
    by (simp only: of_nat_le_iff flip: of_nat_add)
  then have "growth * (of_nat (now - ?L) / ?i) \<le> growth * (of_nat (t - ?L) / ?i) + growth * (of_nat (now - t) / ?i)"
    using unit_roundoff_bounds(3) by (simp only: distrib_left [symmetric] add_divide_distrib [symmetric])
      (intro mult_left_mono divide_right_mono, simp_all)
  then have "ideal (bb_policy bb) now b \<le>
      min (tokens b + (growth * (of_nat (t - ?L) / ?i) + growth * (of_nat (now - t) / ?i))) (of_nat (burst (bb_policy bb)))"
    unfolding ideal_def by (intro min.mono) auto
  also have "\<dots> \<le> ideal (bb_policy bb) t b + growth * (of_nat (now - t) / ?i)"
    unfolding ideal_def using unit_roundoff_bounds(3) by (intro min_shift) simp
  finally show ?thesis using Some by (simp add: credit_def)
qed

text \<open>The number of admitted calls for a key along a sequence of calls, and of all its calls.\<close>

fun admitted :: "(rat \<Rightarrow> rat) \<Rightarrow> 'k \<Rightarrow> ('k \<times> nat) list \<Rightarrow> 'k bounded_buckets \<Rightarrow> nat" where
  "admitted fl k [] bb = 0"
| "admitted fl k ((k', now) # calls) bb = (case check_at fl k' now bb of
     (r, bb') \<Rightarrow> (if k' = k \<and> r = Inr () then 1 else 0) + admitted fl k calls bb')"

definition calls_for :: "'k \<Rightarrow> ('k \<times> nat) list \<Rightarrow> nat" where
  "calls_for k calls = length (filter (\<lambda>(k', _). k' = k) calls)"

fun run_checks :: "(rat \<Rightarrow> rat) \<Rightarrow> ('k \<times> nat) list \<Rightarrow> 'k bounded_buckets \<Rightarrow> 'k bounded_buckets" where
  "run_checks fl [] bb = bb"
| "run_checks fl ((k, now) # calls) bb = run_checks fl calls (snd (check_at fl k now bb))"

text \<open>
  The steps forward of the instants, in the order in which the calls take the lock; the difference of
  instants is zero for a step back.
\<close>

fun advance :: "nat \<Rightarrow> ('k \<times> nat) list \<Rightarrow> nat" where
  "advance t [] = 0"
| "advance t ((_, now) # calls) = (now - t) + advance now calls"

text \<open>If the instants are in order, that is the time that has passed.\<close>

fun times_from :: "nat \<Rightarrow> ('k \<times> nat) list \<Rightarrow> bool" where
  "times_from t [] = True"
| "times_from t ((_, now) # calls) = (t \<le> now \<and> times_from now calls)"

fun end_time :: "nat \<Rightarrow> ('k \<times> nat) list \<Rightarrow> nat" where
  "end_time t [] = t"
| "end_time t ((_, now) # calls) = end_time now calls"

lemma advance_in_order: "times_from t calls \<Longrightarrow> t + advance t calls = end_time t calls"
  by (induction t calls rule: times_from.induct) auto

lemma credit_le_burst: "credit k now bb \<le> of_nat (burst (bb_policy bb)) + slack (bb_policy bb)"
  by (simp add: credit_def ideal_def slack_nonneg split: option.splits)

lemma credit_nonneg: "buckets_ok bb \<Longrightarrow> 0 \<le> credit k now bb"
  using entry_ok [of bb k] slack_nonneg [of "bb_policy bb"] unit_roundoff_bounds(3)
  by (auto simp: credit_def ideal_def split: option.splits)

lemma admitted_credit:
  assumes "config_ok bb" "buckets_ok bb"
  shows "of_nat (admitted f64 k calls bb) \<le> credit k t bb + 3 * slack (bb_policy bb) * of_nat (calls_for k calls) +
    growth * (of_nat (advance t calls) / of_nat (refill_interval (bb_policy bb)))"
  using assms
proof (induction calls arbitrary: t bb)
  case Nil
  then show ?case using credit_nonneg [of bb k t] by (simp add: calls_for_def)
next
  case (Cons c calls)
  obtain k' now where c: "c = (k', now)" by fastforce
  let ?i = "of_nat (refill_interval (bb_policy bb)) :: rat" and ?s = "slack (bb_policy bb)"
  obtain r bb' where run: "check_at f64 k' now bb = (r, bb')" by fastforce
  note step = check_at_step [OF run Cons.prems]
  have IH: "of_nat (admitted f64 k calls bb') \<le> credit k now bb' + 3 * ?s * of_nat (calls_for k calls) +
      growth * (of_nat (advance now calls) / ?i)"
    using Cons.IH [OF step(2,1)] step(3) by simp
  have "growth * (of_nat (advance t (c # calls)) / ?i) =
      growth * (of_nat (now - t) / ?i) + growth * (of_nat (advance now calls) / ?i)"
    using c by (simp add: add_divide_distrib distrib_left)
  moreover have "3 * ?s * of_nat (calls_for k (c # calls)) =
      3 * ?s * of_nat (calls_for k calls) + (if k = k' then 3 * ?s else 0)"
    using c by (simp add: calls_for_def algebra_simps)
  moreover have "of_nat (admitted f64 k (c # calls) bb) =
      (if k = k' \<and> r = Inr () then 1 else 0 :: rat) + of_nat (admitted f64 k calls bb')"
    using c run by simp
  ultimately show ?case
    using IH step(4) [of k] credit_time [OF Cons.prems(1), of k now t] by (auto split: if_splits)
qed

text \<open>
  C28. In any sequence of calls, at any instants and interleaved with calls for any other keys and with
  whatever expiry and eviction they cause, a key is admitted at most \<open>burst + elapsed / refill_interval\<close>
  times, up to the rounding of \<open>f64\<close>: the first term by \<open>1 + 3n\<close> units of roundoff for \<open>n\<close> calls with the
  key, the second by eight.  What elapses are the steps forward of the instants in the order in which the
  calls take the lock, which is the time that passes if they take it in the order of their instants.
\<close>

theorem login_rate_bound:
  assumes "config_ok bb" "buckets_ok bb"
  shows "of_nat (admitted f64 k calls bb) \<le>
    of_nat (burst (bb_policy bb)) * (1 + (1 + 3 * of_nat (calls_for k calls)) / 2 ^ 53)
      + (1 + 8 / 2 ^ 53) * (of_nat (advance t calls) / of_nat (refill_interval (bb_policy bb)) :: rat)"
proof -
  have "of_nat (burst (bb_policy bb)) * (1 + (1 + 3 * of_nat (calls_for k calls)) / 2 ^ 53) =
      (of_nat (burst (bb_policy bb)) + slack (bb_policy bb)) + 3 * slack (bb_policy bb) * of_nat (calls_for k calls)"
    by (simp add: slack_def unit_roundoff_def field_simps)
  moreover have growth: "growth = 1 + 8 / 2 ^ 53" by (simp add: growth_def unit_roundoff_def)
  ultimately show ?thesis
    using admitted_credit [OF assms, of k calls t, unfolded growth] credit_le_burst [of k t bb] by linarith
qed

lemma account_config_ok: "config_ok (accounts default_rates)"
  by (simp add: config_ok_def default_rates_def new_buckets_def account_policy_def rate_entry_ttl_def
      nanos_per_sec_def)

lemma source_config_ok: "config_ok (sources default_rates)"
  by (simp add: config_ok_def default_rates_def new_buckets_def source_policy_def rate_entry_ttl_def
      nanos_per_sec_def)

lemma new_buckets_ok: "buckets_ok (new_buckets policy cap ttl)"
  by (simp add: buckets_ok_def new_buckets_def)

text \<open>Eight attempts with one account are admitted at once; the instants of the calls are out of order.\<close>

definition login_calls :: "(bytes \<times> nat) list" where
  "login_calls = [([7], 10), ([8], 5), ([7], 12), ([7], 8)]"

lemma login_rate_bound_witness:
  "of_nat (admitted f64 [7] login_calls (accounts default_rates)) \<le>
     8 * (1 + 10 / 2 ^ 53) + (1 + 8 / 2 ^ 53) * (17 / 15000000000 :: rat)"
proof -
  have "buckets_ok (accounts default_rates)" by (simp add: default_rates_def new_buckets_ok)
  from login_rate_bound [OF account_config_ok this, of "[7]" login_calls 0] show ?thesis
    by (simp add: default_rates_def new_buckets_def account_policy_def nanos_per_sec_def login_calls_def calls_for_def)
qed

text \<open>Every operation keeps one bucket per key and the number of buckets within the capacity.\<close>

definition size_ok :: "'k bounded_buckets \<Rightarrow> bool" where
  "size_ok bb \<longleftrightarrow> distinct (map fst (entries bb)) \<and> length (entries bb) \<le> capacity bb"

lemma make_room_size:
  assumes "make_room fl now bb = (r, bb')" "size_ok bb"
  shows "size_ok bb' \<and> capacity bb' = capacity bb \<and> (r = Inr () \<longrightarrow> length (entries bb') < capacity bb')
    \<and> (map_of (entries bb) k = None \<longrightarrow> map_of (entries bb') k = None)"
  using assms(1)
proof (cases rule: make_room_cases)
  case same
  with assms(2) show ?thesis by auto
next
  case (evict k0 b)
  have "length (filter (\<lambda>(k', _). k' \<noteq> k0) (entries bb)) < length (entries bb)"
    using evict(1) by (auto intro: length_filter_less [of "(k0, b)"])
  with evict(4) assms(2) show ?thesis
    by (auto simp: size_ok_def distinct_filter_fst map_of_filter_key)
qed

lemma spend_size: "spend fl k now bb = (r, bb') \<Longrightarrow> size_ok bb \<Longrightarrow> size_ok bb' \<and> capacity bb' = capacity bb"
  using spend_fields [of fl k now bb r bb'] length_by_keys [of "entries bb'" "entries bb"]
  by (simp add: size_ok_def)

lemma prune_size: "size_ok bb \<Longrightarrow> size_ok (prune_expired now bb)"
  by (auto simp: size_ok_def prune_expired_def distinct_filter_fst intro: le_trans [OF length_filter_le])

lemma check_at_size:
  assumes "check_at fl k now bb = (r, bb')" "size_ok bb"
  shows "size_ok bb' \<and> capacity bb' = capacity bb"
proof -
  let ?p = "prune_expired now bb"
  have p: "size_ok ?p" using assms(2) by (rule prune_size)
  consider (known) "spend fl k now ?p = (r, bb')"
    | (refused) d where "make_room fl now ?p = (Inl d, bb')"
    | (fresh) q where "map_of (entries ?p) k = None" "make_room fl now ?p = (Inr (), q)"
        "spend fl k now (q\<lparr>entries := entries q @ [(k, new_bucket (bb_policy q) now)]\<rparr>) = (r, bb')"
    using assms(1) by (auto simp: check_at_def Let_def split: if_splits sum.splits prod.splits)
  then show ?thesis
  proof cases
    case known
    then show ?thesis using spend_size [OF known p] by simp
  next
    case refused
    then show ?thesis using make_room_size [OF refused p] by simp
  next
    case fresh
    have "size_ok (q\<lparr>entries := entries q @ [(k, new_bucket (bb_policy q) now)]\<rparr>)"
      using make_room_size [OF fresh(2) p, of k] fresh(1) by (auto simp: size_ok_def map_of_eq_None_iff)
    then show ?thesis
      using spend_size [OF fresh(3)] make_room_size [OF fresh(2) p] by simp
  qed
qed

lemma run_checks_size: "size_ok bb \<Longrightarrow> size_ok (run_checks fl calls bb) \<and> capacity (run_checks fl calls bb) = capacity bb"
proof (induction fl calls bb rule: run_checks.induct)
  case (2 fl k now calls bb)
  obtain r bb' where "check_at fl k now bb = (r, bb')" by fastforce
  with check_at_size [OF this] 2 show ?case by simp
qed simp

text \<open>
  C29. Whatever keys are presented, in whatever order, at whatever times and with whatever rounding,
  the table never holds two buckets for a key nor more buckets than its capacity.
\<close>

theorem buckets_stay_bounded:
  "distinct (map fst (entries (run_checks fl calls (new_buckets policy cap ttl)))) \<and>
   length (entries (run_checks fl calls (new_buckets policy cap ttl))) \<le> cap"
  using run_checks_size [of "new_buckets policy cap ttl" fl calls]
  by (simp add: size_ok_def new_buckets_def)

end
