(* ===== verification/Protocol.thy ===== *)
theory Protocol
  imports Rust_Text
begin

text \<open>
  The wire types of \<open>crates/protocol/src/lib.rs\<close>: one record per \<open>struct\<close>, one datatype per
  \<open>enum\<close>, with the fields in the order of the source.  A \<open>Uuid\<close> is its 128-bit value; a
  \<open>serde_json::Value\<close> is opaque and stands for its compact serialisation.
\<close>

type_synonym uuid = "128 word"

datatype json = Json_Text string

record bootstrap_request =
  br_username :: string
  br_password :: string
  br_device_name :: string
  br_platform :: string

record bootstrap_response =
  bs_account_id :: uuid
  bs_device_id :: uuid
  bs_bearer_token :: string

datatype media_kind = Photo | Video | Other

definition media_kind_str :: "media_kind \<Rightarrow> string" where
  "media_kind_str k = (case k of Photo \<Rightarrow> ''photo'' | Video \<Rightarrow> ''video'' | Other \<Rightarrow> ''other'')"

text \<open>\<open>serde(rename_all = "kebab-case")\<close>.\<close>

datatype storage_encoding = PlainV1

definition storage_encoding_str :: "storage_encoding \<Rightarrow> string" where
  "storage_encoding_str e = (case e of PlainV1 \<Rightarrow> ''plain-v1'')"

record upload_part_spec =
  part_index :: u32
  part_size :: u64
  part_blake3 :: string

record create_upload_request =
  cu_source_asset_id :: string
  cu_source_resource_id :: string
  cu_media_kind :: media_kind
  cu_role :: string
  cu_filename :: string
  cu_mime_type :: string
  cu_source_created_at_ms :: i64
  cu_storage_encoding :: storage_encoding
  cu_content_size :: u64
  cu_content_blake3 :: string
  cu_metadata :: "json option"
  cu_parts :: "upload_part_spec list"

datatype upload_disposition = Upload | Complete

record create_upload_response =
  cr_disposition :: upload_disposition
  cr_upload_id :: "uuid option"
  cr_resource_id :: "uuid option"
  cr_missing_parts :: "u32 list"

record upload_status_response =
  us_upload_id :: uuid
  us_state :: string
  us_missing_parts :: "u32 list"

record complete_upload_response =
  co_resource_id :: uuid
  co_asset_id :: uuid
  co_deduplicated :: bool

record resource_summary =
  rs_resource_id :: uuid
  rs_role :: string
  rs_filename :: string
  rs_mime_type :: string
  rs_content_size :: u64
  rs_storage_encoding :: storage_encoding
  rs_metadata :: "json option"
  rs_manifest_path :: string
  rs_content_path :: string

record asset_summary =
  as_asset_id :: uuid
  as_source_asset_id :: string
  as_media_kind :: media_kind
  as_source_created_at_ms :: i64
  as_favorite :: bool
  as_archived :: bool
  as_trashed_at_ms :: "i64 option"
  as_tag_names :: "string list"
  as_resources :: "resource_summary list"

record sync_event =
  se_sequence :: i64
  se_entity_kind :: string
  se_entity_id :: uuid
  se_operation :: string
  se_changed_at_ms :: i64

record resource_manifest =
  rm_resource_id :: uuid
  rm_asset_id :: uuid
  rm_source_asset_id :: string
  rm_source_resource_id :: string
  rm_media_kind :: media_kind
  rm_role :: string
  rm_filename :: string
  rm_mime_type :: string
  rm_source_created_at_ms :: i64
  rm_content_size :: u64
  rm_content_blake3 :: string
  rm_storage_encoding :: storage_encoding
  rm_metadata :: "json option"
  rm_parts :: "upload_part_spec list"
  rm_content_path :: string

text \<open>The library and account DTOs; \<open>EmptyRequest\<close> has no field.\<close>

datatype empty_request = Empty_Request

record timeline_page =
  tp_items :: "asset_summary list"
  tp_next_cursor :: "string option"

record sync_page =
  sp_events :: "sync_event list"
  sp_next_sequence :: i64
  sp_has_more :: bool

record album_record =
  ar_album_id :: uuid
  ar_source_album_id :: string
  ar_name :: string
  ar_asset_count :: u64
  ar_updated_at_ms :: i64

record sync_album_request =
  sa_source_album_id :: string
  sa_name :: string
  sa_source_asset_ids :: "string list"
  sa_replace_members :: bool

record update_asset_request =
  ua_favorite :: "bool option"
  ua_archived :: "bool option"

record tag_record =
  tr_tag_id :: uuid
  tr_name :: string
  tr_asset_count :: u64
  tr_updated_at_ms :: i64

record create_tag_request =
  ct_name :: string

record set_tag_assets_request =
  st_asset_ids :: "uuid list"

record duplicate_group =
  dg_content_blake3 :: string
  dg_content_size :: u64
  dg_assets :: "asset_summary list"

record create_api_key_request =
  ck_name :: string

record api_key_created =
  akc_api_key_id :: uuid
  akc_name :: string
  akc_token :: string
  akc_prefix :: string
  akc_created_at_ms :: i64

record api_key_record =
  akr_api_key_id :: uuid
  akr_name :: string
  akr_prefix :: string
  akr_created_at_ms :: i64
  akr_last_used_at_ms :: "i64 option"

record audit_event_dto =
  ae_sequence :: i64
  ae_actor_kind :: string
  ae_action :: string
  ae_entity_kind :: "string option"
  ae_entity_id :: "uuid option"
  ae_occurred_at_ms :: i64

record audit_page =
  ap_events :: "audit_event_dto list"
  ap_next_sequence :: "i64 option"

record error_response =
  er_error :: string

lemma media_kind_str_inj: "media_kind_str a = media_kind_str b \<Longrightarrow> a = b"
  by (cases a; cases b) (simp_all add: media_kind_str_def)

text \<open>The storage encoding the only supported wire value names.\<close>

lemma storage_encoding_str_simp [simp]: "storage_encoding_str e = ''plain-v1''"
  by (cases e) (simp add: storage_encoding_str_def)

end
