(* ===== verification/Rooted_Fs.thy ===== *)
theory Rooted_Fs
  imports Rust_Text "HOL-Library.AList"
begin

text \<open>
  \<open>rooted_fs.rs\<close> (the Linux implementation): file access below DATA_DIR that never follows a
  symbolic link and never leaves the root.  The kernel's part is the state \<open>fs\<close>: the tree below the
  root, file contents by inode number, a clock of system calls, and two oracles that say which call
  fails with an I/O error and how much a read (or a failing write) transfers.  Directory handles are
  the names leading to the directory, file handles are inode numbers.
\<close>

section \<open>The file system below the root\<close>

datatype io_kind = NotFound | AlreadyExists | InvalidInput | PermissionDenied | NotADirectory
  | FilesystemLoop | Unsupported | OtherIo

datatype node = Dir | Reg nat | Symlink | Special

record fs =
  fs_nodes :: "(string list \<times> node) list"
  fs_data :: "nat \<Rightarrow> bytes"
  fs_next :: nat
  fs_tick :: nat
  fs_fault :: "nat \<Rightarrow> bool"
  fs_chunk :: "nat \<Rightarrow> nat"

type_synonym 'a io = "(fs, io_kind, 'a) sem"

definition look :: "fs \<Rightarrow> string list \<Rightarrow> node option" where
  "look s p = (if p = [] then Some Dir else map_of (fs_nodes s) p)"

definition put_node :: "string list \<Rightarrow> node \<Rightarrow> fs \<Rightarrow> fs" where
  "put_node p n s = s\<lparr>fs_nodes := fs_nodes s @ [(p, n)]\<rparr>"

definition drop_node :: "string list \<Rightarrow> fs \<Rightarrow> fs" where
  "drop_node p s = s\<lparr>fs_nodes := AList.delete p (fs_nodes s)\<rparr>"

definition set_data :: "nat \<Rightarrow> bytes \<Rightarrow> fs \<Rightarrow> fs" where
  "set_data i bs s = s\<lparr>fs_data := (fs_data s)(i := bs)\<rparr>"

text \<open>One system call: the clock advances, and the call may fail before it has any effect.\<close>

definition syscall :: "'a io \<Rightarrow> 'a io" where
  "syscall f s = (let t = s\<lparr>fs_tick := Suc (fs_tick s)\<rparr> in
     if fs_fault s (fs_tick s) then (Inl OtherIo, t) else f t)"

text \<open>
  Resolution of the names below a directory with \<open>RESOLVE_BENEATH\<close> and \<open>RESOLVE_NO_SYMLINKS\<close>.
\<close>

fun resolve :: "fs \<Rightarrow> string list \<Rightarrow> string list \<Rightarrow> io_kind + node" where
  "resolve s at_dir [] = ok_or NotFound (look s at_dir)"
| "resolve s at_dir (n # ns) = (case look s (at_dir @ [n]) of
       None \<Rightarrow> Inl NotFound
     | Some Symlink \<Rightarrow> Inl FilesystemLoop
     | Some Dir \<Rightarrow> resolve s (at_dir @ [n]) ns
     | Some other \<Rightarrow> if ns = [] then Inr other else Inl NotADirectory)"

definition sys_open_dir :: "string list \<Rightarrow> string list \<Rightarrow> string list io" where
  "sys_open_dir base names = syscall (\<lambda>s. (case resolve s base names of
       Inl e \<Rightarrow> Inl e
     | Inr Dir \<Rightarrow> Inr (base @ names)
     | Inr _ \<Rightarrow> Inl NotADirectory, s))"

definition sys_dup :: "'a \<Rightarrow> 'a io" where
  "sys_dup h = syscall (ret h)"

definition sys_fsync :: "unit io" where
  "sys_fsync = syscall (ret ())"

definition sys_mkdir :: "string list \<Rightarrow> string \<Rightarrow> unit io" where
  "sys_mkdir base n = syscall (\<lambda>s.
     if look s base \<noteq> Some Dir then (Inl NotFound, s)
     else if look s (base @ [n]) \<noteq> None then (Inl AlreadyExists, s)
     else (Inr (), put_node (base @ [n]) Dir s))"

definition new_file :: "string list \<Rightarrow> node io" where
  "new_file p s = (Inr (Reg (fs_next s)),
     put_node p (Reg (fs_next s)) (set_data (fs_next s) [] (s\<lparr>fs_next := Suc (fs_next s)\<rparr>)))"

text \<open>\<open>O_CREAT | O_EXCL\<close>.\<close>

definition sys_create_excl :: "string list \<Rightarrow> node io" where
  "sys_create_excl p = syscall (\<lambda>s. case resolve s [] (butlast p) of
       Inl e \<Rightarrow> (Inl e, s)
     | Inr Dir \<Rightarrow> if look s p \<noteq> None then (Inl AlreadyExists, s) else new_file p s
     | Inr _ \<Rightarrow> (Inl NotADirectory, s))"

text \<open>\<open>O_RDONLY | O_NONBLOCK\<close> opens whatever is there; \<open>O_RDWR | O_CREAT\<close> refuses a directory.\<close>

definition sys_open_read :: "string list \<Rightarrow> node io" where
  "sys_open_read p = syscall (\<lambda>s. (resolve s [] p, s))"

definition sys_open_rw_create :: "string list \<Rightarrow> node io" where
  "sys_open_rw_create p = syscall (\<lambda>s. case resolve s [] (butlast p) of
       Inl e \<Rightarrow> (Inl e, s)
     | Inr Dir \<Rightarrow> (case look s p of
           None \<Rightarrow> new_file p s
         | Some Symlink \<Rightarrow> (Inl FilesystemLoop, s)
         | Some Dir \<Rightarrow> (Inl OtherIo, s)
         | Some n \<Rightarrow> (Inr n, s))
     | Inr _ \<Rightarrow> (Inl NotADirectory, s))"

definition sys_stat :: "string list \<Rightarrow> node io" where
  "sys_stat p = syscall (\<lambda>s. (ok_or NotFound (look s p), s))"

definition sys_unlink :: "string list \<Rightarrow> unit io" where
  "sys_unlink p = syscall (\<lambda>s. case look s p of
       None \<Rightarrow> (Inl NotFound, s)
     | Some Dir \<Rightarrow> (Inl OtherIo, s)
     | Some _ \<Rightarrow> (Inr (), drop_node p s))"

definition sys_link :: "string list \<Rightarrow> string list \<Rightarrow> unit io" where
  "sys_link p q = syscall (\<lambda>s. case look s p of
       None \<Rightarrow> (Inl NotFound, s)
     | Some n \<Rightarrow>
         if look s (butlast q) \<noteq> Some Dir then (Inl NotFound, s)
         else if look s q \<noteq> None then (Inl AlreadyExists, s)
         else if n = Dir then (Inl PermissionDenied, s)
         else (Inr (), put_node q n s))"

text \<open>\<open>write_all\<close> appends to a file opened by its creator; a failing one leaves a prefix.\<close>

definition sys_write :: "nat \<Rightarrow> bytes \<Rightarrow> unit io" where
  "sys_write i bs s = (let t = s\<lparr>fs_tick := Suc (fs_tick s)\<rparr> in
     if fs_fault s (fs_tick s)
     then (Inl OtherIo, set_data i (fs_data s i @ take (fs_chunk s (fs_tick s)) bs) t)
     else (Inr (), set_data i (fs_data s i @ bs) t))"

text \<open>One \<open>read\<close> into a buffer of \<open>cap\<close> bytes with \<open>rest\<close> left in the file: short reads are allowed.\<close>

definition sys_read :: "nat \<Rightarrow> bytes \<Rightarrow> bytes io" where
  "sys_read cap rest = syscall (\<lambda>s. (Inr (take (min cap (max 1 (fs_chunk s (fs_tick s)))) rest), s))"

text \<open>Entry names of a directory, in the order the kernel lists them.\<close>

definition dir_names :: "fs \<Rightarrow> string list \<Rightarrow> string list" where
  "dir_names s d = map (last \<circ> fst) (filter (\<lambda>(p, _). p \<noteq> [] \<and> butlast p = d) (fs_nodes s))"

definition sys_read_dir :: "string list \<Rightarrow> string list io" where
  "sys_read_dir d = syscall (\<lambda>s. (Inr (dir_names s d), s))"

section \<open>Operations of \<open>RootedFs\<close>\<close>

fun normal_names :: "path \<Rightarrow> string list option" where
  "normal_names [] = Some []"
| "normal_names (Normal n # p) = map_option ((#) n) (normal_names p)"
| "normal_names (_ # p) = None"

text \<open>\<open>validate_relative\<close>; the names of the path on success.\<close>

definition validate_relative :: "path \<Rightarrow> string list io" where
  "validate_relative p =
     (if p = [] \<or> is_absolute p then fail InvalidInput
      else of_result (ok_or InvalidInput (normal_names p)))"

definition require_regular :: "node \<Rightarrow> nat io" where
  "require_regular n = syscall (case n of Reg i \<Rightarrow> ret i | _ \<Rightarrow> fail PermissionDenied)"

fun open_components :: "string list \<Rightarrow> string list \<Rightarrow> string list io" where
  "open_components current [] = ret current"
| "open_components current (n # ns) =
     bindE (attempt (sys_open_dir current [n])) (\<lambda>r. case r of
       Inr d \<Rightarrow> open_components d ns
     | Inl NotFound \<Rightarrow>
         bindE (attempt (sys_mkdir current n)) (\<lambda>m. case m of
           Inl e \<Rightarrow> if e = AlreadyExists
             then bindE sys_fsync (\<lambda>_. bindE (sys_open_dir current [n]) (\<lambda>d. open_components d ns))
             else fail e
         | Inr _ \<Rightarrow> bindE sys_fsync (\<lambda>_. bindE (sys_open_dir current [n]) (\<lambda>d. open_components d ns)))
     | Inl e \<Rightarrow> fail e)"

definition open_directory :: "path \<Rightarrow> bool \<Rightarrow> string list io" where
  "open_directory p create =
     (if p = [] then sys_dup []
      else bindE (validate_relative p) (\<lambda>names.
        if \<not> create then sys_open_dir [] names
        else bindE (sys_dup []) (\<lambda>root. open_components root names)))"

definition open_parent :: "path \<Rightarrow> bool \<Rightarrow> (string list \<times> string) io" where
  "open_parent p create =
     bindE (validate_relative p) (\<lambda>_.
     bindE (of_result (ok_or InvalidInput (path_file_name p))) (\<lambda>name.
     bindE (open_directory (case path_parent p of Some d \<Rightarrow> d | None \<Rightarrow> []) create) (\<lambda>fd.
     ret (fd, name))))"

definition ensure_dir :: "path \<Rightarrow> unit io" where
  "ensure_dir p = bindE (validate_relative p) (\<lambda>_. bindE (open_directory p True) (\<lambda>_. ret ()))"

definition open_parent_if_any :: "path \<Rightarrow> unit io" where
  "open_parent_if_any p = (case path_parent p of
       None \<Rightarrow> ret ()
     | Some d \<Rightarrow> if d = [] then ret () else bindE (open_directory d True) (\<lambda>_. ret ()))"

definition create_new :: "path \<Rightarrow> nat io" where
  "create_new p = bindE (validate_relative p) (\<lambda>names.
     bindE (open_parent_if_any p) (\<lambda>_.
     bindE (sys_create_excl names) require_regular))"

definition open_read :: "path \<Rightarrow> nat io" where
  "open_read p = bindE (validate_relative p) (\<lambda>names. bindE (sys_open_read names) require_regular)"

definition open_lock_file :: "path \<Rightarrow> nat io" where
  "open_lock_file p = bindE (validate_relative p) (\<lambda>names.
     bindE (open_parent_if_any p) (\<lambda>_.
     bindE (sys_open_rw_create names) require_regular))"

definition sync_parent :: "path \<Rightarrow> unit io" where
  "sync_parent p = bindE (validate_relative p) (\<lambda>_. bindE (open_parent p False) (\<lambda>_. sys_fsync))"

text \<open>The two directory scans.\<close>

datatype root_entry_kind = Directory | Regular_File

fun keep_regular :: "string list \<Rightarrow> string list \<Rightarrow> string list io" where
  "keep_regular d [] = ret []"
| "keep_regular d (n # ns) = (if n = ''.'' \<or> n = ''..'' then keep_regular d ns
     else bindE (sys_stat (d @ [n])) (\<lambda>node. bindE (keep_regular d ns) (\<lambda>rest.
       ret (case node of Reg _ \<Rightarrow> n # rest | _ \<Rightarrow> rest))))"

definition list_regular_files :: "path \<Rightarrow> string list io" where
  "list_regular_files p = bindE (validate_relative p) (\<lambda>_.
     bindE (attempt (open_directory p False)) (\<lambda>r. case r of
       Inl e \<Rightarrow> if e = NotFound then ret [] else fail e
     | Inr d \<Rightarrow> bindE (sys_read_dir d) (keep_regular d)))"

fun classify_entries :: "string list \<Rightarrow> string list \<Rightarrow> (string \<times> root_entry_kind) list io" where
  "classify_entries d [] = ret []"
| "classify_entries d (n # ns) = (if n = ''.'' \<or> n = ''..'' then classify_entries d ns
     else bindE (sys_stat (d @ [n])) (\<lambda>node. case node of
         Reg _ \<Rightarrow> bindE (classify_entries d ns) (\<lambda>rest. ret ((n, Regular_File) # rest))
       | Dir \<Rightarrow> bindE (classify_entries d ns) (\<lambda>rest. ret ((n, Directory) # rest))
       | _ \<Rightarrow> fail PermissionDenied))"

definition list_entries :: "path \<Rightarrow> (string \<times> root_entry_kind) list io" where
  "list_entries p = bindE (if p = [] then ret [] else validate_relative p) (\<lambda>_.
     bindE (open_directory p False) (\<lambda>d.
     bindE (sys_dup d) (\<lambda>fd.
     bindE (sys_read_dir d) (classify_entries fd))))"

definition remove_file :: "path \<Rightarrow> bool io" where
  "remove_file p = bindE (validate_relative p) (\<lambda>_.
     bindE (attempt (open_parent p False)) (\<lambda>r. case r of
       Inl e \<Rightarrow> if e = NotFound then ret False else fail e
     | Inr (fd, name) \<Rightarrow>
         bindE (attempt (sys_stat (fd @ [name]))) (\<lambda>st. case st of
           Inl e \<Rightarrow> if e = NotFound then ret False else fail e
         | Inr (Reg _) \<Rightarrow>
             bindE (attempt (sys_unlink (fd @ [name]))) (\<lambda>u. case u of
               Inr _ \<Rightarrow> bindE sys_fsync (\<lambda>_. ret True)
             | Inl e \<Rightarrow> if e = NotFound then ret False else fail e)
         | Inr _ \<Rightarrow> fail PermissionDenied)))"

text \<open>The publication proper, between opened directories: link, then check that the name is the source.\<close>

definition publish_link :: "string list \<Rightarrow> string list \<Rightarrow> nat \<Rightarrow> bool io" where
  "publish_link p q i =
     bindE (attempt (sys_link p q)) (\<lambda>l. case l of
       Inl e \<Rightarrow> if e = AlreadyExists then ret False else fail e
     | Inr _ \<Rightarrow>
         bindE (attempt (sys_stat q)) (\<lambda>published.
         if published = Inr (Reg i) then bindE sys_fsync (\<lambda>_. ret True)
         else bindE (attempt (sys_unlink q)) (\<lambda>_.
              bindE (attempt sys_fsync) (\<lambda>_. fail PermissionDenied))))"

definition link_no_replace :: "path \<Rightarrow> path \<Rightarrow> bool io" where
  "link_no_replace source destination =
     bindE (validate_relative source) (\<lambda>_.
     bindE (validate_relative destination) (\<lambda>_.
     bindE (open_parent source False) (\<lambda>(sfd, sname).
     bindE (open_parent destination False) (\<lambda>(dfd, dname).
     bindE (sys_stat (sfd @ [sname])) (\<lambda>node.
     case node of
       Reg i \<Rightarrow> publish_link (sfd @ [sname]) (dfd @ [dname]) i
     | _ \<Rightarrow> fail PermissionDenied)))))"

text \<open>\<open>new\<close>, on the node at the configured root and whether the kernel has \<open>openat2\<close>.\<close>

definition rooted_new :: "node option \<Rightarrow> bool \<Rightarrow> unit io" where
  "rooted_new root has_openat2 =
     bindE (syscall (of_result (case root of
        None \<Rightarrow> Inl NotFound | Some Dir \<Rightarrow> Inr Dir | Some Symlink \<Rightarrow> Inl FilesystemLoop
      | Some _ \<Rightarrow> Inl NotADirectory))) (\<lambda>node.
     bindE (syscall (ensure (node = Dir) InvalidInput)) (\<lambda>_.
     map_err (\<lambda>_. Unsupported) (syscall (ensure has_openat2 Unsupported))))"

section \<open>Reading a whole file\<close>

text \<open>
  The loop \<open>loop { let read = file.read(&mut buffer)?; if read == 0 { break } ... }\<close> over the
  content of an open file.  The body gets each chunk and either goes on (\<^term>\<open>Inr\<close>) or returns
  from the function (\<^term>\<open>Inl\<close>).  No loop of the program writes to the file it reads, so the
  content is fixed when the loop starts.
\<close>

function read_loop :: "(io_kind \<Rightarrow> 'e) \<Rightarrow> nat \<Rightarrow> (bytes \<Rightarrow> 'a \<Rightarrow> (fs, 'e, 'b + 'a) sem) \<Rightarrow> bytes \<Rightarrow> 'a
    \<Rightarrow> (fs, 'e, 'b + 'a) sem" where
  "read_loop io cap body rest acc =
     bindE (map_err io (sys_read cap rest)) (\<lambda>chunk.
       if chunk = [] \<or> rest = [] then ret (Inr acc)
       else bindE (body chunk acc) (\<lambda>r. case r of
         Inl b \<Rightarrow> ret (Inl b)
       | Inr acc' \<Rightarrow> read_loop io cap body (drop (length chunk) rest) acc'))"
  by pat_completeness auto
termination
  by (relation "measure (\<lambda>(io, cap, body, rest, acc). length rest)") auto

declare read_loop.simps [simp del]

section \<open>Frame of the operations\<close>

lemma look_put_node: "look (put_node p n s) q = (if q = [] then Some Dir else
    case look s q of Some m \<Rightarrow> Some m | None \<Rightarrow> if q = p then Some n else None)"
  by (auto simp: look_def put_node_def map_add_def split: option.splits)

lemma look_drop_node: "look (drop_node p s) q = (if q = p \<and> p \<noteq> [] then None else look s q)"
  by (auto simp: look_def drop_node_def delete_conv)

lemma fs_sel_simps [simp]:
  "look (s\<lparr>fs_tick := n\<rparr>) p = look s p" "look (set_data i bs s) p = look s p"
  "look (s\<lparr>fs_next := m\<rparr>) p = look s p"
  "fs_data (put_node p nd s) = fs_data s" "fs_next (put_node p nd s) = fs_next s"
  "fs_fault (put_node p nd s) = fs_fault s" "fs_chunk (put_node p nd s) = fs_chunk s"
  "fs_tick (put_node p nd s) = fs_tick s"
  "fs_data (drop_node p s) = fs_data s" "fs_next (drop_node p s) = fs_next s"
  "fs_fault (drop_node p s) = fs_fault s" "fs_chunk (drop_node p s) = fs_chunk s"
  "fs_tick (drop_node p s) = fs_tick s"
  "fs_data (set_data i bs s) = (fs_data s)(i := bs)" "fs_next (set_data i bs s) = fs_next s"
  "fs_fault (set_data i bs s) = fs_fault s" "fs_chunk (set_data i bs s) = fs_chunk s"
  "fs_tick (set_data i bs s) = fs_tick s"
  by (simp_all add: look_def put_node_def drop_node_def set_data_def)

lemma look_root [simp]: "look s [] = Some Dir"
  by (simp add: look_def)

text \<open>
  \<^term>\<open>keeps N P s t\<close>: from \<open>s\<close> to \<open>t\<close> no name outside \<open>P\<close> is removed or rebound and the content of
  the files numbered below \<open>N\<close> is untouched; the files created are numbered from \<open>N\<close> on.
\<close>

definition keeps :: "nat \<Rightarrow> string list set \<Rightarrow> fs \<Rightarrow> fs \<Rightarrow> bool" where
  "keeps N P s t \<longleftrightarrow>
     (\<forall>p n. look s p = Some n \<longrightarrow> p \<notin> P \<longrightarrow> look t p = Some n) \<and>
     (N \<le> fs_next s \<longrightarrow> N \<le> fs_next t \<and> (\<forall>i < N. fs_data t i = fs_data s i)) \<and>
     fs_fault t = fs_fault s \<and> fs_chunk t = fs_chunk s"

lemma keeps_look: "keeps N P s t \<Longrightarrow> look s p = Some n \<Longrightarrow> p \<notin> P \<Longrightarrow> look t p = Some n"
  by (simp add: keeps_def)

lemma keeps_data: "keeps N P s t \<Longrightarrow> N \<le> fs_next s \<Longrightarrow> i < N \<Longrightarrow> fs_data t i = fs_data s i"
  by (simp add: keeps_def)

lemma keeps_next: "keeps N P s t \<Longrightarrow> N \<le> fs_next s \<Longrightarrow> N \<le> fs_next t"
  by (simp add: keeps_def)

lemma keeps_mono: "keeps N P s t \<Longrightarrow> P \<subseteq> Q \<Longrightarrow> keeps N Q s t"
  by (auto simp: keeps_def)

lemma keeps_tick [simp]: "keeps N P s (s\<lparr>fs_tick := n\<rparr>)"
  by (simp add: keeps_def)

interpretation keeps: run_preorder "keeps N P"
  by unfold_locales (auto simp: keeps_def)

lemma syscall_keeps:
  assumes "\<And>s. keeps N P s (snd (f s))"
  shows "obeys (keeps N P) (syscall f)"
  unfolding obeys_def
proof
  fix s
  have "keeps N P (s\<lparr>fs_tick := Suc (fs_tick s)\<rparr>) (snd (f (s\<lparr>fs_tick := Suc (fs_tick s)\<rparr>)))"
    by (rule assms)
  then show "keeps N P s (snd (syscall f s))"
    by (auto simp: syscall_def Let_def keeps_def)
qed

lemma new_file_keeps: "look s p = None \<Longrightarrow> keeps N P s (snd (new_file p s))"
  by (auto simp: new_file_def keeps_def look_put_node)

lemma sys_keeps [obeys_intros]:
  "obeys (keeps N P) (sys_open_dir base names)" "obeys (keeps N P) (sys_dup h)"
  "obeys (keeps N P) sys_fsync" "obeys (keeps N P) (sys_mkdir base n)"
  "obeys (keeps N P) (sys_create_excl p)" "obeys (keeps N P) (sys_open_read p)"
  "obeys (keeps N P) (sys_open_rw_create p)" "obeys (keeps N P) (sys_stat p)"
  "obeys (keeps N P) (sys_link p q)" "obeys (keeps N P) (sys_read cap rest)"
  "obeys (keeps N P) (sys_read_dir d)" "obeys (keeps N P) (require_regular node)"
  unfolding sys_open_dir_def sys_dup_def sys_fsync_def sys_mkdir_def sys_create_excl_def sys_open_read_def
    sys_open_rw_create_def sys_stat_def sys_link_def sys_read_def sys_read_dir_def require_regular_def
  by (auto intro!: syscall_keeps new_file_keeps simp: ret_def fail_def
      split: sum.splits node.splits option.splits) (auto simp: keeps_def look_put_node)

lemma sys_unlink_keeps: "p \<in> P \<Longrightarrow> obeys (keeps N P) (sys_unlink p)"
  unfolding sys_unlink_def
  by (auto intro!: syscall_keeps split: option.splits node.splits) (auto simp: keeps_def look_drop_node)

lemma sys_write_keeps: "N \<le> i \<Longrightarrow> obeys (keeps N P) (sys_write i bs)"
  by (auto simp: obeys_def sys_write_def keeps_def Let_def)

lemma open_components_keeps [obeys_intros]: "obeys (keeps N P) (open_components d ns)"
  by (induction d ns rule: open_components.induct)
     (auto intro!: obeys_intros keeps.obeys_rules split: sum.splits io_kind.splits)

lemma validate_keeps [obeys_intros]: "obeys (keeps N P) (validate_relative p)"
  by (auto simp: validate_relative_def intro!: keeps.obeys_rules)

lemma open_directory_keeps [obeys_intros]: "obeys (keeps N P) (open_directory p c)"
  by (auto simp: open_directory_def intro!: obeys_intros keeps.obeys_rules)

lemma open_parent_keeps [obeys_intros]: "obeys (keeps N P) (open_parent p c)"
  by (auto simp: open_parent_def intro!: obeys_intros keeps.obeys_rules)

lemma open_parent_if_any_keeps [obeys_intros]: "obeys (keeps N P) (open_parent_if_any p)"
  by (auto simp: open_parent_if_any_def intro!: obeys_intros keeps.obeys_rules)

lemma rooted_keeps [obeys_intros]:
  "obeys (keeps N P) (ensure_dir p)" "obeys (keeps N P) (create_new p)"
  "obeys (keeps N P) (open_read p)" "obeys (keeps N P) (open_lock_file p)"
  "obeys (keeps N P) (sync_parent p)"
  unfolding ensure_dir_def create_new_def open_read_def open_lock_file_def sync_parent_def
  by (auto intro!: obeys_intros keeps.obeys_rules)


text \<open>\<^term>\<open>quiet s t\<close>: only the clock moved.\<close>

definition quiet :: "fs \<Rightarrow> fs \<Rightarrow> bool" where
  "quiet s t \<longleftrightarrow> (\<exists>n. t = s\<lparr>fs_tick := n\<rparr>)"

lemma quiet_sels:
  assumes "quiet s t"
  shows "fs_nodes t = fs_nodes s" "look t p = look s p" "fs_data t = fs_data s" "fs_next t = fs_next s"
    "fs_fault t = fs_fault s" "fs_chunk t = fs_chunk s"
  using assms by (auto simp: quiet_def)

lemma quiet_keeps: "quiet s t \<Longrightarrow> keeps N P s t"
  by (auto simp: quiet_def)

lemma quiet_tick [simp]: "quiet s (s\<lparr>fs_tick := n\<rparr>)"
  by (auto simp: quiet_def)

lemma quiet_refl [simp]: "quiet s s"
  unfolding quiet_def by (rule exI [of _ "fs_tick s"]) simp

lemma quiet_trans [trans]: "quiet s t \<Longrightarrow> quiet t u \<Longrightarrow> quiet s u"
  by (auto simp: quiet_def)

interpretation quiet: run_preorder quiet
  by unfold_locales (auto intro: quiet_trans)

lemma syscall_quiet:
  assumes "\<And>s. quiet s (snd (f s))"
  shows "obeys quiet (syscall f)"
  unfolding obeys_def
proof
  fix s
  have "quiet (s\<lparr>fs_tick := Suc (fs_tick s)\<rparr>) (snd (f (s\<lparr>fs_tick := Suc (fs_tick s)\<rparr>)))"
    by (rule assms)
  then show "quiet s (snd (syscall f s))"
    by (auto simp: syscall_def Let_def quiet_def)
qed

lemma sys_quiet [quiet_intros]:
  "obeys quiet (sys_open_dir base names)" "obeys quiet (sys_dup h)"
  "obeys quiet sys_fsync" "obeys quiet (sys_open_read p)" "obeys quiet (sys_stat p)"
  "obeys quiet (sys_read cap rest)" "obeys quiet (sys_read_dir d)" "obeys quiet (require_regular node)"
  unfolding sys_open_dir_def sys_dup_def sys_fsync_def sys_open_read_def sys_stat_def sys_read_def
    sys_read_dir_def require_regular_def
  by (auto intro!: syscall_quiet simp: ret_def fail_def split: node.splits)

lemma validate_relative_Inr:
  "validate_relative p s = (Inr names, t) \<longleftrightarrow> p = map Normal names \<and> names \<noteq> [] \<and> t = s"
proof -
  have names: "normal_names p = Some names \<longleftrightarrow> p = map Normal names" for p names
    by (induction p arbitrary: names rule: normal_names.induct) (auto simp: Cons_eq_map_conv)
  have "\<not> is_absolute (map Normal names)" by (cases names) (simp_all add: is_absolute_def)
  then show ?thesis
    by (auto simp: validate_relative_def fail_def of_result_def names)
qed

lemma validate_normals [simp]: "ns \<noteq> [] \<Longrightarrow> validate_relative (map Normal ns) s = (Inr ns, s)"
  by (simp add: validate_relative_Inr)

lemma validate_quiet [quiet_intros]: "obeys quiet (validate_relative p)"
  by (auto simp: validate_relative_def intro!: quiet.obeys_rules)

lemma validate_Inl: "validate_relative p s = (Inl e, t) \<Longrightarrow> e = InvalidInput \<and> t = s"
  by (auto simp: validate_relative_def fail_def of_result_def split: if_splits)

lemma open_directory_quiet [quiet_intros]: "obeys quiet (open_directory p False)"
  by (auto simp: open_directory_def intro!: quiet_intros quiet.obeys_rules)

lemma open_parent_quiet [quiet_intros]: "obeys quiet (open_parent p False)"
  by (auto simp: open_parent_def intro!: quiet_intros quiet.obeys_rules)

lemma rooted_quiet [quiet_intros]: "obeys quiet (open_read p)" "obeys quiet (sync_parent p)"
  unfolding open_read_def sync_parent_def
  by (auto intro!: quiet_intros quiet.obeys_rules)

lemma keep_regular_quiet [quiet_intros]: "obeys quiet (keep_regular d ns)"
  by (induction d ns rule: keep_regular.induct) (auto intro!: quiet_intros quiet.obeys_rules)

lemma list_regular_files_quiet [quiet_intros]: "obeys quiet (list_regular_files p)"
  unfolding list_regular_files_def
  by (auto intro!: quiet_intros quiet.obeys_rules split: sum.splits)

lemma classify_entries_quiet [quiet_intros]: "obeys quiet (classify_entries d ns)"
  by (induction d ns rule: classify_entries.induct)
     (auto intro!: quiet_intros quiet.obeys_rules split: node.splits)

lemma list_entries_quiet [quiet_intros]: "obeys quiet (list_entries p)"
  unfolding list_entries_def by (auto intro!: quiet_intros quiet.obeys_rules)

section \<open>What the operations return\<close>

lemma syscall_Inr:
  "syscall f s = (Inr x, t) \<Longrightarrow> f (s\<lparr>fs_tick := Suc (fs_tick s)\<rparr>) = (Inr x, t)"
  by (auto simp: syscall_def Let_def split: if_splits)

lemma resolve_Inr: "resolve s d ns = Inr n \<Longrightarrow> look s (d @ ns) = Some n"
  by (induction s d ns rule: resolve.induct) (auto split: option.splits node.splits if_splits)

lemma resolve_tick [simp]: "resolve (s\<lparr>fs_tick := n\<rparr>) d ns = resolve s d ns"
  by (induction s d ns rule: resolve.induct) (auto split: option.splits node.splits)

lemma sys_open_dir_Inr: "sys_open_dir base names s = (Inr d, t) \<Longrightarrow> d = base @ names"
  by (auto simp: sys_open_dir_def dest!: syscall_Inr split: sum.splits node.splits)

lemma open_components_Inr: "open_components d ns s = (Inr c, t) \<Longrightarrow> c = d @ ns"
proof (induction d ns arbitrary: s rule: open_components.induct)
  case (1 d)
  then show ?case by (simp add: ret_def)
next
  case (2 d n ns)
  have opened: "x = d @ [n]" if "fst (sys_open_dir d [n] u) = Inr x" for x u
    using that sys_open_dir_Inr [of d "[n]" u x "snd (sys_open_dir d [n] u)"] by (metis prod.collapse)
  from 2 show ?case
    by (fastforce simp: bindE_Inr_iff attempt_run fail_def dest!: sys_open_dir_Inr opened
        split: sum.splits io_kind.splits if_splits)
qed

lemma open_directory_Inr:
  assumes "open_directory p c s = (Inr d, t)" shows "p = map Normal d"
  using assms
  by (auto simp: open_directory_def bindE_Inr_iff validate_relative_Inr sys_dup_def ret_def
      dest!: sys_open_dir_Inr open_components_Inr syscall_Inr split: if_splits)

lemma open_parent_Inr:
  assumes "open_parent p c s = (Inr (d, n), t)" shows "p = map Normal (d @ [n])"
proof -
  from assms obtain names where p: "p = map Normal names" "names \<noteq> []"
    and name: "path_file_name p = Some n"
    and dir: "open_directory (case path_parent p of Some d \<Rightarrow> d | None \<Rightarrow> []) c s = (Inr d, t)"
    by (auto simp: open_parent_def bindE_Inr_iff validate_relative_Inr of_result_def ret_def)
  from dir open_directory_Inr p have "map Normal (butlast names) = map Normal d"
    by fastforce
  with p name show ?thesis by (metis append_butlast_last_id map_Normal_eq option.inject path_file_name_normals)
qed

lemma require_regular_Inr: "require_regular n s = (Inr i, t) \<Longrightarrow> n = Reg i \<and> quiet s t"
  by (auto simp: require_regular_def ret_def fail_def dest!: syscall_Inr split: node.splits)

lemma open_read_Inr:
  assumes "open_read p s = (Inr i, t)"
  obtains ns where "p = map Normal ns" "ns \<noteq> []" "look s ns = Some (Reg i)" "quiet s t"
proof -
  from assms obtain ns n u where "p = map Normal ns" "ns \<noteq> []" "sys_open_read ns s = (Inr n, u)"
    "require_regular n u = (Inr i, t)"
    by (auto simp: open_read_def bindE_Inr_iff validate_relative_Inr)
  moreover from this have "look s ns = Some n"
    by (auto simp: sys_open_read_def dest!: syscall_Inr resolve_Inr)
  moreover have "quiet s t" by (rule obeysD [OF rooted_quiet(1) assms])
  ultimately show ?thesis using that require_regular_Inr by blast
qed

lemma create_new_Inr:
  assumes "create_new p s = (Inr i, t)"
  obtains ns where "p = map Normal ns" "ns \<noteq> []" "look s ns = None" "look t ns = Some (Reg i)"
    "fs_next s \<le> i" "i < fs_next t" "fs_data t i = []"
proof -
  from assms obtain ns n u v where p: "p = map Normal ns" "ns \<noteq> []"
    and u: "open_parent_if_any p s = (Inr (), u)" and v: "sys_create_excl ns u = (Inr n, v)"
    and t: "require_regular n v = (Inr i, t)"
    by (auto simp: create_new_def bindE_Inr_iff validate_relative_Inr)
  have keep: "keeps (fs_next s) {} s u" by (rule obeysD [OF open_parent_if_any_keeps u])
  have "look u ns = None" and v': "n = Reg (fs_next u)" "look v ns = Some (Reg (fs_next u))"
    "fs_data v (fs_next u) = []" "fs_next v = Suc (fs_next u)"
    using v p(2) by (auto simp: sys_create_excl_def new_file_def look_put_node
        dest!: syscall_Inr split: sum.splits node.splits if_splits)
  moreover have "look s ns = None"
    using keeps_look [OF keep] \<open>look u ns = None\<close> by (cases "look s ns") auto
  moreover have "fs_next s \<le> fs_next u" using keeps_next [OF keep] by simp
  ultimately show ?thesis
    using that [OF p] require_regular_Inr [OF t] by (auto simp: quiet_sels)
qed


lemma put_node_tick: "put_node p n (s\<lparr>fs_tick := k\<rparr>) = (put_node p n s)\<lparr>fs_tick := k\<rparr>"
  by (simp add: put_node_def)

lemma drop_node_tick: "drop_node p (s\<lparr>fs_tick := k\<rparr>) = (drop_node p s)\<lparr>fs_tick := k\<rparr>"
  by (simp add: drop_node_def)

lemma put_node_quiet: "quiet s t \<Longrightarrow> quiet (put_node p n s) (put_node p n t)"
  by (auto simp: quiet_def put_node_tick)

lemma drop_node_quiet: "quiet s t \<Longrightarrow> quiet (drop_node p s) (drop_node p t)"
  by (auto simp: quiet_def drop_node_tick)

lemma syscall_cases:
  assumes "syscall f s = (r, t)"
  obtains (fault) "r = Inl OtherIo" "quiet s t"
    | (runs) "f (s\<lparr>fs_tick := Suc (fs_tick s)\<rparr>) = (r, t)"
  using assms by (auto simp: syscall_def Let_def split: if_splits)

lemma sys_stat_Inr: "sys_stat p s = (Inr n, t) \<Longrightarrow> look s p = Some n"
  by (auto simp: sys_stat_def dest!: syscall_Inr)

lemma sys_link_result:
  assumes "sys_link p q s = (r, t)" "look s p = Some (Reg i)"
  shows "(\<exists>e. r = Inl e \<and> quiet s t \<and> (e = AlreadyExists \<longrightarrow> look s q \<noteq> None)) \<or>
    (r = Inr () \<and> look s q = None \<and> quiet (put_node q (Reg i) s) t)"
  using assms(1) unfolding sys_link_def
proof (cases rule: syscall_cases)
  case runs
  then show ?thesis using assms(2)
    by (auto simp: put_node_tick split: if_splits)
qed auto

lemma sys_unlink_result:
  assumes "sys_unlink p s = (r, t)"
  shows "quiet s t \<and> r \<noteq> Inr () \<or> (r = Inr () \<and> quiet (drop_node p s) t)"
  using assms unfolding sys_unlink_def
proof (cases rule: syscall_cases)
  case runs
  then show ?thesis
    by (auto simp: drop_node_tick split: option.splits node.splits)
qed auto


text \<open>
  \<^term>\<open>outcome Q m s\<close>: the result and final state of a run satisfy \<open>Q\<close>.  A prefix without effect
  either fails, which \<open>Q\<close> must allow, or hands its result on.
\<close>

definition outcome :: "('e + 'a \<Rightarrow> 's \<Rightarrow> bool) \<Rightarrow> ('s, 'e, 'a) sem \<Rightarrow> 's \<Rightarrow> bool" where
  "outcome Q m s = Q (fst (m s)) (snd (m s))"

lemma outcomeI: "(\<And>r t. m s = (r, t) \<Longrightarrow> Q r t) \<Longrightarrow> outcome Q m s"
  by (simp add: outcome_def)

lemma outcomeD: "outcome Q m s \<Longrightarrow> m s = (r, t) \<Longrightarrow> Q r t"
  by (simp add: outcome_def)

lemma outcome_fail: "Q (Inl e) s \<Longrightarrow> outcome Q (fail e) s"
  by (simp add: outcome_def fail_def)

lemma outcome_quiet_bindE:
  assumes "quiet s0 s" "obeys quiet m" "\<And>e t. quiet s0 t \<Longrightarrow> Q (Inl e) t"
    and "\<And>x u. m s = (Inr x, u) \<Longrightarrow> quiet s0 u \<Longrightarrow> outcome Q (f x) u"
  shows "outcome Q (bindE m f) s"
proof (rule outcomeI)
  fix r t
  assume run: "bindE m f s = (r, t)"
  obtain q u where m: "m s = (q, u)" by fastforce
  have "quiet s0 u" using assms(1) obeysD [OF assms(2) m] by (rule quiet_trans)
  then show "Q r t"
    using run m assms(3) assms(4) [THEN outcomeD] by (cases q) (auto simp: bindE_def)
qed

text \<open>The outcomes of a publication: nothing, the name was taken, linked, or linked and undone.\<close>

definition publication :: "path \<Rightarrow> path \<Rightarrow> fs \<Rightarrow> io_kind + bool \<Rightarrow> fs \<Rightarrow> bool" where
  "publication p q s r t \<longleftrightarrow> (\<exists>e. r = Inl e \<and> quiet s t) \<or>
     (\<exists>ps qs i. p = map Normal ps \<and> q = map Normal qs \<and> ps \<noteq> [] \<and> qs \<noteq> [] \<and> look s ps = Some (Reg i) \<and>
       ((r = Inr False \<and> quiet s t \<and> look s qs \<noteq> None)
        \<or> (look s qs = None \<and> quiet (put_node qs (Reg i) s) t \<and> (r = Inr True \<or> (\<exists>e. r = Inl e)))
        \<or> (look s qs = None \<and> quiet (drop_node qs (put_node qs (Reg i) s)) t \<and> (\<exists>e. r = Inl e))))"

lemma publish_link_outcome:
  assumes run: "publish_link ps qs i s = (r, t)"
    and src: "look s ps = Some (Reg i)"
  shows "(\<exists>e. r = Inl e \<and> quiet s t) \<or> (r = Inr False \<and> quiet s t \<and> look s qs \<noteq> None)
    \<or> (look s qs = None \<and> quiet (put_node qs (Reg i) s) t \<and> (r = Inr True \<or> (\<exists>e. r = Inl e)))
    \<or> (look s qs = None \<and> quiet (drop_node qs (put_node qs (Reg i) s)) t \<and> (\<exists>e. r = Inl e))"
proof -
  obtain l u where l: "sys_link ps qs s = (l, u)" by fastforce
  from sys_link_result [OF l src] show ?thesis
  proof (elim disjE conjE exE)
    fix e assume "l = Inl e" "quiet s u" "e = AlreadyExists \<longrightarrow> look s qs \<noteq> None"
    then show ?thesis using run l by (auto simp: publish_link_def bindE_def attempt_run ret_def fail_def split: if_splits)
  next
    assume linked: "l = Inr ()" "look s qs = None" "quiet (put_node qs (Reg i) s) u"
    let ?s1 = "put_node qs (Reg i) s"
    obtain st v where st: "sys_stat qs u = (st, v)" by fastforce
    have v: "quiet ?s1 v" using linked(3) obeysD [OF sys_quiet(5) st] by (rule quiet_trans)
    show ?thesis
    proof (cases "st = Inr (Reg i)")
      case True
      obtain w x where w: "sys_fsync v = (w, x)" by fastforce
      have "quiet ?s1 x" using v obeysD [OF sys_quiet(3) w] by (rule quiet_trans)
      then show ?thesis using run l linked st True w
        by (cases w) (auto simp: publish_link_def bindE_def attempt_run ret_def fail_def)
    next
      case False
      obtain w x where w: "sys_unlink qs v = (w, x)" by fastforce
      obtain y z where y: "sys_fsync x = (y, z)" by fastforce
      have t: "t = z" "\<exists>e. r = Inl e"
        using run l linked st False w y by (auto simp: publish_link_def bindE_def attempt_run ret_def fail_def)
      have z: "quiet x z" by (rule obeysD [OF sys_quiet(3) y])
      from sys_unlink_result [OF w] show ?thesis
      proof (elim disjE conjE)
        assume "quiet v x"
        with v z have "quiet ?s1 z" by (blast intro: quiet_trans)
        with linked t show ?thesis by auto
      next
        assume "quiet (drop_node qs v) x"
        with drop_node_quiet [OF v, of qs] z have "quiet (drop_node qs ?s1) z"
          by (blast intro: quiet_trans)
        with linked t show ?thesis by auto
      qed
    qed
  qed
qed


lemma quiet_look: "quiet s t \<Longrightarrow> look t p = look s p"
  by (auto simp: quiet_def)

lemma link_no_replace_outcome: "outcome (publication p q s) (link_no_replace p q) s"
proof -
  have err: "publication p q s (Inl e) t" if "quiet s t" for e t
    using that by (auto simp: publication_def)
  note bind = outcome_quiet_bindE [where ?s0.0 = s and Q = "publication p q s"]
  show ?thesis
    unfolding link_no_replace_def
  proof (rule bind [OF quiet_refl validate_quiet err], assumption,
      rule bind [OF _ validate_quiet err], assumption, assumption,
      rule bind [OF _ open_parent_quiet err], assumption, assumption)
    fix u1 u2 u3 sp
    assume src: "open_parent p False u2 = (Inr sp, u3)" and u3: "quiet s u3"
    obtain sfd sname where sp: "sp = (sfd, sname)" by fastforce
    note p = open_parent_Inr [OF src [unfolded sp]]
    show "outcome (publication p q s) (case sp of (sfd, sname) \<Rightarrow>
        bindE (open_parent q False) (\<lambda>(dfd, dname). bindE (sys_stat (sfd @ [sname])) (\<lambda>node.
          case node of Reg i \<Rightarrow> publish_link (sfd @ [sname]) (dfd @ [dname]) i | _ \<Rightarrow> fail PermissionDenied))) u3"
      unfolding sp prod.case
    proof (rule bind [OF u3 open_parent_quiet err], assumption)
      fix dp u4
      assume dst: "open_parent q False u3 = (Inr dp, u4)" and u4: "quiet s u4"
      obtain dfd dname where dp: "dp = (dfd, dname)" by fastforce
      note q = open_parent_Inr [OF dst [unfolded dp]]
      show "outcome (publication p q s) (case dp of (dfd, dname) \<Rightarrow> bindE (sys_stat (sfd @ [sname])) (\<lambda>node.
          case node of Reg i \<Rightarrow> publish_link (sfd @ [sname]) (dfd @ [dname]) i | _ \<Rightarrow> fail PermissionDenied)) u4"
        unfolding dp prod.case
      proof (rule bind [OF u4 sys_quiet(5) err], assumption)
        fix node u5
        assume "sys_stat (sfd @ [sname]) u4 = (Inr node, u5)" and u5: "quiet s u5"
        then have node: "look s (sfd @ [sname]) = Some node"
          using sys_stat_Inr quiet_look [OF u4] by metis
        show "outcome (publication p q s) (case node of
            Reg i \<Rightarrow> publish_link (sfd @ [sname]) (dfd @ [dname]) i | _ \<Rightarrow> fail PermissionDenied) u5"
        proof (cases node)
          case (Reg i)
          have "publication p q s r t" if run: "publish_link (sfd @ [sname]) (dfd @ [dname]) i u5 = (r, t)" for r t
          proof -
            have src: "look u5 (sfd @ [sname]) = Some (Reg i)"
              using node Reg quiet_look [OF u5] by simp
            have eq: "look u5 x = look s x" for x by (rule quiet_look [OF u5])
            have add: "quiet (put_node x n s) t'" if "quiet (put_node x n u5) t'" for x n t'
              using put_node_quiet [OF u5] that by (rule quiet_trans)
            have del: "quiet (drop_node x (put_node x n s)) t'"
              if "quiet (drop_node x (put_node x n u5)) t'" for x n t'
              using drop_node_quiet [OF put_node_quiet [OF u5]] that by (rule quiet_trans)
            from publish_link_outcome [OF run src] show ?thesis
              unfolding publication_def eq using p q node Reg u5
              by (blast intro: add del quiet_trans)
          qed
          then show ?thesis using Reg by (auto intro: outcomeI)
        qed (auto intro!: outcome_fail err u5)
      qed
    qed
  qed
qed

lemma put_node_keeps: "look s q = None \<Longrightarrow> keeps N P s (put_node q n s)"
  by (auto simp: keeps_def look_put_node)

lemma put_drop_keeps: "look s q = None \<Longrightarrow> keeps N P s (drop_node q (put_node q n s))"
  by (auto simp: keeps_def look_put_node look_drop_node)

lemma link_no_replace_keeps [obeys_intros]: "obeys (keeps N P) (link_no_replace p q)"
proof (rule obeysI)
  fix s r t
  assume "link_no_replace p q s = (r, t)"
  with link_no_replace_outcome have "publication p q s r t" by (rule outcomeD)
  then show "keeps N P s t"
    unfolding publication_def
    by (auto intro: quiet_keeps keeps.R_trans [OF put_node_keeps] keeps.R_trans [OF put_drop_keeps])
qed

definition removal :: "path \<Rightarrow> fs \<Rightarrow> io_kind + bool \<Rightarrow> fs \<Rightarrow> bool" where
  "removal p s r t \<longleftrightarrow> (quiet s t \<and> r \<noteq> Inr True) \<or>
     (\<exists>ns i. p = map Normal ns \<and> ns \<noteq> [] \<and> look s ns = Some (Reg i) \<and> quiet (drop_node ns s) t \<and> r \<noteq> Inr False)"

lemma remove_file_outcome: "outcome (removal p s) (remove_file p) s"
  unfolding remove_file_def
proof (rule outcome_quiet_bindE [where ?s0.0 = s and Q = "removal p s", OF quiet_refl validate_quiet])
  show "quiet s t \<Longrightarrow> removal p s (Inl e) t" for e t
    by (simp add: removal_def)
next
  fix x u
  assume u: "quiet s u"
  note bind = outcome_quiet_bindE [where ?s0.0 = s and Q = "removal p s"]
  have err: "removal p s (Inl e) t" if "quiet s t" for e t
    using that by (simp add: removal_def)
  show "outcome (removal p s) (bindE (attempt (open_parent p False)) (\<lambda>r. case r of
       Inl e \<Rightarrow> if e = NotFound then ret False else fail e
     | Inr (fd, name) \<Rightarrow>
         bindE (attempt (sys_stat (fd @ [name]))) (\<lambda>st. case st of
           Inl e \<Rightarrow> if e = NotFound then ret False else fail e
         | Inr (Reg _) \<Rightarrow>
             bindE (attempt (sys_unlink (fd @ [name]))) (\<lambda>u. case u of
               Inr _ \<Rightarrow> bindE sys_fsync (\<lambda>_. ret True)
             | Inl e \<Rightarrow> if e = NotFound then ret False else fail e)
         | Inr _ \<Rightarrow> fail PermissionDenied))) u" (is "outcome _ (bindE _ ?rest) u")
  proof (rule bind [OF u quiet.obeys_attempt [OF open_parent_quiet] err], assumption)
    fix parent v
    assume run: "attempt (open_parent p False) u = (Inr parent, v)" and v: "quiet s v"
    show "outcome (removal p s) (?rest parent) v"
    proof (cases parent)
      case (Inl e)
      with v show ?thesis by (auto intro!: outcomeI simp: removal_def ret_def fail_def)
    next
      case (Inr dn)
      obtain d n where dn: "dn = (d, n)" by fastforce
      have p: "p = map Normal (d @ [n])"
        using run Inr dn by (auto simp: attempt_def dest!: open_parent_Inr split: prod.splits)
      obtain st w where st: "sys_stat (d @ [n]) v = (st, w)" by fastforce
      have w: "quiet s w" using v obeysD [OF sys_quiet(5) st] by (rule quiet_trans)
      show ?thesis
      proof (cases "\<exists>i. st = Inr (Reg i)")
        case False
        with Inr dn st w show ?thesis
          by (auto intro!: outcomeI simp: removal_def ret_def fail_def bindE_def attempt_run
              split: sum.splits node.splits if_splits)
      next
        case True
        then obtain i where i: "st = Inr (Reg i)" by blast
        have look: "look s (d @ [n]) = Some (Reg i)"
          using sys_stat_Inr [OF st [unfolded i]] quiet_look [OF v] by simp
        obtain x y where x: "sys_unlink (d @ [n]) w = (x, y)" by fastforce
        obtain f z where f: "sys_fsync y = (f, z)" by fastforce
        have z: "quiet y z" by (rule obeysD [OF sys_quiet(3) f])
        from sys_unlink_result [OF x] show ?thesis
        proof (elim disjE conjE)
          assume "quiet w y" "x \<noteq> Inr ()"
          moreover have "quiet s y" using w \<open>quiet w y\<close> by (rule quiet_trans)
          ultimately show ?thesis
            using Inr dn st i x
            by (cases x) (auto intro!: outcomeI simp: removal_def ret_def fail_def bindE_def attempt_run split: if_splits)
        next
          assume ok: "x = Inr ()" "quiet (drop_node (d @ [n]) w) y"
          have "quiet (drop_node (d @ [n]) s) z"
            using quiet_trans [OF drop_node_quiet [OF w] quiet_trans [OF ok(2) z]] .
          then have "removal p s r z" if "r \<noteq> Inr False" for r
            using p look that unfolding removal_def by blast
          then show ?thesis
            using Inr dn st i x ok(1) f
            by (cases f) (auto intro!: outcomeI simp: ret_def bindE_def attempt_run)
        qed
      qed
    qed
  qed
qed

lemma remove_file_keeps: "names \<in> P \<Longrightarrow> obeys (keeps N P) (remove_file (map Normal names))"
proof (rule obeysI)
  fix s r t
  assume P: "names \<in> P" and "remove_file (map Normal names) s = (r, t)"
  with remove_file_outcome have "removal (map Normal names) s r t" by (blast intro: outcomeD)
  moreover have "keeps N P s (drop_node names s)"
    using P by (auto simp: keeps_def look_drop_node)
  ultimately show "keeps N P s t"
    unfolding removal_def by (auto intro: quiet_keeps keeps.R_trans)
qed

lemma open_read_NotFound:
  assumes "open_read p s = (Inl NotFound, t)"
  shows "\<exists>ns. p = map Normal ns \<and> resolve s [] ns = Inl NotFound"
proof -
  from assms obtain ns where p: "p = map Normal ns" "ns \<noteq> []" and
    "bindE (sys_open_read ns) require_regular s = (Inl NotFound, t)"
    by (auto simp: open_read_def bindE_Inl_iff validate_relative_Inr dest: validate_Inl)
  then have "sys_open_read ns s = (Inl NotFound, t)"
    by (auto simp: bindE_Inl_iff require_regular_def syscall_def Let_def ret_def fail_def
        split: if_splits node.splits)
  then have "resolve s [] ns = Inl NotFound"
    by (auto simp: sys_open_read_def syscall_def Let_def split: if_splits)
  with p show ?thesis by blast
qed

section \<open>Reading loops\<close>

lemma sys_read_Inr:
  assumes "sys_read cap rest s = (Inr chunk, t)" "0 < cap"
  shows "chunk @ drop (length chunk) rest = rest \<and> (chunk = [] \<longleftrightarrow> rest = [])"
proof -
  from assms(1) obtain k where "chunk = take (min cap (max 1 k)) rest"
    by (auto simp: sys_read_def dest!: syscall_Inr)
  moreover have "0 < min cap (max 1 k)" using assms(2) by simp
  ultimately show ?thesis by (cases rest) (auto simp: min_def)
qed


text \<open>
  A loop that ends normally has fed its body the whole content, in some division into non-empty
  chunks; an invariant over the bytes consumed therefore holds of the content.
\<close>

lemma read_loop_invariant:
  assumes "read_loop io cap body rest acc s = (Inr (Inr acc'), t)" "I before acc s" "0 < cap"
    and tick: "\<And>xs a u v. I xs a u \<Longrightarrow> quiet u v \<Longrightarrow> I xs a v"
    and step: "\<And>xs c a a' u v. I xs a u \<Longrightarrow> c \<noteq> [] \<Longrightarrow> body c a u = (Inr (Inr a'), v) \<Longrightarrow> I (xs @ c) a' v"
  shows "I (before @ rest) acc' t"
  using assms(1,2,3) step
proof (induction io cap body rest acc arbitrary: before s rule: read_loop.induct)
  case (1 io cap body rest acc)
  from "1.prems"(1) obtain chunk u where read: "sys_read cap rest s = (Inr chunk, u)"
    and run: "(if chunk = [] \<or> rest = [] then ret (Inr acc)
       else bindE (body chunk acc) (\<lambda>r. case r of
         Inl b \<Rightarrow> ret (Inl b)
       | Inr acc' \<Rightarrow> read_loop io cap body (drop (length chunk) rest) acc')) u = (Inr (Inr acc'), t)"
    by (subst (asm) read_loop.simps) (auto simp: bindE_Inr_iff)
  have chunk: "chunk @ drop (length chunk) rest = rest" "chunk = [] \<longleftrightarrow> rest = []"
    using sys_read_Inr [OF read "1.prems"(3)] by auto
  have I: "I before acc u" using "1.prems"(2) obeysD [OF sys_quiet(6) read] by (rule tick)
  show ?case
  proof (cases "rest = []")
    case True
    with run chunk I show ?thesis by (simp add: ret_def)
  next
    case False
    with chunk have ne: "chunk \<noteq> []" by simp
    with run False obtain q v where q: "body chunk acc u = (Inr q, v)"
      "(case q of Inl b \<Rightarrow> ret (Inl b)
        | Inr acc' \<Rightarrow> read_loop io cap body (drop (length chunk) rest) acc') v = (Inr (Inr acc'), t)"
      by (auto simp: bindE_Inr_iff)
    then obtain a where body: "body chunk acc u = (Inr (Inr a), v)"
      and rec: "read_loop io cap body (drop (length chunk) rest) a v = (Inr (Inr acc'), t)"
      by (cases q) (auto simp: ret_def)
    have "I (before @ chunk) a v" by (rule "1.prems"(4) [OF I ne body])
    note I' = this
    have go: "\<not> (chunk = [] \<or> rest = [])" using ne False by simp
    have "I ((before @ chunk) @ drop (length chunk) rest) acc' t"
      by (rule "1.IH" [OF go rec I' "1.prems"(3)]) (rule "1.prems"(4))
    with chunk(1) show ?thesis by simp
  qed
qed


lemma read_loop_obeys:
  assumes R: "run_preorder R" and read: "\<And>cap rest. obeys R (sys_read cap rest)"
    and body: "\<And>c a. obeys R (body c a)"
  shows "obeys R (read_loop io cap body rest acc)"
  using body
proof (induction io cap body rest acc rule: read_loop.induct)
  case (1 io cap body rest acc)
  note rules = run_preorder.obeys_rules [OF R]
  have "obeys R (if chunk = [] \<or> rest = [] then ret (Inr acc)
       else bindE (body chunk acc) (\<lambda>r. case r of
         Inl b \<Rightarrow> ret (Inl b)
       | Inr acc' \<Rightarrow> read_loop io cap body (drop (length chunk) rest) acc'))" for chunk
  proof (cases "chunk = [] \<or> rest = []")
    case False
    show ?thesis
      unfolding if_not_P [OF False]
      by (intro rules "1.prems" "1.IH" [OF False])
  next
    case True
    show ?thesis unfolding if_P [OF True] by (rule rules)
  qed
  then show ?case
    by (subst read_loop.simps) (intro run_preorder.obeys_bindE [OF R] run_preorder.obeys_map_err [OF R] read)
qed

lemmas read_loop_keeps = read_loop_obeys [OF keeps.run_preorder_axioms sys_keeps(10)]
lemmas read_loop_quiet = read_loop_obeys [OF quiet.run_preorder_axioms sys_quiet(6)]

lemma read_loop_early:
  assumes "read_loop io cap body rest acc s = (Inr (Inl b), t)"
    and "\<And>c a u x v. body c a u = (Inr (Inl x), v) \<Longrightarrow> Q x"
  shows "Q b"
  using assms
proof (induction io cap body rest acc arbitrary: s rule: read_loop.induct)
  case (1 io cap body rest acc)
  from "1.prems"(1) obtain chunk u where
    run: "(if chunk = [] \<or> rest = [] then ret (Inr acc)
       else bindE (body chunk acc) (\<lambda>r. case r of
         Inl b \<Rightarrow> ret (Inl b)
       | Inr acc' \<Rightarrow> read_loop io cap body (drop (length chunk) rest) acc')) u = (Inr (Inl b), t)"
    by (subst (asm) read_loop.simps) (auto simp: bindE_Inr_iff)
  then have go: "\<not> (chunk = [] \<or> rest = [])" by (auto simp: ret_def)
  with run obtain q v where q: "body chunk acc u = (Inr q, v)"
    "(case q of Inl b \<Rightarrow> ret (Inl b)
      | Inr acc' \<Rightarrow> read_loop io cap body (drop (length chunk) rest) acc') v = (Inr (Inl b), t)"
    by (auto simp: bindE_Inr_iff)
  show ?case
  proof (cases q)
    case (Inl x)
    with q have "body chunk acc u = (Inr (Inl b), v)" by (simp add: ret_def)
    then show ?thesis by (rule "1.prems"(2))
  next
    case (Inr a)
    with q(2) have rec: "read_loop io cap body (drop (length chunk) rest) a v = (Inr (Inl b), t)" by simp
    show ?thesis by (rule "1.IH" [OF go rec]) (rule "1.prems"(2))
  qed
qed

end
