(* ===== verification/Storage.thy ===== *)
theory Storage
  imports Protocol App_Error Rooted_Fs
begin

text \<open>
  \<open>storage.rs\<close>: storage keys, upload parts, staged and final blobs, over \<^typ>\<open>fs\<close>.  The crates the
  code calls are the fields of \<open>externals\<close>; a BLAKE3 hasher is the bytes fed to it so far.  Random
  UUIDs are arguments.
\<close>

record externals =
  blake3_hex :: "bytes \<Rightarrow> string"
  uuid_str :: "uuid \<Rightarrow> string"
  uuid_parse :: "string \<Rightarrow> uuid option"

type_synonym 'a st = "(fs, app_error, 'a) sem"

text \<open>The \<open>?\<close> operator on an \<open>io::Result\<close>.\<close>

definition lift_io :: "'a io \<Rightarrow> 'a st" where
  "lift_io m = map_err (\<lambda>_. storage_error) m"

section \<open>Storage keys\<close>

definition invalid_storage_key :: app_error where
  "invalid_storage_key = bad_request ''storage key must use normal relative components under DATA_DIR''"

definition bad_component :: "string \<Rightarrow> bool" where
  "bad_component c \<longleftrightarrow> c = [] \<or> c = ''.'' \<or> c = ''..'' \<or> starts_with ''.'' c \<or> trim c \<noteq> c"

definition key_parse :: "string \<Rightarrow> app_error + string" where
  "key_parse raw =
     (if raw = [] \<or> 4096 < length raw \<or> trim raw \<noteq> raw \<or> starts_with ''/'' raw
         \<or> CHR 0x5C \<in> set raw \<or> CHR '':'' \<in> set raw \<or> CHR 0x00 \<in> set raw \<or> has_control raw
      then Inl invalid_storage_key
      else if list_ex bad_component (split_on (CHR ''/'') raw) then Inl invalid_storage_key
      else if is_absolute (path_of raw) then Inl invalid_storage_key
      else Inr raw)"

definition first_component :: "string \<Rightarrow> string" where
  "first_component key = hd (split_on (CHR ''/'') key)"

definition is_strict_descendant_of :: "string \<Rightarrow> string \<Rightarrow> bool" where
  "is_strict_descendant_of key parent = (case path_strip_prefix (path_of parent) (path_of key) of
       Some relative \<Rightarrow> relative \<noteq> [] | None \<Rightarrow> False)"

definition scoped_blob_key :: "string \<Rightarrow> string \<Rightarrow> app_error + string" where
  "scoped_blob_key account_path storage_path =
     (case key_parse account_path of Inl e \<Rightarrow> Inl e | Inr account \<Rightarrow>
     (case key_parse storage_path of Inl e \<Rightarrow> Inl e | Inr storage \<Rightarrow>
       if \<not> is_strict_descendant_of storage account
       then Inl (bad_request ''blob key is outside the account storage directory'')
       else Inr storage))"

definition is_commit_stage_name :: "externals \<Rightarrow> string \<Rightarrow> bool" where
  "is_commit_stage_name X name =
     (case Option.bind (strip_prefix ''commit-'' name) (strip_suffix ''.stage'') of
        None \<Rightarrow> False
      | Some v \<Rightarrow> is_ascii v \<and> length v = 73 \<and> v ! 36 = CHR ''-''
          \<and> uuid_parse X (take 36 v) \<noteq> None \<and> uuid_parse X (drop 37 v) \<noteq> None)"

definition commit_stage_key :: "externals \<Rightarrow> string \<Rightarrow> uuid \<Rightarrow> string \<Rightarrow> app_error + string" where
  "commit_stage_key X account_path upload_id staged_key =
     (case key_parse account_path of Inl e \<Rightarrow> Inl e | Inr account \<Rightarrow>
     (case key_parse staged_key of Inl e \<Rightarrow> Inl e | Inr staged \<Rightarrow>
     (let expected_parent = path_join (path_of account) (path_of ''staging'') in
      case path_file_name (path_of staged) of
        None \<Rightarrow> Inl invalid_storage_key
      | Some name \<Rightarrow>
          if path_parent (path_of staged) \<noteq> Some expected_parent
             \<or> \<not> starts_with (''commit-'' @ uuid_str X upload_id @ ''-'') name
             \<or> \<not> is_commit_stage_name X name
          then Inl (bad_request ''staged blob key is outside its upload account'')
          else Inr staged)))"

definition path_to_key :: "path \<Rightarrow> app_error + string" where
  "path_to_key p = (if \<not> valid_utf8 (path_str p) then Inl invalid_storage_key
     else case key_parse (path_str p) of Inl e \<Rightarrow> Inl e | Inr _ \<Rightarrow> Inr (path_str p))"

record commit_key_pair =
  ck_staged :: string
  ck_final_blob :: string

definition commit_keys ::
  "externals \<Rightarrow> uuid \<Rightarrow> string \<Rightarrow> uuid \<Rightarrow> string \<Rightarrow> app_error + commit_key_pair" where
  "commit_keys X fresh configured_path upload_id content_blake3 =
     (if length content_blake3 \<noteq> 64 \<or> \<not> list_all is_ascii_hexdigit content_blake3
      then Inl (bad_request ''invalid content hash'')
      else case key_parse configured_path of Inl e \<Rightarrow> Inl e | Inr account \<Rightarrow>
        (let staged = path_join (path_join (path_of account) (path_of ''staging''))
               (path_of (''commit-'' @ uuid_str X upload_id @ ''-'' @ uuid_str X fresh @ ''.stage''));
             final_blob = path_join (path_join (path_join (path_of account) (path_of ''objects''))
               (path_of (take 2 content_blake3))) (path_of (to_ascii_lowercase content_blake3))
         in case path_to_key staged of Inl e \<Rightarrow> Inl e | Inr s \<Rightarrow>
           (case path_to_key final_blob of Inl e \<Rightarrow> Inl e | Inr f \<Rightarrow>
              Inr \<lparr>ck_staged = s, ck_final_blob = f\<rparr>)))"

definition account_paths_overlap :: "string \<Rightarrow> string \<Rightarrow> app_error + bool" where
  "account_paths_overlap first second =
     (case key_parse first of Inl e \<Rightarrow> Inl e | Inr a \<Rightarrow>
     (case key_parse second of Inl e \<Rightarrow> Inl e | Inr b \<Rightarrow>
        Inr (a = b \<or> is_strict_descendant_of a b \<or> is_strict_descendant_of b a)))"

section \<open>Paths of an upload\<close>

definition upload_dir :: "externals \<Rightarrow> uuid \<Rightarrow> path" where
  "upload_dir X upload_id = path_join (path_of ''uploads'') (path_of (uuid_str X upload_id))"

definition part_path :: "externals \<Rightarrow> uuid \<Rightarrow> u32 \<Rightarrow> path" where
  "part_path X upload_id index =
     path_join (upload_dir X upload_id) (path_of (fmt08 (unat index) @ ''.part''))"

definition part_temporary_path :: "externals \<Rightarrow> uuid \<Rightarrow> u32 \<Rightarrow> uuid \<Rightarrow> path" where
  "part_temporary_path X upload_id index request_id =
     path_join (upload_dir X upload_id)
       (path_of (''.'' @ fmt08 (unat index) @ ''.'' @ uuid_str X request_id @ ''.tmp''))"

definition storage_new :: "node option \<Rightarrow> bool \<Rightarrow> unit st" where
  "storage_new root has_openat2 =
     bindE (lift_io (rooted_new root has_openat2)) (\<lambda>_.
     bindE (lift_io (ensure_dir (path_of ''uploads''))) (\<lambda>_.
     lift_io (ensure_dir (path_of ''blobs''))))"

text \<open>The lock is granted when the call returns; \<open>lock_upload_commit\<close> gives the file that holds it.\<close>

definition lock_upload_commit :: "externals \<Rightarrow> uuid \<Rightarrow> nat st" where
  "lock_upload_commit X upload_id = (let directory = upload_dir X upload_id in
     bindE (lift_io (ensure_dir directory)) (\<lambda>_.
     bindE (lift_io (open_lock_file (path_join directory (path_of ''commit.lock'')))) (\<lambda>file.
     lift_io (sys_dup file))))"

section \<open>Temporary files\<close>

text \<open>
  \<open>TemporaryPart\<close>: \<open>remove\<close> disarms the guard only when the removal succeeded; dropping an armed
  guard tries the removal (again) and ignores its result.
\<close>

definition temp_remove :: "path \<Rightarrow> unit st" where
  "temp_remove p = bindE (lift_io (remove_file p)) (\<lambda>_. ret ())"

definition temp_drop :: "path \<Rightarrow> unit st" where
  "temp_drop p = bindE (attempt (lift_io (remove_file p))) (\<lambda>_. ret ())"

definition cleanup_best_effort_then_drop :: "path \<Rightarrow> unit st" where
  "cleanup_best_effort_then_drop p = bindE (attempt (temp_remove p)) (\<lambda>r. case r of
       Inl e \<Rightarrow> temp_drop p
     | Inr _ \<Rightarrow> ret ())"

text \<open>A step under an armed guard: leaving with an error drops it.\<close>

definition guarded :: "path \<Rightarrow> 'a st \<Rightarrow> 'a st" where
  "guarded p m = bindE (attempt m) (\<lambda>r. case r of
       Inl e \<Rightarrow> bindE (temp_drop p) (\<lambda>_. fail e)
     | Inr x \<Rightarrow> ret x)"

section \<open>Comparing a stored file with what is expected\<close>

definition BUFFER :: nat where
  "BUFFER = 1024 * 1024"

definition match_body :: "u64 \<Rightarrow> bytes \<Rightarrow> u64 \<times> bytes \<Rightarrow> (fs, app_error, bool option + u64 \<times> bytes) sem" where
  "match_body expected_size chunk acc = (case acc of (tot, hashed) \<Rightarrow>
     (let tot = saturating_add_u64 tot (u64_of_len (length chunk)) in
      if expected_size < tot then ret (Inl (Some False))
      else ret (Inr (tot, hashed @ chunk))))"

definition existing_file_matches :: "externals \<Rightarrow> path \<Rightarrow> u64 \<Rightarrow> string \<Rightarrow> bool option st" where
  "existing_file_matches X p expected_size expected_blake3 =
     bindE (attempt (open_read p)) (\<lambda>r. case r of
       Inl e \<Rightarrow> if e = NotFound then ret None else fail storage_error
     | Inr file \<Rightarrow>
         bindE (gets (\<lambda>s. fs_data s file)) (\<lambda>content.
         bindE (read_loop (\<lambda>_. storage_error) BUFFER (match_body expected_size) content (0, [])) (\<lambda>q. case q of
           Inl early \<Rightarrow> ret early
         | Inr (tot, hashed) \<Rightarrow>
             ret (Some (tot = expected_size \<and> blake3_hex X hashed = expected_blake3)))))"

definition existing_part_matches :: "externals \<Rightarrow> path \<Rightarrow> upload_part_spec \<Rightarrow> bool option st" where
  "existing_part_matches X p spec = existing_file_matches X p (part_size spec) (part_blake3 spec)"

section \<open>Storing a part\<close>

text \<open>What the request body yields: data frames, trailer frames (skipped), or a transport error.\<close>

datatype frame = Data bytes | Trailers | Frame_Error

definition part_conflict :: app_error where
  "part_conflict = conflict ''stored part conflicts with upload manifest''"

fun write_frames :: "upload_part_spec \<Rightarrow> u64 \<Rightarrow> nat \<Rightarrow> frame list \<Rightarrow> u64 \<Rightarrow> bytes \<Rightarrow> (u64 \<times> bytes) st" where
  "write_frames spec limit file [] tot hashed = ret (tot, hashed)"
| "write_frames spec limit file (Frame_Error # fs) tot hashed =
     fail (bad_request ''failed to read part body'')"
| "write_frames spec limit file (Trailers # fs) tot hashed = write_frames spec limit file fs tot hashed"
| "write_frames spec limit file (Data chunk # fs) tot hashed =
     (if u64_max < length chunk then fail (bad_request ''part is too large'')
      else case checked_add_u64 tot (u64_of_len (length chunk)) of
        None \<Rightarrow> fail (bad_request ''part is too large'')
      | Some tot \<Rightarrow>
          if limit < tot then fail (app_error 413 ''part exceeds server limit'')
          else if part_size spec < tot then fail (bad_request ''part size does not match manifest'')
          else bindE (lift_io (sys_write file chunk)) (\<lambda>_.
            write_frames spec limit file fs tot (hashed @ chunk)))"

definition write_part :: "externals \<Rightarrow> upload_part_spec \<Rightarrow> u64 \<Rightarrow> nat \<Rightarrow> frame list \<Rightarrow> unit st" where
  "write_part X spec limit file frames =
     bindE (write_frames spec limit file frames 0 []) (\<lambda>(tot, hashed).
     if tot \<noteq> part_size spec then fail (bad_request ''part size does not match manifest'')
     else if blake3_hex X hashed \<noteq> part_blake3 spec then fail (bad_request ''part hash does not match manifest'')
     else lift_io sys_fsync)"

text \<open>The rest of \<open>put_part\<close>, once the temporary file is open.\<close>

definition publish_part ::
  "externals \<Rightarrow> upload_part_spec \<Rightarrow> path \<Rightarrow> path \<Rightarrow> frame list \<Rightarrow> nat \<Rightarrow> nat \<Rightarrow> unit st" where
  "publish_part X spec temporary final_path body max_part_bytes out =
     bindE (attempt (write_part X spec (u64_of_len max_part_bytes) out body)) (\<lambda>written. case written of
       Inl e \<Rightarrow> bindE (cleanup_best_effort_then_drop temporary) (\<lambda>_. fail e)
     | Inr _ \<Rightarrow>
         bindE (guarded temporary (lift_io (link_no_replace temporary final_path))) (\<lambda>linked.
         if linked then guarded temporary (temp_remove temporary)
         else
           bindE (attempt (existing_part_matches X final_path spec)) (\<lambda>existing.
           bindE (guarded temporary (temp_remove temporary)) (\<lambda>_.
           bindE (of_result existing) (\<lambda>m. case m of
             Some True \<Rightarrow> ret ()
           | _ \<Rightarrow> fail part_conflict)))))"

definition put_part ::
  "externals \<Rightarrow> uuid \<Rightarrow> uuid \<Rightarrow> upload_part_spec \<Rightarrow> frame list \<Rightarrow> nat \<Rightarrow> unit st" where
  "put_part X request_id upload_id spec body max_part_bytes =
     (let final_path = part_path X upload_id (part_index spec);
          temporary = part_temporary_path X upload_id (part_index spec) request_id
      in
      bindE (lift_io (ensure_dir (upload_dir X upload_id))) (\<lambda>_.
      bindE (lift_io (create_new temporary))
        (publish_part X spec temporary final_path body max_part_bytes)))"

section \<open>Committing an upload\<close>

datatype object_state = Missing | Matches | Mismatch

definition state_of_match :: "bool option \<Rightarrow> object_state" where
  "state_of_match m = (case m of None \<Rightarrow> Missing | Some True \<Rightarrow> Matches | Some False \<Rightarrow> Mismatch)"

definition inspect_object :: "externals \<Rightarrow> string \<Rightarrow> string \<Rightarrow> u64 \<Rightarrow> string \<Rightarrow> object_state st" where
  "inspect_object X configured_path storage_path expected_size expected_blake3 =
     bindE (of_result (scoped_blob_key configured_path storage_path)) (\<lambda>key.
     bindE (existing_file_matches X (path_of key) expected_size expected_blake3) (\<lambda>m.
     ret (state_of_match m)))"

definition inspect_commit_stage ::
  "externals \<Rightarrow> string \<Rightarrow> uuid \<Rightarrow> string \<Rightarrow> u64 \<Rightarrow> string \<Rightarrow> object_state st" where
  "inspect_commit_stage X configured_path upload_id staged_key expected_size expected_blake3 =
     bindE (of_result (commit_stage_key X configured_path upload_id staged_key)) (\<lambda>key.
     bindE (existing_file_matches X (path_of key) expected_size expected_blake3) (\<lambda>m.
     ret (state_of_match m)))"

definition size_overflow :: app_error where
  "size_overflow = conflict ''assembled content size overflow''"

text \<open>One chunk of a part: the part's size and hash, the total and the content hash, the output file.\<close>

definition copy_body :: "nat \<Rightarrow> bytes \<Rightarrow> u64 \<times> bytes \<times> u64 \<times> bytes
    \<Rightarrow> (fs, app_error, unit + u64 \<times> bytes \<times> u64 \<times> bytes) sem" where
  "copy_body out chunk acc = (case acc of (psize, phash, tot, content) \<Rightarrow>
     if u64_max < length chunk then fail size_overflow
     else case checked_add_u64 psize (u64_of_len (length chunk)) of
       None \<Rightarrow> fail size_overflow
     | Some psize \<Rightarrow>
         (case checked_add_u64 tot (u64_of_len (length chunk)) of
            None \<Rightarrow> fail size_overflow
          | Some tot \<Rightarrow>
              bindE (lift_io (sys_write out chunk)) (\<lambda>_.
              ret (Inr (psize, phash @ chunk, tot, content @ chunk)))))"

definition copy_part :: "externals \<Rightarrow> uuid \<Rightarrow> nat \<Rightarrow> upload_part_spec \<Rightarrow> u64 \<times> bytes \<Rightarrow> (u64 \<times> bytes) st" where
  "copy_part X upload_id out part acc = (case acc of (tot, content) \<Rightarrow>
     bindE (attempt (open_read (part_path X upload_id (part_index part)))) (\<lambda>r. case r of
       Inl e \<Rightarrow> if e = NotFound
         then fail (conflict (''part '' @ show_nat (unat (part_index part)) @ '' is missing from storage''))
         else fail storage_error
     | Inr input \<Rightarrow>
         bindE (gets (\<lambda>s. fs_data s input)) (\<lambda>bytes.
         bindE (read_loop (\<lambda>_. storage_error) BUFFER (copy_body out) bytes (0, [], tot, content)) (\<lambda>q. case q of
           Inl _ \<Rightarrow> fail size_overflow
         | Inr (psize, phash, tot, content) \<Rightarrow>
             if psize \<noteq> part_size part \<or> blake3_hex X phash \<noteq> part_blake3 part
             then fail (conflict (''part '' @ show_nat (unat (part_index part)) @ '' no longer matches its manifest''))
             else ret (tot, content)))))"

fun copy_parts :: "externals \<Rightarrow> uuid \<Rightarrow> nat \<Rightarrow> upload_part_spec list \<Rightarrow> u64 \<times> bytes \<Rightarrow> (u64 \<times> bytes) st" where
  "copy_parts X upload_id out [] acc = ret acc"
| "copy_parts X upload_id out (part # parts) acc =
     bindE (copy_part X upload_id out part acc) (copy_parts X upload_id out parts)"

definition write_stage ::
  "externals \<Rightarrow> uuid \<Rightarrow> nat \<Rightarrow> upload_part_spec list \<Rightarrow> u64 \<Rightarrow> string \<Rightarrow> unit st" where
  "write_stage X upload_id out parts expected_size expected_blake3 =
     bindE (copy_parts X upload_id out parts (0, [])) (\<lambda>(tot, content).
     if tot \<noteq> expected_size \<or> blake3_hex X content \<noteq> expected_blake3
     then fail (conflict ''assembled content does not match upload manifest'')
     else lift_io sys_fsync)"

text \<open>The rest of \<open>assemble_commit\<close>, once the stage file is open, and once no stage is in the way.\<close>

definition fill_stage ::
  "externals \<Rightarrow> uuid \<Rightarrow> upload_part_spec list \<Rightarrow> path \<Rightarrow> u64 \<Rightarrow> string \<Rightarrow> nat \<Rightarrow> unit st" where
  "fill_stage X upload_id parts staged expected_size expected_blake3 out =
     bindE (attempt (write_stage X upload_id out parts expected_size expected_blake3)) (\<lambda>r. case r of
       Inr _ \<Rightarrow> guarded staged (lift_io (sync_parent staged))
     | Inl e \<Rightarrow> bindE (cleanup_best_effort_then_drop staged) (\<lambda>_. fail e))"

definition create_stage ::
  "externals \<Rightarrow> uuid \<Rightarrow> upload_part_spec list \<Rightarrow> path \<Rightarrow> u64 \<Rightarrow> string \<Rightarrow> unit st" where
  "create_stage X upload_id parts staged expected_size expected_blake3 =
     bindE (of_result (ok_or invalid_storage_key (path_parent staged))) (\<lambda>parent.
     bindE (lift_io (ensure_dir parent)) (\<lambda>_.
     bindE (lift_io (create_new staged)) (fill_stage X upload_id parts staged expected_size expected_blake3)))"

definition assemble_commit ::
  "externals \<Rightarrow> string \<Rightarrow> uuid \<Rightarrow> upload_part_spec list \<Rightarrow> string \<Rightarrow> u64 \<Rightarrow> string \<Rightarrow> unit st" where
  "assemble_commit X configured_path upload_id parts staged_key expected_size expected_blake3 =
     bindE (of_result (commit_stage_key X configured_path upload_id staged_key)) (\<lambda>key.
     bindE (inspect_commit_stage X configured_path upload_id staged_key expected_size expected_blake3) (\<lambda>st. case st of
       Matches \<Rightarrow> ret ()
     | Mismatch \<Rightarrow> bindE (lift_io (remove_file (path_of key))) (\<lambda>_.
         create_stage X upload_id parts (path_of key) expected_size expected_blake3)
     | Missing \<Rightarrow> create_stage X upload_id parts (path_of key) expected_size expected_blake3))"

definition publish_commit ::
  "externals \<Rightarrow> string \<Rightarrow> uuid \<Rightarrow> string \<Rightarrow> string \<Rightarrow> u64 \<Rightarrow> string \<Rightarrow> unit st" where
  "publish_commit X configured_path upload_id staged_key final_key expected_size expected_blake3 =
     bindE (of_result (commit_stage_key X configured_path upload_id staged_key)) (\<lambda>staged.
     bindE (of_result (scoped_blob_key configured_path final_key)) (\<lambda>final_blob.
     bindE (inspect_commit_stage X configured_path upload_id staged_key expected_size expected_blake3) (\<lambda>st.
     if st \<noteq> Matches then fail (conflict ''staged blob is missing or corrupt'')
     else
     bindE (of_result (ok_or invalid_storage_key (path_parent (path_of final_blob)))) (\<lambda>parent.
     bindE (lift_io (ensure_dir parent)) (\<lambda>_.
     bindE (lift_io (link_no_replace (path_of staged) (path_of final_blob))) (\<lambda>_.
     bindE (inspect_object X configured_path final_key expected_size expected_blake3) (\<lambda>st.
     if st \<noteq> Matches then fail (conflict ''final blob conflicts with upload manifest'')
     else ret ())))))))"

definition remove_commit_stage :: "externals \<Rightarrow> string \<Rightarrow> uuid \<Rightarrow> string \<Rightarrow> bool st" where
  "remove_commit_stage X configured_path upload_id staged_key =
     bindE (of_result (commit_stage_key X configured_path upload_id staged_key)) (\<lambda>staged.
     lift_io (remove_file (path_of staged)))"

fun cleanup_names :: "externals \<Rightarrow> path \<Rightarrow> string set \<Rightarrow> string list \<Rightarrow> u64 \<Rightarrow> u64 st" where
  "cleanup_names X directory referenced [] removed = ret removed"
| "cleanup_names X directory referenced (name # names) removed =
     (if \<not> valid_utf8 name \<or> \<not> is_commit_stage_name X name
      then cleanup_names X directory referenced names removed
      else bindE (of_result (path_to_key (path_join directory (path_of name)))) (\<lambda>key.
        if key \<in> referenced then cleanup_names X directory referenced names removed
        else bindE (lift_io (remove_file (path_join directory (path_of name)))) (\<lambda>gone.
          cleanup_names X directory referenced names
            (if gone then saturating_add_u64 removed 1 else removed))))"

definition cleanup_orphan_staging :: "externals \<Rightarrow> string \<Rightarrow> string set \<Rightarrow> u64 st" where
  "cleanup_orphan_staging X configured_path referenced =
     bindE (of_result (key_parse configured_path)) (\<lambda>account.
     (let directory = path_join (path_of account) (path_of ''staging'') in
     bindE (lift_io (list_regular_files directory)) (\<lambda>names.
     cleanup_names X directory referenced names 0)))"

section \<open>Blobs and probes\<close>

definition open_blob :: "string \<Rightarrow> string \<Rightarrow> nat st" where
  "open_blob account_path storage_path =
     bindE (of_result (scoped_blob_key account_path storage_path)) (\<lambda>key. lift_io (open_read (path_of key)))"

definition remove_blob :: "string \<Rightarrow> string \<Rightarrow> unit st" where
  "remove_blob account_path storage_path =
     bindE (of_result (scoped_blob_key account_path storage_path)) (\<lambda>key.
     bindE (lift_io (remove_file (path_of key))) (\<lambda>_. ret ()))"

definition bytes_of :: "string \<Rightarrow> bytes" where
  "bytes_of = map (\<lambda>c. word_of_nat (code c))"

definition validate_account_path :: "externals \<Rightarrow> uuid \<Rightarrow> string \<Rightarrow> unit st" where
  "validate_account_path X fresh configured_path =
     bindE (of_result (key_parse configured_path)) (\<lambda>directory.
     if first_component directory = ''uploads''
     then fail (bad_request ''storage_path uses a reserved server directory'')
     else
     bindE (lift_io (ensure_dir (path_of directory))) (\<lambda>_.
     (let probe = path_join (path_of directory) (path_of (''.media-backup-write-test-'' @ uuid_str X fresh)) in
     bindE (lift_io (create_new probe)) (\<lambda>file.
     guarded probe (bindE (lift_io (sys_write file (bytes_of ''ok''))) (\<lambda>_.
       bindE (lift_io sys_fsync) (\<lambda>_. temp_remove probe)))))))"

definition probe_readiness :: "externals \<Rightarrow> uuid \<Rightarrow> unit st" where
  "probe_readiness X fresh = (let probe = path_of (''.media-backup-readiness-'' @ uuid_str X fresh) in
     bindE (lift_io (create_new probe)) (\<lambda>file.
     bindE (attempt (bindE (lift_io (sys_write file (bytes_of ''media-backup-readiness-v1''))) (\<lambda>_. lift_io sys_fsync))) (\<lambda>op.
     bindE (attempt (temp_remove probe)) (\<lambda>cleanup.
     bindE (case cleanup of Inl _ \<Rightarrow> temp_drop probe | Inr _ \<Rightarrow> ret ()) (\<lambda>_.
     bindE (of_result op) (\<lambda>_. of_result cleanup))))))"

end
