(* ===== verification/Server_State.thy ===== *)
theory Server_State
  imports Storage "HOL-Library.Product_Lexorder"
begin

text \<open>
  The state of the server: the tables of \<open>schema/product.sql\<close> and the rooted directory.  A row of a
  table is a record with the columns of the schema, a table the list of its rows in insertion order, a
  timestamp the seconds SQLite's \<open>datetime('now')\<close> prints.  A SQL statement is one step: it may fail
  (\<open>srv_fault\<close>), and a statement on the pool, like the start of a transaction, lets the other requests
  run first (\<open>srv_others\<close>).  A transaction that does not commit leaves the tables as it found them.
  The audit statements of \<open>audit.rs\<close> are at the end.
\<close>

section \<open>Rows\<close>

record account =
  acc_id :: uuid
  acc_created_at :: nat
  acc_display_name :: string
  acc_storage_path :: string
  acc_quota_bytes :: i64
  acc_enabled :: bool
  acc_username :: string
  acc_password_hash :: "string option"

record device =
  dev_id :: uuid
  dev_account_id :: uuid
  dev_name :: string
  dev_platform :: string
  dev_token_hash :: bytes
  dev_created_at :: nat
  dev_last_seen_at :: nat

record asset =
  ast_id :: uuid
  ast_account_id :: uuid
  ast_device_id :: uuid
  ast_source_asset_id :: string
  ast_media_kind :: string
  ast_source_created_at_ms :: i64
  ast_favorite :: bool
  ast_archived :: bool
  ast_deleted_at :: "nat option"
  ast_created_at :: nat
  ast_updated_at :: nat

record blob =
  blob_id :: uuid
  blob_account_id :: uuid
  blob_plaintext_size :: i64
  blob_stored_size :: i64
  blob_storage_path :: string
  blob_part_manifest :: json
  blob_content_blake3 :: string
  blob_storage_encoding :: string
  blob_created_at :: nat

record resource =
  res_id :: uuid
  res_asset_id :: uuid
  res_blob_id :: uuid
  res_source_resource_id :: string
  res_role :: string
  res_filename :: string
  res_mime_type :: string
  res_metadata :: "json option"
  res_created_at :: nat

record upload =
  upl_id :: uuid
  upl_account_id :: uuid
  upl_device_id :: uuid
  upl_asset_id :: uuid
  upl_source_resource_id :: string
  upl_content_blake3 :: string
  upl_request :: json
  upl_state :: string
  upl_error :: "string option"
  upl_created_at :: nat
  upl_updated_at :: nat
  upl_completed_at :: "nat option"
  upl_commit_state :: string
  upl_commit_staged_key :: "string option"
  upl_commit_final_key :: "string option"
  upl_commit_account_path :: "string option"
  upl_commit_expected_size :: "i64 option"
  upl_commit_expected_blake3 :: "string option"
  upl_commit_blob_id :: "uuid option"
  upl_commit_resource_id :: "uuid option"
  upl_commit_deduplicated :: bool
  upl_commit_error :: "string option"
  upl_commit_started_at :: "nat option"
  upl_finalized_at :: "nat option"

record upload_part =
  upt_upload_id :: uuid
  upt_part_index :: i64
  upt_expected_size :: i64
  upt_expected_blake3 :: string
  upt_received_size :: "i64 option"
  upt_received_at :: "nat option"

record album =
  alb_id :: uuid
  alb_account_id :: uuid
  alb_device_id :: uuid
  alb_source_album_id :: string
  alb_name :: string
  alb_created_at :: nat
  alb_updated_at :: nat

record tag =
  tag_id :: uuid
  tag_account_id :: uuid
  tag_name :: string
  tag_created_at :: nat
  tag_updated_at :: nat

text \<open>\<open>album_assets\<close> and \<open>tag_assets\<close>: the album or tag, the asset, and when it was added.\<close>

record member =
  mem_of :: uuid
  mem_asset_id :: uuid
  mem_added_at :: nat

record account_change =
  chg_sequence :: i64
  chg_account_id :: uuid
  chg_entity_kind :: string
  chg_entity_id :: uuid
  chg_operation :: string
  chg_changed_at :: nat

record api_key =
  key_id :: uuid
  key_account_id :: uuid
  key_device_id :: uuid
  key_name :: string
  key_prefix :: string
  key_token_hash :: bytes
  key_created_at :: nat
  key_last_used_at :: "nat option"
  key_revoked_at :: "nat option"

record audit_event =
  aud_sequence :: i64
  aud_account_id :: uuid
  aud_actor_kind :: string
  aud_actor_id :: "uuid option"
  aud_action :: string
  aud_entity_kind :: "string option"
  aud_entity_id :: "uuid option"
  aud_occurred_at :: nat

text \<open>The tables; \<open>t_change_seq\<close> and \<open>t_audit_seq\<close> are the largest sequence numbers ever used.\<close>

record tables =
  t_accounts :: "account list"
  t_devices :: "device list"
  t_assets :: "asset list"
  t_blobs :: "blob list"
  t_resources :: "resource list"
  t_uploads :: "upload list"
  t_upload_parts :: "upload_part list"
  t_albums :: "album list"
  t_album_assets :: "member list"
  t_tags :: "tag list"
  t_tag_assets :: "member list"
  t_account_changes :: "account_change list"
  t_change_seq :: i64
  t_api_keys :: "api_key list"
  t_audit_events :: "audit_event list"
  t_audit_seq :: i64

definition find_account :: "tables \<Rightarrow> uuid \<Rightarrow> account option" where
  "find_account d i = find (\<lambda>a. acc_id a = i) (t_accounts d)"

definition find_upload :: "tables \<Rightarrow> uuid \<Rightarrow> upload option" where
  "find_upload d i = find (\<lambda>u. upl_id u = i) (t_uploads d)"

definition find_asset :: "tables \<Rightarrow> uuid \<Rightarrow> asset option" where
  "find_asset d i = find (\<lambda>a. ast_id a = i) (t_assets d)"

definition find_blob :: "tables \<Rightarrow> uuid \<Rightarrow> blob option" where
  "find_blob d i = find (\<lambda>b. blob_id b = i) (t_blobs d)"

definition find_resource :: "tables \<Rightarrow> uuid \<Rightarrow> resource option" where
  "find_resource d i = find (\<lambda>r. res_id r = i) (t_resources d)"

text \<open>\<open>UPDATE ... WHERE\<close>: the rows changed, and how many.\<close>

definition update_rows :: "('r \<Rightarrow> bool) \<Rightarrow> ('r \<Rightarrow> 'r) \<Rightarrow> 'r list \<Rightarrow> nat \<times> 'r list" where
  "update_rows P f rows = (length (filter P rows), map (\<lambda>r. if P r then f r else r) rows)"

definition update_uploads :: "(upload \<Rightarrow> bool) \<Rightarrow> (upload \<Rightarrow> upload) \<Rightarrow> tables \<Rightarrow> (nat \<times> tables) option" where
  "update_uploads P f d = (case update_rows P f (t_uploads d) of (n, rows) \<Rightarrow> Some (n, d\<lparr>t_uploads := rows\<rparr>))"

text \<open>\<open>COALESCE(SUM(x), 0)\<close>: SQLite reports an integer overflow as an error.\<close>

definition sql_sum :: "i64 list \<Rightarrow> i64 option" where
  "sql_sum xs = fold (\<lambda>x acc. Option.bind acc (checked_add_i64 x)) xs (Some 0)"

section \<open>The server and its statements\<close>

record server =
  srv_db :: tables
  srv_fs :: fs
  srv_tick :: nat
  srv_drawn :: nat
  srv_fault :: "nat \<Rightarrow> bool"
  srv_clock :: "nat \<Rightarrow> nat"
  srv_uuids :: "nat \<Rightarrow> uuid"
  srv_others :: "nat \<Rightarrow> tables \<times> fs \<Rightarrow> tables \<times> fs"

type_synonym 'a srv = "(server, app_error, 'a) sem"

text \<open>A statement reads the clock and the tables; None is a violated constraint.\<close>

type_synonym 'a statement = "nat \<Rightarrow> tables \<Rightarrow> ('a \<times> tables) option"

definition in_tx :: "'a statement \<Rightarrow> 'a srv" where
  "in_tx q s = (let n = srv_tick s; t = s\<lparr>srv_tick := Suc n\<rparr> in
     if srv_fault s n then (Inl database_error, t)
     else case q (srv_clock s n) (srv_db s) of
       None \<Rightarrow> (Inl database_error, t)
     | Some (x, d) \<Rightarrow> (Inr x, t\<lparr>srv_db := d\<rparr>))"

definition run_others :: "server \<Rightarrow> server" where
  "run_others s = (case srv_others s (srv_tick s) (srv_db s, srv_fs s) of
     (d, f) \<Rightarrow> s\<lparr>srv_db := d, srv_fs := f\<rparr>)"

definition on_pool :: "'a statement \<Rightarrow> 'a srv" where
  "on_pool q s = in_tx q (run_others s)"

text \<open>How the body of a transaction ends, other than with an error.\<close>

datatype 'a ending = Commit 'a | Rollback 'a

definition end_transaction :: "tables \<Rightarrow> 'a ending \<Rightarrow> 'a srv" where
  "end_transaction before e s = (let n = srv_tick s; t = s\<lparr>srv_tick := Suc n\<rparr>; back = t\<lparr>srv_db := before\<rparr> in
     if srv_fault s n then (Inl database_error, back)
     else case e of Commit x \<Rightarrow> (Inr x, t) | Rollback x \<Rightarrow> (Inr x, back))"

definition transaction :: "'a ending srv \<Rightarrow> 'a srv" where
  "transaction body s = (let t = run_others s; n = srv_tick t; u = t\<lparr>srv_tick := Suc n\<rparr> in
     if srv_fault t n then (Inl database_error, u)
     else case body u of (r, v) \<Rightarrow>
       (case r of Inl e \<Rightarrow> (Inl e, v\<lparr>srv_db := srv_db t\<rparr>)
        | Inr e \<Rightarrow> end_transaction (srv_db t) e v))"

definition fresh_uuid :: "uuid srv" where
  "fresh_uuid s = (Inr (srv_uuids s (srv_drawn s)), s\<lparr>srv_drawn := Suc (srv_drawn s)\<rparr>)"

definition on_fs :: "'a st \<Rightarrow> 'a srv" where
  "on_fs m s = (case m (srv_fs s) of (r, f) \<Rightarrow> (r, s\<lparr>srv_fs := f\<rparr>))"

definition select :: "(tables \<Rightarrow> 'a) \<Rightarrow> 'a statement" where
  "select f now d = Some (f d, d)"

text \<open>\<open>fetch_one\<close>: no row is an error.\<close>

definition fetch_one :: "(tables \<Rightarrow> 'a option) \<Rightarrow> 'a statement" where
  "fetch_one f now d = map_option (\<lambda>x. (x, d)) (f d)"

section \<open>audit.rs\<close>

record auth_context =
  ac_account_id :: uuid
  ac_device_id :: uuid
  ac_actor_kind :: string
  ac_actor_id :: uuid

definition insert_audit_event ::
  "uuid \<Rightarrow> string \<Rightarrow> uuid option \<Rightarrow> string \<Rightarrow> string option \<Rightarrow> uuid option \<Rightarrow> unit statement" where
  "insert_audit_event account actor_kind actor_id action entity_kind entity_id now d =
     (if find_account d account = None \<or> t_audit_seq d = i64_max then None
      else Some ((), d\<lparr>t_audit_events := t_audit_events d @
          [\<lparr>aud_sequence = t_audit_seq d + 1, aud_account_id = account, aud_actor_kind = actor_kind,
            aud_actor_id = actor_id, aud_action = action, aud_entity_kind = entity_kind,
            aud_entity_id = entity_id, aud_occurred_at = now\<rparr>],
        t_audit_seq := t_audit_seq d + 1\<rparr>))"

definition record_in_transaction ::
  "auth_context \<Rightarrow> string \<Rightarrow> string option \<Rightarrow> uuid option \<Rightarrow> unit srv" where
  "record_in_transaction auth action entity_kind entity_id =
     in_tx (insert_audit_event (ac_account_id auth) (ac_actor_kind auth) (Some (ac_actor_id auth))
       action entity_kind entity_id)"

definition insert_change :: "uuid \<Rightarrow> string \<Rightarrow> uuid \<Rightarrow> string \<Rightarrow> unit statement" where
  "insert_change account entity_kind entity_id operation now d =
     (if find_account d account = None \<or> t_change_seq d = i64_max then None
      else Some ((), d\<lparr>t_account_changes := t_account_changes d @
          [\<lparr>chg_sequence = t_change_seq d + 1, chg_account_id = account, chg_entity_kind = entity_kind,
            chg_entity_id = entity_id, chg_operation = operation, chg_changed_at = now\<rparr>],
        t_change_seq := t_change_seq d + 1\<rparr>))"

definition record_change :: "uuid \<Rightarrow> string \<Rightarrow> uuid \<Rightarrow> string \<Rightarrow> unit srv" where
  "record_change account entity_kind entity_id operation =
     in_tx (insert_change account entity_kind entity_id operation)"

section \<open>The application state\<close>

text \<open>
  What the handlers find in \<open>AppState\<close> beside the pool: the crates behind the storage, serde's
  conversions of the typed columns (the text is the error message of a failed conversion), and the
  configuration.
\<close>

record app =
  app_externals :: externals
  app_request_to_value :: "create_upload_request \<Rightarrow> json"
  app_request_from_value :: "json \<Rightarrow> string + create_upload_request"
  app_parts_to_value :: "upload_part_spec list \<Rightarrow> json"
  app_parts_from_value :: "json \<Rightarrow> string + upload_part_spec list"
  app_value_len :: "json \<Rightarrow> nat option"
  app_value_favorite :: "json \<Rightarrow> bool option"
  app_max_part_bytes :: nat

text \<open>\<open>From<serde_json::Error>\<close>.\<close>

definition json_error :: "string \<Rightarrow> app_error" where
  "json_error e = bad_request (''invalid JSON: '' @ e)"

definition from_value :: "('v \<Rightarrow> string + 'a) \<Rightarrow> 'v \<Rightarrow> app_error + 'a" where
  "from_value f v = (case f v of Inl e \<Rightarrow> Inl (json_error e) | Inr x \<Rightarrow> Inr x)"

lemma from_value_Inr [simp]: "from_value f v = Inr x \<longleftrightarrow> f v = Inr x"
  by (simp add: from_value_def split: sum.splits)

section \<open>What a run guarantees while others keep their side\<close>

text \<open>
  \<open>I\<close> is an invariant of the tables, \<open>D\<close> relates the tables and \<open>F\<close> the directory before and after;
  \<open>U\<close> are identifiers the random source never draws.  A run that starts where the invariant holds and
  all the others keep it and obey \<open>D\<close> and \<open>F\<close>, does so too.
\<close>

definition rely ::
  "(tables \<Rightarrow> bool) \<Rightarrow> (tables \<Rightarrow> tables \<Rightarrow> bool) \<Rightarrow> (fs \<Rightarrow> fs \<Rightarrow> bool) \<Rightarrow> uuid set \<Rightarrow> server \<Rightarrow> bool" where
  "rely I D F U s \<longleftrightarrow>
     (\<forall>n d f. I d \<longrightarrow> I (fst (srv_others s n (d, f))) \<and> D d (fst (srv_others s n (d, f))) \<and>
        F f (snd (srv_others s n (d, f)))) \<and>
     (\<forall>n. srv_uuids s n \<notin> U)"

definition same_world :: "server \<Rightarrow> server \<Rightarrow> bool" where
  "same_world s t \<longleftrightarrow> srv_others t = srv_others s \<and> srv_uuids t = srv_uuids s \<and>
     srv_fault t = srv_fault s \<and> srv_clock t = srv_clock s"

definition runs ::
  "(tables \<Rightarrow> bool) \<Rightarrow> (tables \<Rightarrow> tables \<Rightarrow> bool) \<Rightarrow> (fs \<Rightarrow> fs \<Rightarrow> bool) \<Rightarrow> uuid set \<Rightarrow> server \<Rightarrow> server \<Rightarrow> bool" where
  "runs I D F U s t \<longleftrightarrow> (rely I D F U s \<longrightarrow> I (srv_db s) \<longrightarrow>
     same_world s t \<and> I (srv_db t) \<and> D (srv_db s) (srv_db t) \<and> F (srv_fs s) (srv_fs t))"

text \<open>What a computation returns when it succeeds there.\<close>

definition gives ::
  "(tables \<Rightarrow> bool) \<Rightarrow> (tables \<Rightarrow> tables \<Rightarrow> bool) \<Rightarrow> (fs \<Rightarrow> fs \<Rightarrow> bool) \<Rightarrow> uuid set \<Rightarrow> ('a \<Rightarrow> bool) \<Rightarrow> 'a srv \<Rightarrow> bool" where
  "gives I D F U Q m \<longleftrightarrow>
     (\<forall>s x t. rely I D F U s \<longrightarrow> I (srv_db s) \<longrightarrow> m s = (Inr x, t) \<longrightarrow> Q x)"

lemma rely_same_world: "same_world s t \<Longrightarrow> rely I D F U s \<Longrightarrow> rely I D F U t"
  by (simp add: rely_def same_world_def)

lemma run_others_sel:
  "srv_db (run_others s) = fst (srv_others s (srv_tick s) (srv_db s, srv_fs s))"
  "srv_fs (run_others s) = snd (srv_others s (srv_tick s) (srv_db s, srv_fs s))"
  "srv_tick (run_others s) = srv_tick s" "srv_drawn (run_others s) = srv_drawn s"
  "srv_fault (run_others s) = srv_fault s" "srv_clock (run_others s) = srv_clock s"
  "srv_uuids (run_others s) = srv_uuids s" "srv_others (run_others s) = srv_others s"
  by (simp_all add: run_others_def split: prod.splits)

lemma in_tx_Inr:
  "in_tx q s = (Inr x, t) \<longleftrightarrow> \<not> srv_fault s (srv_tick s) \<and>
     (\<exists>d. q (srv_clock s (srv_tick s)) (srv_db s) = Some (x, d) \<and>
        t = s\<lparr>srv_tick := Suc (srv_tick s), srv_db := d\<rparr>)"
  by (auto simp: in_tx_def Let_def split: option.splits)

lemma in_tx_Inl:
  "in_tx q s = (Inl e, t) \<Longrightarrow> e = database_error \<and> t = s\<lparr>srv_tick := Suc (srv_tick s)\<rparr>"
  by (auto simp: in_tx_def Let_def split: option.splits if_splits)

lemma on_pool_Inr:
  "on_pool q s = (Inr x, t) \<longleftrightarrow> in_tx q (run_others s) = (Inr x, t)"
  by (simp add: on_pool_def)

lemma on_fs_Inr: "on_fs m s = (r, t) \<longleftrightarrow> (\<exists>f. m (srv_fs s) = (r, f) \<and> t = s\<lparr>srv_fs := f\<rparr>)"
  by (auto simp: on_fs_def split: prod.splits)

lemma transaction_Inr:
  assumes "transaction body s = (Inr x, t)"
  obtains (commit) u v where "u = (run_others s)\<lparr>srv_tick := Suc (srv_tick s)\<rparr>" "body u = (Inr (Commit x), v)"
      "t = v\<lparr>srv_tick := Suc (srv_tick v)\<rparr>"
  | (rollback) u v where "u = (run_others s)\<lparr>srv_tick := Suc (srv_tick s)\<rparr>" "body u = (Inr (Rollback x), v)"
      "t = v\<lparr>srv_tick := Suc (srv_tick v), srv_db := srv_db (run_others s)\<rparr>"
  using assms
  by (auto simp: transaction_def end_transaction_def Let_def run_others_sel
      split: if_splits prod.splits sum.splits ending.splits)

locale server_frame =
  fixes I :: "tables \<Rightarrow> bool" and D :: "tables \<Rightarrow> tables \<Rightarrow> bool" and F :: "fs \<Rightarrow> fs \<Rightarrow> bool"
    and U :: "uuid set"
  assumes D_refl: "D d d" and D_trans: "D a b \<Longrightarrow> D b c \<Longrightarrow> D a c"
    and F_refl: "F f f" and F_trans: "F f g \<Longrightarrow> F g h \<Longrightarrow> F f h"
begin

lemma runs_refl: "runs I D F U s s"
  by (simp add: runs_def same_world_def D_refl F_refl)

lemma runs_trans: "runs I D F U s t \<Longrightarrow> runs I D F U t u \<Longrightarrow> runs I D F U s u"
  by (auto simp: runs_def intro: D_trans F_trans dest: rely_same_world)
     (auto simp: same_world_def rely_def)

lemma runs_others: "runs I D F U s (run_others s)"
  by (auto simp: runs_def rely_def same_world_def run_others_sel)

lemma runs_tick: "runs I D F U s (s\<lparr>srv_tick := n\<rparr>)"
  by (simp add: runs_def same_world_def D_refl F_refl)

lemma obeys_in_tx:
  "(\<And>now d x d'. I d \<Longrightarrow> q now d = Some (x, d') \<Longrightarrow> I d' \<and> D d d') \<Longrightarrow> obeys (runs I D F U) (in_tx q)"
  by (fastforce simp: obeys_def in_tx_def Let_def runs_def same_world_def D_refl F_refl split: option.splits)

lemma obeys_on_pool:
  assumes "\<And>now d x d'. I d \<Longrightarrow> q now d = Some (x, d') \<Longrightarrow> I d' \<and> D d d'"
  shows "obeys (runs I D F U) (on_pool q)"
proof (rule obeysI)
  fix s r t
  assume "on_pool q s = (r, t)"
  then have "in_tx q (run_others s) = (r, t)" by (simp add: on_pool_def)
  with obeys_in_tx [OF assms] have "runs I D F U (run_others s) t" by (rule obeysD)
  with runs_others show "runs I D F U s t" by (rule runs_trans)
qed

lemma obeys_select:
  "obeys (runs I D F U) (on_pool (select f))" "obeys (runs I D F U) (in_tx (select f))"
  "obeys (runs I D F U) (on_pool (fetch_one g))" "obeys (runs I D F U) (in_tx (fetch_one g))"
  by (auto simp: select_def fetch_one_def D_refl intro!: obeys_on_pool obeys_in_tx)

lemma obeys_on_fs: "obeys F m \<Longrightarrow> obeys (runs I D F U) (on_fs m)"
  by (auto simp: obeys_def on_fs_def runs_def same_world_def D_refl split: prod.splits) (metis snd_conv)

lemma obeys_fresh_uuid: "obeys (runs I D F U) fresh_uuid"
  by (simp add: obeys_def fresh_uuid_def runs_def same_world_def D_refl F_refl)

text \<open>A continuation needs to obey only for the values it can receive.\<close>

lemma obeys_bind_gives:
  assumes m: "obeys (runs I D F U) m" and Q: "gives I D F U Q m"
    and f: "\<And>x. Q x \<Longrightarrow> obeys (runs I D F U) (f x)"
  shows "obeys (runs I D F U) (bindE m f)"
proof (rule obeysI)
  fix s r u
  assume run: "bindE m f s = (r, u)"
  obtain q t where q: "m s = (q, t)" by fastforce
  have st: "runs I D F U s t" using m q by (rule obeysD)
  show "runs I D F U s u"
  proof (cases "\<exists>x. q = Inr x \<and> Q x")
    case True
    then obtain x where x: "q = Inr x" "Q x" by blast
    with run q have "f x t = (r, u)" by (simp add: bindE_def)
    with f [OF x(2)] have "runs I D F U t u" by (rule obeysD)
    with st show ?thesis by (rule runs_trans)
  next
    case False
    show ?thesis
    proof (cases q)
      case (Inl e)
      with run q st show ?thesis by (simp add: bindE_def)
    next
      case (Inr x)
      with False q Q have "\<not> (rely I D F U s \<and> I (srv_db s))" by (auto simp: gives_def)
      then show ?thesis by (auto simp: runs_def)
    qed
  qed
qed

lemma gives_fresh: "gives I D F U (\<lambda>x. x \<notin> U) fresh_uuid"
  by (auto simp: gives_def fresh_uuid_def rely_def)

lemma gives_in_tx: "(\<And>d. I d \<Longrightarrow> Q (g d)) \<Longrightarrow> gives I D F U Q (in_tx (select g))"
  by (auto simp: gives_def in_tx_Inr select_def)

lemma gives_on_pool: "(\<And>d. I d \<Longrightarrow> Q (g d)) \<Longrightarrow> gives I D F U Q (on_pool (select g))"
  by (auto simp: gives_def on_pool_def in_tx_Inr select_def run_others_sel rely_def)

lemma gives_bind:
  "obeys (runs I D F U) m \<Longrightarrow> gives I D F U P m \<Longrightarrow> (\<And>x. P x \<Longrightarrow> gives I D F U Q (f x)) \<Longrightarrow>
    gives I D F U Q (bindE m f)"
  unfolding gives_def bindE_Inr_iff by (metis obeysD rely_same_world runs_def)

lemma gives_any: "gives I D F U (\<lambda>_. True) m"
  by (simp add: gives_def)

lemma gives_if: "(b \<Longrightarrow> gives I D F U Q m) \<Longrightarrow> (\<not> b \<Longrightarrow> gives I D F U Q n) \<Longrightarrow> gives I D F U Q (if b then m else n)"
  by simp

lemma gives_no_result: "gives I D F U Q (bindE m (\<lambda>_. fail e))"
  by (auto simp: gives_def bindE_Inr_iff fail_def)

lemma gives_ret: "Q x \<Longrightarrow> gives I D F U Q (ret x)"
  by (simp add: gives_def ret_def)

lemma gives_of_result: "(\<And>x. v = Inr x \<Longrightarrow> Q x) \<Longrightarrow> gives I D F U Q (of_result v)"
  by (auto simp: gives_def of_result_def)

lemma obeys_transaction:
  assumes "obeys (runs I D F U) body"
  shows "obeys (runs I D F U) (transaction body)"
proof (rule obeysI)
  fix s :: server and r w
  assume run: "transaction body s = (r, w)"
  let ?t = "run_others s"
  let ?u = "?t\<lparr>srv_tick := Suc (srv_tick ?t)\<rparr>"
  obtain q v where body: "body ?u = (q, v)" by fastforce
  have t: "runs I D F U s ?t" by (rule runs_others)
  have "runs I D F U ?u v" using assms body by (rule obeysD)
  with runs_tick have v: "runs I D F U ?t v" by (rule runs_trans)
  have undone: "runs I D F U ?t (v\<lparr>srv_tick := n, srv_db := srv_db ?t\<rparr>)"
    "runs I D F U ?t (v\<lparr>srv_db := srv_db ?t\<rparr>)" for n
    using v by (simp_all add: runs_def same_world_def D_refl)
  have kept: "runs I D F U ?t (v\<lparr>srv_tick := n\<rparr>)" for n
    using v by (simp add: runs_def same_world_def)
  have "runs I D F U ?t w"
    using run body undone kept [of "Suc (srv_tick v)"]
    by (auto simp: transaction_def end_transaction_def Let_def runs_tick split: if_splits sum.splits ending.splits)
  with t show "runs I D F U s w" by (rule runs_trans)
qed

end

sublocale server_frame \<subseteq> run_preorder "runs I D F U"
  by unfold_locales (rule runs_refl, erule runs_trans)

context server_frame
begin

lemmas server_rules = obeys_rules obeys_select obeys_fresh_uuid obeys_transaction

lemma obeys_fresh:
  "(\<And>x. x \<notin> U \<Longrightarrow> obeys (runs I D F U) (f x)) \<Longrightarrow> obeys (runs I D F U) (bindE fresh_uuid f)"
  by (rule obeys_bind_gives [OF obeys_fresh_uuid gives_fresh])

end

end
