(* ===== verification/Upload_Commit.thy ===== *)
theory Upload_Commit
  imports Server_State
begin

text \<open>
  \<open>upload_commit.rs\<close>: the crash-safe commit of an upload.  An upload row goes from \<open>receiving\<close> over
  \<open>commit_started\<close> (the keys are fixed) and \<open>finalizing\<close> (the stage is complete) to \<open>committed\<close>;
  what cannot be proved from the disk and the tables makes it \<open>unknown\<close>, a wrong manifest makes it
  \<open>failed\<close>.  Every call starts from the persisted state, under the lock file of the upload.
  \<open>reconcile_orphan_blobs\<close> of \<open>library.rs\<close> is here because \<open>reconcile_all\<close> calls it.
\<close>

section \<open>Records and constants\<close>

definition RECEIVING :: string where "RECEIVING = ''receiving''"
definition COMMIT_STARTED :: string where "COMMIT_STARTED = ''commit_started''"
definition FINALIZING :: string where "FINALIZING = ''finalizing''"
definition COMMITTED :: string where "COMMITTED = ''committed''"
definition UNKNOWN :: string where "UNKNOWN = ''unknown''"
definition FAILED :: string where "FAILED = ''failed''"

lemmas commit_state_defs = RECEIVING_def COMMIT_STARTED_def FINALIZING_def COMMITTED_def UNKNOWN_def FAILED_def

record commit_outcome =
  out_resource_id :: uuid
  out_asset_id :: uuid
  out_deduplicated :: bool

record reconcile_report =
  rep_recovered :: u64
  rep_marked_unknown :: u64
  rep_orphan_stages_removed :: u64
  rep_orphan_blobs_removed :: u64
  rep_errors :: u64

datatype commit_failpoint = CommitStarted | StageFsync | Finalizing | Published | MetadataCommitted

record commit_record =
  cm_upload_id :: uuid
  cm_account_id :: uuid
  cm_asset_id :: uuid
  cm_request :: create_upload_request
  cm_commit_state :: string
  cm_staged_key :: "string option"
  cm_final_key :: "string option"
  cm_commit_account_path :: "string option"
  cm_expected_size :: "i64 option"
  cm_expected_blake3 :: "string option"
  cm_blob_id :: "uuid option"
  cm_resource_id :: "uuid option"
  cm_deduplicated :: bool
  cm_current_account_path :: string

record ready_commit_record =
  rd_upload_id :: uuid
  rd_account_id :: uuid
  rd_asset_id :: uuid
  rd_request :: create_upload_request
  rd_staged_key :: "string option"
  rd_final_key :: string
  rd_account_path :: string
  rd_expected_size :: u64
  rd_expected_blake3 :: string
  rd_proposed_blob_id :: uuid

record blob_candidate =
  bc_id :: uuid
  bc_storage_path :: string
  bc_stored_size :: i64
  bc_content_blake3 :: string

datatype metadata_result =
    Metadata_Committed commit_outcome
  | Validate_Candidate blob_candidate
  | Account_Path_Changed

text \<open>The fail points of the test build; the server passes None.\<close>

definition failpoint_name :: "commit_failpoint \<Rightarrow> string" where
  "failpoint_name p = (case p of CommitStarted \<Rightarrow> ''CommitStarted'' | StageFsync \<Rightarrow> ''StageFsync''
     | Finalizing \<Rightarrow> ''Finalizing'' | Published \<Rightarrow> ''Published'' | MetadataCommitted \<Rightarrow> ''MetadataCommitted'')"

definition stop_at :: "commit_failpoint option \<Rightarrow> commit_failpoint \<Rightarrow> unit srv" where
  "stop_at current expected =
     ensure (current \<noteq> Some expected) (app_error 500 (''test crash after '' @ failpoint_name expected))"

section \<open>Leaving the normal course\<close>

definition failed_row :: "uuid \<Rightarrow> string \<Rightarrow> nat statement" where
  "failed_row upload_id reason now = update_uploads (\<lambda>u. upl_id u = upload_id)
     (\<lambda>u. u\<lparr>upl_commit_state := ''failed'', upl_commit_error := Some reason, upl_error := Some reason,
           upl_updated_at := now\<rparr>)"

definition unknown_row :: "uuid \<Rightarrow> string \<Rightarrow> nat statement" where
  "unknown_row upload_id reason now =
     update_uploads (\<lambda>u. upl_id u = upload_id \<and> upl_commit_state u \<noteq> ''unknown'')
       (\<lambda>u. u\<lparr>upl_commit_state := ''unknown'', upl_commit_error := Some reason, upl_error := Some reason,
             upl_updated_at := now\<rparr>)"

definition mark_failed_message :: "uuid \<Rightarrow> string \<Rightarrow> 'a srv" where
  "mark_failed_message upload_id reason =
     bindE (on_pool (failed_row upload_id reason)) (\<lambda>_.
     fail (conflict (''upload commit failed validation: '' @ reason)))"

definition mark_unknown_message :: "uuid \<Rightarrow> string \<Rightarrow> 'a srv" where
  "mark_unknown_message upload_id reason =
     bindE (on_pool (unknown_row upload_id reason)) (\<lambda>_.
     fail (conflict (''upload commit requires manual reconciliation: '' @ reason)))"

definition mark_failed :: "commit_record \<Rightarrow> string \<Rightarrow> 'a srv" where
  "mark_failed r reason = mark_failed_message (cm_upload_id r) reason"

definition mark_unknown :: "commit_record \<Rightarrow> string \<Rightarrow> 'a srv" where
  "mark_unknown r reason = mark_unknown_message (cm_upload_id r) reason"

section \<open>Reading the tables\<close>

definition load_commit :: "app \<Rightarrow> uuid \<Rightarrow> uuid option \<Rightarrow> commit_record srv" where
  "load_commit E upload_id required =
     bindE (on_pool (select (\<lambda>d. case find_upload d upload_id of
         None \<Rightarrow> None
       | Some u \<Rightarrow> if required = None \<or> required = Some (upl_account_id u)
           then map_option (\<lambda>a. (u, acc_storage_path a)) (find_account d (upl_account_id u)) else None))) (\<lambda>row.
     bindE (of_result (ok_or (not_found ''upload not found'') row)) (\<lambda>(u, current).
     bindE (of_result (from_value (app_request_from_value E) (upl_request u))) (\<lambda>request.
     ret \<lparr>cm_upload_id = upl_id u, cm_account_id = upl_account_id u, cm_asset_id = upl_asset_id u,
          cm_request = request, cm_commit_state = upl_commit_state u,
          cm_staged_key = upl_commit_staged_key u, cm_final_key = upl_commit_final_key u,
          cm_commit_account_path = upl_commit_account_path u,
          cm_expected_size = upl_commit_expected_size u,
          cm_expected_blake3 = upl_commit_expected_blake3 u, cm_blob_id = upl_commit_blob_id u,
          cm_resource_id = upl_commit_resource_id u, cm_deduplicated = upl_commit_deduplicated u,
          cm_current_account_path = current\<rparr>)))"

definition blob_candidate_from_row :: "blob \<Rightarrow> blob_candidate" where
  "blob_candidate_from_row b = \<lparr>bc_id = blob_id b, bc_storage_path = blob_storage_path b,
     bc_stored_size = blob_stored_size b, bc_content_blake3 = blob_content_blake3 b\<rparr>"

definition blob_by_content :: "uuid \<Rightarrow> string \<Rightarrow> tables \<Rightarrow> blob_candidate option" where
  "blob_by_content account content_blake3 d = map_option blob_candidate_from_row
     (find (\<lambda>b. blob_account_id b = account \<and> blob_content_blake3 b = content_blake3) (t_blobs d))"

definition load_blob_candidate :: "uuid \<Rightarrow> string \<Rightarrow> blob_candidate option srv" where
  "load_blob_candidate account content_blake3 = on_pool (select (blob_by_content account content_blake3))"

definition load_blob_candidate_in :: "uuid \<Rightarrow> string \<Rightarrow> blob_candidate option srv" where
  "load_blob_candidate_in account content_blake3 = in_tx (select (blob_by_content account content_blake3))"

definition ready_commit :: "commit_record \<Rightarrow> string + ready_commit_record" where
  "ready_commit r = (case cm_commit_account_path r of
       None \<Rightarrow> Inl ''upload commit has no account path''
     | Some account_path \<Rightarrow>
     if account_path \<noteq> cm_current_account_path r
     then Inl ''account storage path changed during upload commit''
     else case Option.bind (cm_expected_size r) u64_of_i64 of
       None \<Rightarrow> Inl ''upload commit has no valid expected size''
     | Some expected_size \<Rightarrow> (case cm_expected_blake3 r of
       None \<Rightarrow> Inl ''upload commit has no expected hash''
     | Some expected_blake3 \<Rightarrow>
     if expected_size \<noteq> cu_content_size (cm_request r) \<or> expected_blake3 \<noteq> cu_content_blake3 (cm_request r)
     then Inl ''upload commit proof does not match its request''
     else case cm_final_key r of
       None \<Rightarrow> Inl ''upload commit has no final key''
     | Some final_key \<Rightarrow> (case cm_blob_id r of
       None \<Rightarrow> Inl ''upload commit has no blob id''
     | Some proposed \<Rightarrow> Inr
         \<lparr>rd_upload_id = cm_upload_id r, rd_account_id = cm_account_id r, rd_asset_id = cm_asset_id r,
          rd_request = cm_request r, rd_staged_key = cm_staged_key r, rd_final_key = final_key,
          rd_account_path = account_path, rd_expected_size = expected_size,
          rd_expected_blake3 = expected_blake3, rd_proposed_blob_id = proposed\<rparr>)))"

section \<open>Starting a commit\<close>

text \<open>\<open>try_fold\<close> with \<open>checked_add\<close> over the part sizes.\<close>

fun sum_sizes :: "u64 \<Rightarrow> upload_part_spec list \<Rightarrow> u64 option" where
  "sum_sizes tot [] = Some tot"
| "sum_sizes tot (p # ps) = Option.bind (checked_add_u64 tot (part_size p)) (\<lambda>tot. sum_sizes tot ps)"

text \<open>The bytes of the parts of the account's uploads that are \<open>uploading\<close> in one of the commit states.\<close>

definition reserved_sizes :: "uuid \<Rightarrow> string set \<Rightarrow> tables \<Rightarrow> i64 list" where
  "reserved_sizes account states d =
     concat (map (\<lambda>p. map (\<lambda>u. upt_expected_size p)
       (filter (\<lambda>u. upl_id u = upt_upload_id p \<and> upl_account_id u = account \<and> upl_state u = ''uploading''
          \<and> upl_commit_state u \<in> states) (t_uploads d))) (t_upload_parts d))"

definition used_sizes :: "uuid \<Rightarrow> tables \<Rightarrow> i64 list" where
  "used_sizes account d = map blob_stored_size (filter (\<lambda>b. blob_account_id b = account) (t_blobs d))"

definition quota_exceeded :: app_error where
  "quota_exceeded = app_error 507 ''account storage quota exceeded''"

definition saturated_sum :: "i64 option \<Rightarrow> i64" where
  "saturated_sum v = (case v of None \<Rightarrow> i64_max | Some x \<Rightarrow> x)"

definition ensure_commit_quota :: "uuid \<Rightarrow> i64 \<Rightarrow> uuid \<Rightarrow> unit srv" where
  "ensure_commit_quota account quota_bytes upload_id =
     (if quota_bytes = 0 then ret () else
     bindE (in_tx (fetch_one (\<lambda>d. sql_sum (used_sizes account d)))) (\<lambda>used.
     bindE (in_tx (fetch_one (\<lambda>d. sql_sum (reserved_sizes account
         {''receiving'', ''commit_started'', ''finalizing''} d)))) (\<lambda>reserved.
     bindE (in_tx (select (\<lambda>d. length (filter (\<lambda>u. upl_id u = upload_id \<and> upl_account_id u = account)
         (t_uploads d))))) (\<lambda>upload_exists.
     ensure (upload_exists = 1 \<and> saturated_sum (checked_add_i64 used reserved) \<le> quota_bytes)
       quota_exceeded))))"

definition changed_concurrently :: app_error where
  "changed_concurrently = conflict ''upload commit changed concurrently''"

definition size_not_representable :: app_error where
  "size_not_representable = conflict ''upload expected size cannot be represented by SQLite''"

definition account_disabled :: app_error where
  "account_disabled = app_error 403 ''account is disabled''"

text \<open>The next state, the keys and the blob of the commit.\<close>

definition choose_blob ::
  "app \<Rightarrow> commit_record \<Rightarrow> string \<Rightarrow> i64 \<Rightarrow> blob_candidate option \<Rightarrow> (string \<times> commit_key_pair \<times> uuid) srv" where
  "choose_blob E r account_path quota_bytes existing = (case existing of
       Some existing \<Rightarrow>
         ret (FINALIZING, \<lparr>ck_staged = [], ck_final_blob = bc_storage_path existing\<rparr>, bc_id existing)
     | None \<Rightarrow>
         bindE (ensure_commit_quota (cm_account_id r) quota_bytes (cm_upload_id r)) (\<lambda>_.
         bindE fresh_uuid (\<lambda>stage_id.
         bindE (of_result (commit_keys (app_externals E) stage_id account_path (cm_upload_id r)
             (cu_content_blake3 (cm_request r)))) (\<lambda>keys.
         bindE fresh_uuid (\<lambda>new_blob_id. ret (COMMIT_STARTED, keys, new_blob_id))))))"

text \<open>The UPDATE that leaves \<open>receiving\<close>.\<close>

definition start_row ::
  "commit_record \<Rightarrow> string \<Rightarrow> string \<Rightarrow> commit_key_pair \<Rightarrow> i64 \<Rightarrow> uuid \<Rightarrow> nat statement" where
  "start_row r account_path next_state keys sz new_blob_id now =
     update_uploads (\<lambda>u. upl_id u = cm_upload_id r \<and> upl_commit_state u = ''receiving'')
       (\<lambda>u. u\<lparr>upl_commit_state := next_state,
             upl_commit_staged_key := (if ck_staged keys = [] then None else Some (ck_staged keys)),
             upl_commit_final_key := Some (ck_final_blob keys),
             upl_commit_account_path := Some account_path,
             upl_commit_expected_size := Some sz,
             upl_commit_expected_blake3 := Some (cu_content_blake3 (cm_request r)),
             upl_commit_blob_id := Some new_blob_id, upl_commit_resource_id := None,
             upl_commit_error := None, upl_commit_deduplicated := False,
             upl_commit_started_at := Some now, upl_finalized_at := None, upl_updated_at := now\<rparr>)"

definition begin_transaction :: "app \<Rightarrow> commit_record \<Rightarrow> unit ending srv" where
  "begin_transaction E r =
     bindE (in_tx (select (\<lambda>d. find_account d (cm_account_id r)))) (\<lambda>row.
     bindE (of_result (ok_or unauthorized row)) (\<lambda>acct.
     bindE (ensure (acc_enabled acct) account_disabled) (\<lambda>_.
     bindE (load_blob_candidate_in (cm_account_id r) (cu_content_blake3 (cm_request r))) (\<lambda>existing.
     bindE (choose_blob E r (acc_storage_path acct) (acc_quota_bytes acct) existing) (\<lambda>(next_state, keys, new_blob_id).
     bindE (of_result (ok_or size_not_representable (i64_of_u64 (cu_content_size (cm_request r))))) (\<lambda>sz.
     bindE (in_tx (start_row r (acc_storage_path acct) next_state keys sz new_blob_id)) (\<lambda>n.
     bindE (ensure (n = 1) changed_concurrently) (\<lambda>_. ret (Commit ())))))))))"

definition begin_commit :: "app \<Rightarrow> commit_record \<Rightarrow> commit_record srv" where
  "begin_commit E r =
     bindE (of_result (if cu_parts (cm_request r) = [] then Inr True
        else case sum_sizes 0 (cu_parts (cm_request r)) of
          None \<Rightarrow> Inl (conflict ''upload manifest size overflow'')
        | Some tot \<Rightarrow> Inr (cu_content_size (cm_request r) \<noteq> tot))) (\<lambda>invalid.
     if invalid then mark_failed r ''persisted upload manifest is invalid''
     else
     bindE (on_pool (select (\<lambda>d. length (filter (\<lambda>p. upt_upload_id p = cm_upload_id r
         \<and> upt_received_at p = None) (t_upload_parts d))))) (\<lambda>missing.
     bindE (ensure (missing = 0) (conflict ''upload still has missing parts'')) (\<lambda>_.
     bindE (transaction (begin_transaction E r)) (\<lambda>_.
     load_commit E (cm_upload_id r) (Some (cm_account_id r))))))"

definition finalizing_row :: "uuid \<Rightarrow> nat statement" where
  "finalizing_row upload_id now =
     update_uploads (\<lambda>u. upl_id u = upload_id \<and> upl_commit_state u = ''commit_started'')
       (\<lambda>u. u\<lparr>upl_commit_state := ''finalizing'', upl_finalized_at := Some now, upl_updated_at := now\<rparr>)"

definition transition_to_finalizing :: "uuid \<Rightarrow> unit srv" where
  "transition_to_finalizing upload_id =
     bindE (on_pool (finalizing_row upload_id)) (\<lambda>n. ensure (n = 1) changed_concurrently)"

section \<open>The metadata transaction\<close>

definition validate_blob_candidate :: "app \<Rightarrow> ready_commit_record \<Rightarrow> blob_candidate \<Rightarrow> unit srv" where
  "validate_blob_candidate E rd c =
     (if bc_stored_size c < 0 \<or> u64_of_i64 (bc_stored_size c) \<noteq> Some (rd_expected_size rd)
         \<or> bc_content_blake3 c \<noteq> rd_expected_blake3 rd
      then mark_unknown_message (rd_upload_id rd) ''existing blob metadata conflicts with upload manifest''
      else
      bindE (attempt (on_fs (inspect_object (app_externals E) (rd_account_path rd) (bc_storage_path c)
          (rd_expected_size rd) (rd_expected_blake3 rd)))) (\<lambda>found. case found of
        Inl e \<Rightarrow> mark_unknown_message (rd_upload_id rd)
            (''cannot safely validate existing blob: '' @ error_message e)
      | Inr Matches \<Rightarrow> ret ()
      | Inr _ \<Rightarrow> mark_unknown_message (rd_upload_id rd) ''existing blob file is missing or corrupt''))"

text \<open>\<open>INSERT INTO blobs ... ON CONFLICT DO NOTHING\<close>.\<close>

definition insert_blob :: "blob \<Rightarrow> unit statement" where
  "insert_blob b now d =
     (if list_ex (\<lambda>c. blob_id c = blob_id b
           \<or> blob_account_id c = blob_account_id b \<and> blob_content_blake3 c = blob_content_blake3 b) (t_blobs d)
      then Some ((), d)
      else if find_account d (blob_account_id b) = None then None
      else Some ((), d\<lparr>t_blobs := t_blobs d @ [b\<lparr>blob_created_at := now\<rparr>]\<rparr>))"

text \<open>\<open>INSERT INTO resources ... ON CONFLICT(asset_id, source_resource_id) DO UPDATE ... RETURNING id\<close>.\<close>

definition upsert_resource_row :: "uuid \<Rightarrow> uuid \<Rightarrow> uuid \<Rightarrow> create_upload_request \<Rightarrow> uuid statement" where
  "upsert_resource_row new_id asset_id bid request now d =
     (if find_asset d asset_id = None \<or> find_blob d bid = None then None
      else case find (\<lambda>r. res_asset_id r = asset_id \<and> res_source_resource_id r = cu_source_resource_id request)
          (t_resources d) of
        Some r \<Rightarrow> Some (res_id r, d\<lparr>t_resources := map (\<lambda>q.
            if res_asset_id q = asset_id \<and> res_source_resource_id q = cu_source_resource_id request
            then q\<lparr>res_blob_id := bid, res_role := cu_role request, res_filename := cu_filename request,
                   res_mime_type := cu_mime_type request, res_metadata := cu_metadata request\<rparr>
            else q) (t_resources d)\<rparr>)
      | None \<Rightarrow>
          if list_ex (\<lambda>q. res_id q = new_id) (t_resources d) then None
          else Some (new_id, d\<lparr>t_resources := t_resources d @
            [\<lparr>res_id = new_id, res_asset_id = asset_id, res_blob_id = bid,
              res_source_resource_id = cu_source_resource_id request, res_role = cu_role request,
              res_filename = cu_filename request, res_mime_type = cu_mime_type request,
              res_metadata = cu_metadata request, res_created_at = now\<rparr>]\<rparr>))"

definition upsert_resource :: "uuid \<Rightarrow> uuid \<Rightarrow> create_upload_request \<Rightarrow> uuid srv" where
  "upsert_resource asset_id bid request =
     bindE fresh_uuid (\<lambda>new_id. in_tx (upsert_resource_row new_id asset_id bid request))"

definition approved :: "ready_commit_record \<Rightarrow> blob_candidate option \<Rightarrow> blob_candidate \<Rightarrow> bool" where
  "approved rd candidate actual \<longleftrightarrow>
     bc_id actual = rd_proposed_blob_id rd \<and> bc_storage_path actual = rd_final_key rd
     \<or> (case candidate of None \<Rightarrow> False
        | Some c \<Rightarrow> bc_id c = bc_id actual \<and> bc_storage_path c = bc_storage_path actual)"

text \<open>The UPDATE that makes the upload \<open>committed\<close>.\<close>

definition commit_row :: "ready_commit_record \<Rightarrow> blob_candidate \<Rightarrow> uuid \<Rightarrow> bool \<Rightarrow> nat statement" where
  "commit_row rd actual resource_id deduplicated now =
     update_uploads (\<lambda>u. upl_id u = rd_upload_id rd \<and> upl_commit_state u = ''finalizing'')
       (\<lambda>u. u\<lparr>upl_state := ''complete'', upl_commit_state := ''committed'',
             upl_commit_blob_id := Some (bc_id actual), upl_commit_resource_id := Some resource_id,
             upl_commit_final_key := Some (bc_storage_path actual),
             upl_commit_deduplicated := deduplicated, upl_commit_error := None,
             upl_completed_at := Some now, upl_updated_at := now\<rparr>)"

text \<open>The rest of the transaction, once the blob row is the approved one.\<close>

definition finish_metadata :: "ready_commit_record \<Rightarrow> blob_candidate \<Rightarrow> metadata_result ending srv" where
  "finish_metadata rd actual =
     bindE (upsert_resource (rd_asset_id rd) (bc_id actual) (rd_request rd)) (\<lambda>resource_id.
     bindE (record_change (rd_account_id rd) ''asset'' (rd_asset_id rd) ''upsert'') (\<lambda>_.
     bindE (in_tx (insert_audit_event (rd_account_id rd) ''system'' None ''upload.commit''
         (Some ''resource'') (Some resource_id))) (\<lambda>_.
     (let deduplicated = (rd_staged_key rd = None \<or> bc_id actual \<noteq> rd_proposed_blob_id rd) in
     bindE (in_tx (commit_row rd actual resource_id deduplicated)) (\<lambda>n.
     bindE (ensure (n = 1) changed_concurrently) (\<lambda>_.
     ret (Commit (Metadata_Committed \<lparr>out_resource_id = resource_id, out_asset_id = rd_asset_id rd,
       out_deduplicated = deduplicated\<rparr>))))))))"

definition metadata_body ::
  "app \<Rightarrow> ready_commit_record \<Rightarrow> blob_candidate option \<Rightarrow> metadata_result ending srv" where
  "metadata_body E rd candidate =
     bindE (in_tx (select (\<lambda>d. map_option acc_storage_path (find_account d (rd_account_id rd))))) (\<lambda>current.
     if current \<noteq> Some (rd_account_path rd) then ret (Rollback Account_Path_Changed)
     else
     bindE (of_result (ok_or size_not_representable (i64_of_u64 (cu_content_size (rd_request rd))))) (\<lambda>plaintext.
     bindE (of_result (ok_or size_not_representable (i64_of_u64 (rd_expected_size rd)))) (\<lambda>stored.
     bindE (in_tx (insert_blob
         \<lparr>blob_id = rd_proposed_blob_id rd, blob_account_id = rd_account_id rd,
          blob_plaintext_size = plaintext, blob_stored_size = stored,
          blob_storage_path = rd_final_key rd,
          blob_part_manifest = app_parts_to_value E (cu_parts (rd_request rd)),
          blob_content_blake3 = rd_expected_blake3 rd, blob_storage_encoding = ''plain-v1'',
          blob_created_at = 0\<rparr>)) (\<lambda>_.
     bindE (load_blob_candidate_in (rd_account_id rd) (rd_expected_blake3 rd)) (\<lambda>row.
     bindE (of_result (ok_or (conflict ''blob metadata insert did not persist'') row)) (\<lambda>actual.
     if \<not> approved rd candidate actual then ret (Rollback (Validate_Candidate actual))
     else finish_metadata rd actual))))))"

definition commit_metadata ::
  "app \<Rightarrow> ready_commit_record \<Rightarrow> blob_candidate option \<Rightarrow> metadata_result srv" where
  "commit_metadata E rd candidate = transaction (metadata_body E rd candidate)"

text \<open>\<open>commit_metadata_with_race_retry\<close>: the number is the attempts left.\<close>

fun race_retry ::
  "app \<Rightarrow> ready_commit_record \<Rightarrow> nat \<Rightarrow> blob_candidate option \<Rightarrow> commit_outcome srv" where
  "race_retry E rd 0 candidate = fail (conflict ''blob metadata changed repeatedly during commit'')"
| "race_retry E rd (Suc n) candidate =
     bindE (load_blob_candidate (rd_account_id rd) (rd_expected_blake3 rd)) (\<lambda>row.
     bindE (case row of
         None \<Rightarrow> ret candidate
       | Some c \<Rightarrow> bindE (validate_blob_candidate E rd c) (\<lambda>_. ret (Some c))) (\<lambda>candidate.
     bindE (commit_metadata E rd candidate) (\<lambda>r. case r of
         Metadata_Committed out \<Rightarrow> ret out
       | Validate_Candidate c \<Rightarrow>
           bindE (validate_blob_candidate E rd c) (\<lambda>_. race_retry E rd n (Some c))
       | Account_Path_Changed \<Rightarrow> mark_unknown_message (rd_upload_id rd)
           ''account storage path changed during upload commit'')))"

definition commit_metadata_with_race_retry :: "app \<Rightarrow> ready_commit_record \<Rightarrow> commit_outcome srv" where
  "commit_metadata_with_race_retry E rd = race_retry E rd 3 None"

section \<open>A committed upload\<close>

text \<open>The JOIN of \<open>validate_committed\<close>.\<close>

definition committed_blob :: "uuid \<Rightarrow> uuid \<Rightarrow> uuid \<Rightarrow> uuid \<Rightarrow> tables \<Rightarrow> blob option" where
  "committed_blob resource_id asset_id bid account d = (case find_resource d resource_id of
       None \<Rightarrow> None
     | Some r \<Rightarrow> if res_asset_id r = asset_id \<and> res_blob_id r = bid
         then (case find_blob d bid of
             None \<Rightarrow> None
           | Some b \<Rightarrow> if blob_account_id b = account then Some b else None)
         else None)"

definition validate_committed :: "app \<Rightarrow> commit_record \<Rightarrow> commit_outcome srv" where
  "validate_committed E r = (case ready_commit r of
       Inl message \<Rightarrow> mark_unknown r message
     | Inr rd \<Rightarrow> (case cm_resource_id r of
       None \<Rightarrow> mark_unknown r ''committed upload has no resource id''
     | Some resource_id \<Rightarrow>
     bindE (on_pool (select (committed_blob resource_id (rd_asset_id rd) (rd_proposed_blob_id rd)
         (rd_account_id rd)))) (\<lambda>row. case row of
       None \<Rightarrow> mark_unknown r ''committed blob/resource metadata is missing''
     | Some b \<Rightarrow>
     if blob_storage_path b \<noteq> rd_final_key rd
        \<or> u64_of_i64 (blob_stored_size b) \<noteq> Some (rd_expected_size rd)
        \<or> blob_content_blake3 b \<noteq> rd_expected_blake3 rd
     then mark_unknown r ''committed blob/resource metadata conflicts''
     else
     bindE (attempt (on_fs (inspect_object (app_externals E) (rd_account_path rd) (rd_final_key rd)
         (rd_expected_size rd) (rd_expected_blake3 rd)))) (\<lambda>found. case found of
       Inl e \<Rightarrow> mark_unknown r (''cannot safely validate committed blob: '' @ error_message e)
     | Inr Matches \<Rightarrow>
         bindE (case rd_staged_key rd of
             None \<Rightarrow> ret True
           | Some staged_key \<Rightarrow> on_fs (remove_commit_stage (app_externals E) (rd_account_path rd)
               (rd_upload_id rd) staged_key)) (\<lambda>_.
         ret \<lparr>out_resource_id = resource_id, out_asset_id = rd_asset_id rd,
              out_deduplicated = cm_deduplicated r\<rparr>)
     | Inr _ \<Rightarrow> mark_unknown r ''committed blob is missing or corrupt''))))"

section \<open>Driving a commit\<close>

definition inspect_final :: "app \<Rightarrow> ready_commit_record \<Rightarrow> object_state srv" where
  "inspect_final E rd = on_fs (inspect_object (app_externals E) (rd_account_path rd) (rd_final_key rd)
     (rd_expected_size rd) (rd_expected_blake3 rd))"

text \<open>The work of a \<open>commit_started\<close> upload: a complete stage, unless the blob is already there.\<close>

definition stage_content ::
  "app \<Rightarrow> commit_record \<Rightarrow> ready_commit_record \<Rightarrow> commit_failpoint option \<Rightarrow> unit srv" where
  "stage_content E r rd failpoint =
     bindE (attempt (inspect_final E rd)) (\<lambda>found. case found of
       Inl e \<Rightarrow> mark_unknown r (''cannot safely inspect final blob: '' @ error_message e)
     | Inr Matches \<Rightarrow> ret ()
     | Inr Mismatch \<Rightarrow> mark_unknown r ''final blob hash or size conflicts''
     | Inr Missing \<Rightarrow> (case rd_staged_key rd of
         None \<Rightarrow> mark_unknown r ''deduplicated blob is missing''
       | Some staged_key \<Rightarrow>
           bindE (attempt (on_fs (assemble_commit (app_externals E) (rd_account_path rd) (rd_upload_id rd)
               (cu_parts (rd_request rd)) staged_key (rd_expected_size rd) (rd_expected_blake3 rd)))) (\<lambda>done.
           case done of
             Inl e \<Rightarrow> if err_status e = 409 then mark_failed_message (rd_upload_id rd) (error_message e)
                 else fail e
           | Inr _ \<Rightarrow> stop_at failpoint StageFsync)))"

text \<open>The work of a \<open>finalizing\<close> upload: the final blob, published from the stage where it is missing.\<close>

definition publish_content ::
  "app \<Rightarrow> commit_record \<Rightarrow> ready_commit_record \<Rightarrow> commit_failpoint option \<Rightarrow> unit srv" where
  "publish_content E r rd failpoint =
     bindE (attempt (inspect_final E rd)) (\<lambda>found. case found of
       Inl e \<Rightarrow> mark_unknown r (''cannot safely inspect final blob: '' @ error_message e)
     | Inr Matches \<Rightarrow> ret ()
     | Inr Mismatch \<Rightarrow> mark_unknown r ''final blob hash or size conflicts''
     | Inr Missing \<Rightarrow> (case rd_staged_key rd of
         None \<Rightarrow> mark_unknown r ''deduplicated blob is missing''
       | Some staged_key \<Rightarrow>
           bindE (attempt (on_fs (inspect_commit_stage (app_externals E) (rd_account_path rd)
               (rd_upload_id rd) staged_key (rd_expected_size rd) (rd_expected_blake3 rd)))) (\<lambda>staged.
           case staged of
             Inl e \<Rightarrow> mark_unknown r (''cannot safely inspect staged blob: '' @ error_message e)
           | Inr Missing \<Rightarrow> mark_unknown r ''finalizing upload has neither staged nor final blob''
           | Inr Mismatch \<Rightarrow> mark_unknown r ''staged blob is corrupt''
           | Inr Matches \<Rightarrow>
               bindE (attempt (on_fs (publish_commit (app_externals E) (rd_account_path rd)
                   (rd_upload_id rd) staged_key (rd_final_key rd) (rd_expected_size rd)
                   (rd_expected_blake3 rd)))) (\<lambda>done. case done of
                 Inl e \<Rightarrow> mark_unknown r (''cannot prove final blob publication: '' @ error_message e)
               | Inr _ \<Rightarrow> stop_at failpoint Published))))"

text \<open>The metadata, and the removal of the stage, which may fail without consequence.\<close>

definition finish_commit ::
  "app \<Rightarrow> ready_commit_record \<Rightarrow> commit_failpoint option \<Rightarrow> commit_outcome srv" where
  "finish_commit E rd failpoint =
     bindE (commit_metadata_with_race_retry E rd) (\<lambda>out.
     bindE (stop_at failpoint MetadataCommitted) (\<lambda>_.
     bindE (case rd_staged_key rd of
         None \<Rightarrow> ret (Inr True)
       | Some staged_key \<Rightarrow> attempt (on_fs (remove_commit_stage (app_externals E) (rd_account_path rd)
           (rd_upload_id rd) staged_key))) (\<lambda>_.
     ret out)))"

definition drive_commit ::
  "app \<Rightarrow> commit_record \<Rightarrow> commit_failpoint option \<Rightarrow> commit_outcome srv" where
  "drive_commit E r failpoint = (case ready_commit r of
       Inl message \<Rightarrow> mark_unknown r message
     | Inr rd \<Rightarrow>
       bindE (if cm_commit_state r = COMMIT_STARTED
         then bindE (stage_content E r rd failpoint) (\<lambda>_.
              bindE (transition_to_finalizing (cm_upload_id r)) (\<lambda>_.
              bindE (stop_at failpoint Finalizing) (\<lambda>_. ret (r\<lparr>cm_commit_state := FINALIZING\<rparr>))))
         else ret r) (\<lambda>r.
       bindE (if cm_commit_state r = FINALIZING then publish_content E r rd failpoint else ret ()) (\<lambda>_.
       finish_commit E rd failpoint)))"

definition complete_inner ::
  "app \<Rightarrow> uuid \<Rightarrow> uuid option \<Rightarrow> commit_failpoint option \<Rightarrow> commit_outcome srv" where
  "complete_inner E upload_id required_account_id failpoint =
     bindE (on_fs (lock_upload_commit (app_externals E) upload_id)) (\<lambda>_.
     bindE (load_commit E upload_id required_account_id) (\<lambda>r.
     if cm_commit_state r = COMMITTED then validate_committed E r
     else if cm_commit_state r = UNKNOWN then fail (conflict ''upload commit state is unknown'')
     else if cm_commit_state r = FAILED then fail (conflict ''upload commit has failed'')
     else if cm_commit_state r = RECEIVING then
       bindE (begin_commit E r) (\<lambda>r.
       bindE (stop_at failpoint CommitStarted) (\<lambda>_. drive_commit E r failpoint))
     else if cm_commit_state r = COMMIT_STARTED \<or> cm_commit_state r = FINALIZING then
       drive_commit E r failpoint
     else mark_unknown r ''invalid persisted commit state''))"

definition complete :: "app \<Rightarrow> uuid \<Rightarrow> uuid \<Rightarrow> commit_outcome srv" where
  "complete E upload_id account_id = complete_inner E upload_id (Some account_id) None"

definition complete_with_failpoint :: "app \<Rightarrow> uuid \<Rightarrow> uuid \<Rightarrow> commit_failpoint \<Rightarrow> commit_outcome srv" where
  "complete_with_failpoint E upload_id account_id failpoint =
     complete_inner E upload_id (Some account_id) (Some failpoint)"

section \<open>Reconciliation\<close>

record orphan_blob_reconcile_report =
  orb_removed :: u64
  orb_errors :: u64

definition is_orphan_blob :: "tables \<Rightarrow> blob \<Rightarrow> bool" where
  "is_orphan_blob d b \<longleftrightarrow> \<not> list_ex (\<lambda>r. res_blob_id r = blob_id b) (t_resources d)
     \<and> \<not> list_ex (\<lambda>u. upl_commit_blob_id u = Some (blob_id b)) (t_uploads d)"

definition orphan_blob_ids :: "uuid option \<Rightarrow> tables \<Rightarrow> uuid list" where
  "orphan_blob_ids account_filter d = map blob_id (sort_key (\<lambda>b. (blob_created_at b, blob_id b))
     (filter (\<lambda>b. (account_filter = None \<or> account_filter = Some (blob_account_id b))
        \<and> is_orphan_blob d b) (t_blobs d)))"

text \<open>\<open>DELETE FROM blobs ... RETURNING account_id, storage_path\<close>.\<close>

definition delete_orphan_blob :: "uuid \<Rightarrow> (uuid \<times> string) option statement" where
  "delete_orphan_blob bid now d = (let gone = (\<lambda>b. blob_id b = bid \<and> is_orphan_blob d b) in
     Some (map_option (\<lambda>b. (blob_account_id b, blob_storage_path b)) (find gone (t_blobs d)),
           d\<lparr>t_blobs := filter (\<lambda>b. \<not> gone b) (t_blobs d)\<rparr>))"

text \<open>One blob: None when it is no longer an orphan, otherwise whether its object could be removed.\<close>

definition reclaim_blob :: "uuid \<Rightarrow> bool option srv" where
  "reclaim_blob bid = transaction
     (bindE (in_tx (delete_orphan_blob bid)) (\<lambda>orphan. case orphan of
        None \<Rightarrow> ret (Rollback None)
      | Some (account_id, object_path) \<Rightarrow>
          bindE (in_tx (fetch_one (\<lambda>d. map_option acc_storage_path (find_account d account_id)))) (\<lambda>account_path.
          bindE (attempt (on_fs (remove_blob account_path object_path))) (\<lambda>r. case r of
            Inr _ \<Rightarrow> ret (Commit (Some True))
          | Inl e \<Rightarrow> ret (Rollback (Some False))))))"

fun reclaim_blobs :: "uuid list \<Rightarrow> orphan_blob_reconcile_report \<Rightarrow> orphan_blob_reconcile_report srv" where
  "reclaim_blobs [] rep = ret rep"
| "reclaim_blobs (bid # bids) rep =
     bindE (reclaim_blob bid) (\<lambda>r. reclaim_blobs bids (case r of
         None \<Rightarrow> rep
       | Some True \<Rightarrow> rep\<lparr>orb_removed := saturating_add_u64 (orb_removed rep) 1\<rparr>
       | Some False \<Rightarrow> rep\<lparr>orb_errors := saturating_add_u64 (orb_errors rep) 1\<rparr>))"

definition reconcile_orphan_blobs :: "uuid option \<Rightarrow> orphan_blob_reconcile_report srv" where
  "reconcile_orphan_blobs account_filter =
     bindE (on_pool (select (orphan_blob_ids account_filter))) (\<lambda>bids.
     reclaim_blobs bids \<lparr>orb_removed = 0, orb_errors = 0\<rparr>)"

definition pending_commits :: "tables \<Rightarrow> uuid list" where
  "pending_commits d = map upl_id (sort_key (\<lambda>u. (upl_updated_at u, upl_id u))
     (filter (\<lambda>u. upl_commit_state u \<in> {''commit_started'', ''finalizing'', ''committed''}) (t_uploads d)))"

definition commit_state_of :: "uuid \<Rightarrow> tables \<Rightarrow> string option" where
  "commit_state_of upload_id d = map_option upl_commit_state (find_upload d upload_id)"

fun reconcile_uploads :: "app \<Rightarrow> uuid list \<Rightarrow> reconcile_report \<Rightarrow> reconcile_report srv" where
  "reconcile_uploads E [] rep = ret rep"
| "reconcile_uploads E (upload_id # ids) rep =
     bindE (on_pool (fetch_one (commit_state_of upload_id))) (\<lambda>before.
     bindE (attempt (complete_inner E upload_id None None)) (\<lambda>r. case r of
       Inr _ \<Rightarrow> reconcile_uploads E ids (if before \<noteq> COMMITTED
           then rep\<lparr>rep_recovered := saturating_add_u64 (rep_recovered rep) 1\<rparr> else rep)
     | Inl e \<Rightarrow>
         bindE (on_pool (select (commit_state_of upload_id))) (\<lambda>after.
         reconcile_uploads E ids (if after = Some UNKNOWN
           then rep\<lparr>rep_marked_unknown := saturating_add_u64 (rep_marked_unknown rep) 1\<rparr>
           else rep\<lparr>rep_errors := saturating_add_u64 (rep_errors rep) 1\<rparr>))))"

fun sweep_accounts :: "app \<Rightarrow> string set \<Rightarrow> (uuid \<times> string) list \<Rightarrow> reconcile_report \<Rightarrow> reconcile_report srv" where
  "sweep_accounts E referenced [] rep = ret rep"
| "sweep_accounts E referenced ((account_id, account_path) # accts) rep =
     bindE (attempt (on_fs (cleanup_orphan_staging (app_externals E) account_path referenced))) (\<lambda>r.
     sweep_accounts E referenced accts (case r of
         Inr n \<Rightarrow> rep\<lparr>rep_orphan_stages_removed := saturating_add_u64 (rep_orphan_stages_removed rep) n\<rparr>
       | Inl e \<Rightarrow> rep\<lparr>rep_errors := saturating_add_u64 (rep_errors rep) 1\<rparr>))"

definition staged_keys :: "tables \<Rightarrow> string set" where
  "staged_keys d = set (List.map_filter upl_commit_staged_key (t_uploads d))"

definition reconcile_all :: "app \<Rightarrow> reconcile_report srv" where
  "reconcile_all E =
     bindE (on_pool (select pending_commits)) (\<lambda>ids.
     bindE (reconcile_uploads E ids \<lparr>rep_recovered = 0, rep_marked_unknown = 0,
       rep_orphan_stages_removed = 0, rep_orphan_blobs_removed = 0, rep_errors = 0\<rparr>) (\<lambda>rep.
     bindE (reconcile_orphan_blobs None) (\<lambda>blobs.
     (let rep = rep\<lparr>rep_orphan_blobs_removed :=
             saturating_add_u64 (rep_orphan_blobs_removed rep) (orb_removed blobs),
           rep_errors := saturating_add_u64 (rep_errors rep) (orb_errors blobs)\<rparr> in
     bindE (on_pool (select (\<lambda>d. map (\<lambda>a. (acc_id a, acc_storage_path a)) (sort_key acc_id (t_accounts d))))) (\<lambda>accts.
     bindE (on_pool (select staged_keys)) (\<lambda>referenced.
     sweep_accounts E referenced accts rep))))))"

end
