(* ===== verification/Upload_Routes.thy ===== *)
theory Upload_Routes
  imports Upload_Commit
begin

text \<open>
  The upload and resource handlers of \<open>routes.rs\<close>.  A handler takes the authenticated caller where
  the source extracts it from the request, and returns the DTO or the status it answers with.
\<close>

section \<open>Checking an upload request\<close>

definition is_blake3 :: "string \<Rightarrow> bool" where
  "is_blake3 v \<longleftrightarrow> length v = 64 \<and> list_all is_ascii_hexdigit v"

definition bad_part :: "nat \<Rightarrow> u64 \<Rightarrow> nat \<Rightarrow> upload_part_spec \<Rightarrow> bool" where
  "bad_part max_part_bytes content_size position p \<longleftrightarrow>
     unat (part_index p) \<noteq> position \<or> (part_size p = 0 \<and> content_size \<noteq> 0) \<or>
     max_part_bytes < unat (part_size p) \<or> \<not> is_blake3 (part_blake3 p)"

fun check_parts :: "nat \<Rightarrow> u64 \<Rightarrow> nat \<Rightarrow> upload_part_spec list \<Rightarrow> app_error + unit" where
  "check_parts max_part_bytes content_size position [] = Inr ()"
| "check_parts max_part_bytes content_size position (p # ps) =
     (if bad_part max_part_bytes content_size position p then Inl (bad_request ''invalid part manifest'')
      else check_parts max_part_bytes content_size (Suc position) ps)"

definition manifest_incomplete :: "app \<Rightarrow> create_upload_request \<Rightarrow> bool" where
  "manifest_incomplete E r \<longleftrightarrow>
     cu_source_asset_id r = [] \<or> cu_source_resource_id r = [] \<or> cu_filename r = [] \<or> cu_mime_type r = [] \<or>
     \<not> is_blake3 (cu_content_blake3 r) \<or> cu_parts r = [] \<or>
     1024 < length (cu_filename r) \<or> 255 < length (cu_mime_type r) \<or>
     (case cu_metadata r of None \<Rightarrow> False
      | Some v \<Rightarrow> (case app_value_len E v of None \<Rightarrow> False | Some n \<Rightarrow> 64 * 1024 < n))"

definition validate_upload_request :: "app \<Rightarrow> create_upload_request \<Rightarrow> app_error + unit" where
  "validate_upload_request E r =
     (if manifest_incomplete E r then Inl (bad_request ''upload manifest is incomplete'')
      else case check_parts (app_max_part_bytes E) (cu_content_size r) 0 (cu_parts r) of
        Inl e \<Rightarrow> Inl e
      | Inr _ \<Rightarrow> (case sum_sizes 0 (cu_parts r) of
          None \<Rightarrow> Inl (bad_request ''upload size overflow'')
        | Some tot \<Rightarrow> if tot \<noteq> cu_content_size r
            then Inl (bad_request ''part sizes do not match content_size'') else Inr ()))"

definition request_storage_size :: "create_upload_request \<Rightarrow> app_error + i64" where
  "request_storage_size r = (case sum_sizes 0 (cu_parts r) of
       None \<Rightarrow> Inl (bad_request ''upload size overflow'')
     | Some tot \<Rightarrow> ok_or (bad_request ''upload is too large'') (i64_of_u64 tot))"

section \<open>The account\<close>

record account_policy_row =
  pol_storage_path :: string
  pol_quota_bytes :: i64

definition account_policy_for_update :: "uuid \<Rightarrow> account_policy_row srv" where
  "account_policy_for_update account =
     bindE (in_tx (select (\<lambda>d. find_account d account))) (\<lambda>row.
     bindE (of_result (ok_or unauthorized row)) (\<lambda>a.
     bindE (ensure (acc_enabled a) account_disabled) (\<lambda>_.
     ret \<lparr>pol_storage_path = acc_storage_path a, pol_quota_bytes = acc_quota_bytes a\<rparr>)))"

definition ensure_quota :: "uuid \<Rightarrow> i64 \<Rightarrow> i64 \<Rightarrow> unit srv" where
  "ensure_quota account quota_bytes requested =
     (if quota_bytes = 0 then ret () else
     bindE (in_tx (fetch_one (\<lambda>d. sql_sum (used_sizes account d)))) (\<lambda>used.
     bindE (in_tx (fetch_one (\<lambda>d. sql_sum (reserved_sizes account
         {''receiving'', ''commit_started'', ''finalizing'', ''unknown''} d)))) (\<lambda>reserved.
     ensure (saturated_sum (Option.bind (checked_add_i64 used reserved) (\<lambda>v. checked_add_i64 v requested))
         \<le> quota_bytes) quota_exceeded)))"

section \<open>Starting an upload\<close>

text \<open>The asset row of an upload: \<open>INSERT ... ON CONFLICT DO UPDATE ... RETURNING id\<close>.\<close>

definition same_source :: "uuid \<Rightarrow> uuid \<Rightarrow> string \<Rightarrow> asset \<Rightarrow> bool" where
  "same_source account dev source a \<longleftrightarrow>
     ast_account_id a = account \<and> ast_device_id a = dev \<and> ast_source_asset_id a = source"

definition find_device :: "tables \<Rightarrow> uuid \<Rightarrow> device option" where
  "find_device d i = find (\<lambda>v. dev_id v = i) (t_devices d)"

definition upsert_asset_row ::
  "app \<Rightarrow> uuid \<Rightarrow> auth_context \<Rightarrow> create_upload_request \<Rightarrow> uuid statement" where
  "upsert_asset_row E new_id auth r now d =
     (let account = ac_account_id auth; dev = ac_device_id auth; source = cu_source_asset_id r in
      case find (same_source account dev source) (t_assets d) of
        Some a \<Rightarrow> Some (ast_id a, d\<lparr>t_assets := map (\<lambda>b. if same_source account dev source b
            then b\<lparr>ast_media_kind := media_kind_str (cu_media_kind r),
                   ast_source_created_at_ms := cu_source_created_at_ms r,
                   ast_updated_at := now, ast_deleted_at := None\<rparr>
            else b) (t_assets d)\<rparr>)
      | None \<Rightarrow>
          if find_account d account = None \<or> find_device d dev = None
             \<or> list_ex (\<lambda>b. ast_id b = new_id) (t_assets d) then None
          else Some (new_id, d\<lparr>t_assets := t_assets d @
            [\<lparr>ast_id = new_id, ast_account_id = account, ast_device_id = dev, ast_source_asset_id = source,
              ast_media_kind = media_kind_str (cu_media_kind r),
              ast_source_created_at_ms = cu_source_created_at_ms r,
              ast_favorite = (case Option.bind (cu_metadata r) (app_value_favorite E) of
                None \<Rightarrow> False | Some b \<Rightarrow> b),
              ast_archived = False, ast_deleted_at = None, ast_created_at = now, ast_updated_at = now\<rparr>]\<rparr>))"

text \<open>An upload of the same content that is still under way: the most recent one.\<close>

definition open_upload :: "auth_context \<Rightarrow> create_upload_request \<Rightarrow> tables \<Rightarrow> uuid option" where
  "open_upload auth r d = (case sort_key (\<lambda>u. - int (upl_created_at u)) (filter (\<lambda>u.
       upl_account_id u = ac_account_id auth \<and> upl_device_id u = ac_device_id auth \<and>
       upl_source_resource_id u = cu_source_resource_id r \<and> upl_content_blake3 u = cu_content_blake3 r \<and>
       upl_state u = ''uploading'' \<and> upl_commit_state u \<in> {''receiving'', ''commit_started'', ''finalizing''})
       (t_uploads d)) of [] \<Rightarrow> None | u # _ \<Rightarrow> Some (upl_id u))"

definition new_upload_row ::
  "uuid \<Rightarrow> auth_context \<Rightarrow> uuid \<Rightarrow> create_upload_request \<Rightarrow> json \<Rightarrow> nat \<Rightarrow> upload" where
  "new_upload_row new_id auth asset_id r request_json now =
     \<lparr>upl_id = new_id, upl_account_id = ac_account_id auth, upl_device_id = ac_device_id auth,
      upl_asset_id = asset_id, upl_source_resource_id = cu_source_resource_id r,
      upl_content_blake3 = cu_content_blake3 r, upl_request = request_json, upl_state = ''uploading'',
      upl_error = None, upl_created_at = now, upl_updated_at = now, upl_completed_at = None,
      upl_commit_state = ''receiving'', upl_commit_staged_key = None, upl_commit_final_key = None,
      upl_commit_account_path = None, upl_commit_expected_size = None, upl_commit_expected_blake3 = None,
      upl_commit_blob_id = None, upl_commit_resource_id = None, upl_commit_deduplicated = False,
      upl_commit_error = None, upl_commit_started_at = None, upl_finalized_at = None\<rparr>"

definition insert_upload ::
  "uuid \<Rightarrow> auth_context \<Rightarrow> uuid \<Rightarrow> create_upload_request \<Rightarrow> json \<Rightarrow> uuid statement" where
  "insert_upload new_id auth asset_id r request_json now d =
     (if find_account d (ac_account_id auth) = None \<or> find_device d (ac_device_id auth) = None
         \<or> find_asset d asset_id = None \<or> find_upload d new_id \<noteq> None then None
      else Some (new_id, d\<lparr>t_uploads := t_uploads d @
        [new_upload_row new_id auth asset_id r request_json now]\<rparr>))"

text \<open>\<open>index as i32\<close> and \<open>size as i64\<close> reinterpret the bits.\<close>

definition new_part_row :: "uuid \<Rightarrow> upload_part_spec \<Rightarrow> upload_part" where
  "new_part_row upload_id p = \<lparr>upt_upload_id = upload_id, upt_part_index = sint (part_index p),
     upt_expected_size = sint (part_size p), upt_expected_blake3 = part_blake3 p,
     upt_received_size = None, upt_received_at = None\<rparr>"

definition insert_part :: "uuid \<Rightarrow> upload_part_spec \<Rightarrow> unit statement" where
  "insert_part upload_id p now d =
     (if find_upload d upload_id = None
         \<or> list_ex (\<lambda>q. upt_upload_id q = upload_id \<and> upt_part_index q = sint (part_index p)) (t_upload_parts d)
      then None
      else Some ((), d\<lparr>t_upload_parts := t_upload_parts d @ [new_part_row upload_id p]\<rparr>))"

fun insert_parts :: "uuid \<Rightarrow> upload_part_spec list \<Rightarrow> unit srv" where
  "insert_parts upload_id [] = ret ()"
| "insert_parts upload_id (p # ps) =
     bindE (in_tx (insert_part upload_id p)) (\<lambda>_. insert_parts upload_id ps)"

definition missing_parts :: "uuid \<Rightarrow> u32 list srv" where
  "missing_parts upload_id = on_pool (select (\<lambda>d. map word_of_int (sort (map upt_part_index
     (filter (\<lambda>p. upt_upload_id p = upload_id \<and> upt_received_at p = None) (t_upload_parts d))))))"

text \<open>How the transaction that looks for the content ends: each branch commits it.\<close>

datatype upload_plan = Known_Blob uuid blob_candidate | Open_Upload uuid | New_Upload uuid

definition plan_upload ::
  "app \<Rightarrow> auth_context \<Rightarrow> create_upload_request \<Rightarrow> (account_policy_row \<times> upload_plan) ending srv" where
  "plan_upload E auth r =
     bindE (account_policy_for_update (ac_account_id auth)) (\<lambda>policy.
     bindE fresh_uuid (\<lambda>new_asset.
     bindE (in_tx (upsert_asset_row E new_asset auth r)) (\<lambda>asset_id.
     bindE (in_tx (select (blob_by_content (ac_account_id auth) (cu_content_blake3 r)))) (\<lambda>existing.
     case existing of Some b \<Rightarrow> ret (Commit (policy, Known_Blob asset_id b))
     | None \<Rightarrow>
     bindE (in_tx (select (open_upload auth r))) (\<lambda>under_way.
     case under_way of Some i \<Rightarrow> ret (Commit (policy, Open_Upload i))
     | None \<Rightarrow>
     bindE (of_result (request_storage_size r)) (\<lambda>requested.
     bindE (ensure_quota (ac_account_id auth) (pol_quota_bytes policy) requested) (\<lambda>_.
     bindE fresh_uuid (\<lambda>new_id.
     bindE (in_tx (insert_upload new_id auth asset_id r (app_request_to_value E r))) (\<lambda>upload_id.
     bindE (insert_parts upload_id (cu_parts r)) (\<lambda>_.
     ret (Commit (policy, New_Upload upload_id))))))))))))"

text \<open>The content is stored already: check it, and attach it to the asset.\<close>

definition deduplicate ::
  "app \<Rightarrow> auth_context \<Rightarrow> create_upload_request \<Rightarrow> account_policy_row \<Rightarrow> uuid \<Rightarrow> blob_candidate \<Rightarrow> uuid srv" where
  "deduplicate E auth r policy asset_id b =
     bindE (if u64_of_i64 (bc_stored_size b) \<noteq> Some (cu_content_size r) then ret False
       else bindE (on_fs (inspect_object (app_externals E) (pol_storage_path policy) (bc_storage_path b)
              (cu_content_size r) (cu_content_blake3 r))) (\<lambda>found. ret (found = Matches))) (\<lambda>file_matches.
     bindE (ensure file_matches (conflict ''deduplicated blob is missing or does not match its full hash'')) (\<lambda>_.
     transaction
       (bindE (upsert_resource asset_id (bc_id b) r) (\<lambda>resource_id.
        bindE (record_change (ac_account_id auth) ''asset'' asset_id ''upsert'') (\<lambda>_.
        bindE (record_in_transaction auth ''resource.deduplicate'' (Some ''resource'') (Some resource_id)) (\<lambda>_.
        ret (Commit resource_id)))))))"

definition create_upload ::
  "app \<Rightarrow> auth_context \<Rightarrow> create_upload_request \<Rightarrow> create_upload_response srv" where
  "create_upload E auth r =
     bindE (of_result (validate_upload_request E r)) (\<lambda>_.
     bindE (transaction (plan_upload E auth r)) (\<lambda>(policy, plan). case plan of
       Known_Blob asset_id b \<Rightarrow>
         bindE (deduplicate E auth r policy asset_id b) (\<lambda>resource_id.
         ret \<lparr>cr_disposition = Complete, cr_upload_id = None, cr_resource_id = Some resource_id,
              cr_missing_parts = []\<rparr>)
     | Open_Upload i \<Rightarrow>
         bindE (missing_parts i) (\<lambda>missing.
         ret \<lparr>cr_disposition = Upload, cr_upload_id = Some i, cr_resource_id = None,
              cr_missing_parts = missing\<rparr>)
     | New_Upload i \<Rightarrow>
         ret \<lparr>cr_disposition = Upload, cr_upload_id = Some i, cr_resource_id = None,
              cr_missing_parts = map part_index (cu_parts r)\<rparr>))"

section \<open>Parts, status, completion\<close>

text \<open>The JOIN that finds a part of the caller's upload.\<close>

definition part_row :: "uuid \<Rightarrow> u32 \<Rightarrow> uuid \<Rightarrow> tables \<Rightarrow> (upload_part \<times> upload) option" where
  "part_row upload_id index account d =
     (case find (\<lambda>p. upt_upload_id p = upload_id \<and> upt_part_index p = sint index) (t_upload_parts d) of
        None \<Rightarrow> None
      | Some p \<Rightarrow> (case find_upload d upload_id of
          None \<Rightarrow> None
        | Some u \<Rightarrow> if upl_account_id u = account then Some (p, u) else None))"

definition receive_part_row :: "uuid \<Rightarrow> u32 \<Rightarrow> nat statement" where
  "receive_part_row upload_id index now d =
     (case update_rows (\<lambda>p. upt_upload_id p = upload_id \<and> upt_part_index p = sint index)
        (\<lambda>p. p\<lparr>upt_received_size := Some (upt_expected_size p), upt_received_at := Some now\<rparr>)
        (t_upload_parts d) of (n, rows) \<Rightarrow> Some (n, d\<lparr>t_upload_parts := rows\<rparr>))"

text \<open>How waiting for the two permits of an upload ends (see \<open>Upload_Admission\<close>).\<close>

datatype admission_outcome = Admitted | Admission_Closed | Admission_Timeout

definition admission_result :: "admission_outcome \<Rightarrow> app_error + unit" where
  "admission_result a = (case a of Admitted \<Rightarrow> Inr ()
     | Admission_Closed \<Rightarrow> Inl (app_error 503 ''upload admission is unavailable'')
     | Admission_Timeout \<Rightarrow> Inl (too_many_requests_with_message 5 ''upload capacity is busy''))"

definition put_upload_part ::
  "app \<Rightarrow> auth_context \<Rightarrow> uuid \<Rightarrow> u32 \<Rightarrow> frame list \<Rightarrow> admission_outcome \<Rightarrow> nat srv" where
  "put_upload_part E auth upload_id index body admission =
     bindE (on_pool (select (part_row upload_id index (ac_account_id auth)))) (\<lambda>row.
     bindE (of_result (ok_or (not_found ''upload part not found'') row)) (\<lambda>(p, u).
     if upl_commit_state u = ''committed'' then ret 204
     else
     bindE (ensure (upl_commit_state u = ''receiving'')
       (conflict ''upload parts are frozen after commit starts'')) (\<lambda>_.
     bindE (of_result (admission_result admission)) (\<lambda>_.
     bindE fresh_uuid (\<lambda>request_id.
     bindE (on_fs (put_part (app_externals E) request_id upload_id
         \<lparr>part_index = index, part_size = word_of_int (upt_expected_size p),
          part_blake3 = upt_expected_blake3 p\<rparr> body (app_max_part_bytes E))) (\<lambda>_.
     bindE (on_pool (receive_part_row upload_id index)) (\<lambda>_. ret 204)))))))"

definition own_commit_state :: "uuid \<Rightarrow> uuid \<Rightarrow> tables \<Rightarrow> string option" where
  "own_commit_state upload_id account d = (case find_upload d upload_id of
       None \<Rightarrow> None
     | Some u \<Rightarrow> if upl_account_id u = account then Some (upl_commit_state u) else None)"

definition upload_status :: "auth_context \<Rightarrow> uuid \<Rightarrow> upload_status_response srv" where
  "upload_status auth upload_id =
     bindE (on_pool (select (own_commit_state upload_id (ac_account_id auth)))) (\<lambda>row.
     bindE (of_result (ok_or (not_found ''upload not found'') row)) (\<lambda>state_value.
     bindE (missing_parts upload_id) (\<lambda>missing.
     ret \<lparr>us_upload_id = upload_id, us_state = state_value, us_missing_parts = missing\<rparr>)))"

definition complete_upload :: "app \<Rightarrow> auth_context \<Rightarrow> uuid \<Rightarrow> complete_upload_response srv" where
  "complete_upload E auth upload_id =
     bindE (complete E upload_id (ac_account_id auth)) (\<lambda>out.
     ret \<lparr>co_resource_id = out_resource_id out, co_asset_id = out_asset_id out,
          co_deduplicated = out_deduplicated out\<rparr>)"

section \<open>Reading resources\<close>

definition parse_media_kind :: "string \<Rightarrow> media_kind" where
  "parse_media_kind v = (if v = ''photo'' then Photo else if v = ''video'' then Video else Other)"

definition content_path :: "app \<Rightarrow> uuid \<Rightarrow> string" where
  "content_path E i = ''/v2/resources/'' @ uuid_str (app_externals E) i @ ''/content''"

definition resource_manifest_from_row ::
  "app \<Rightarrow> resource \<times> asset \<times> blob \<Rightarrow> app_error + resource_manifest" where
  "resource_manifest_from_row E row = (case row of (r, a, b) \<Rightarrow>
     map_sum id (\<lambda>parts. \<lparr>rm_resource_id = res_id r, rm_asset_id = res_asset_id r,
       rm_source_asset_id = ast_source_asset_id a, rm_source_resource_id = res_source_resource_id r,
       rm_media_kind = parse_media_kind (ast_media_kind a), rm_role = res_role r,
       rm_filename = res_filename r, rm_mime_type = res_mime_type r,
       rm_source_created_at_ms = ast_source_created_at_ms a,
       rm_content_size = word_of_int (blob_plaintext_size b), rm_content_blake3 = blob_content_blake3 b,
       rm_storage_encoding = PlainV1, rm_metadata = res_metadata r, rm_parts = parts,
       rm_content_path = content_path E (res_id r)\<rparr>)
     (from_value (app_parts_from_value E) (blob_part_manifest b)))"

text \<open>\<open>resources JOIN assets JOIN blobs\<close>, in the order of the resource rows.\<close>

definition resource_rows :: "tables \<Rightarrow> (resource \<times> asset \<times> blob) list" where
  "resource_rows d = List.map_filter (\<lambda>r. case (find_asset d (res_asset_id r), find_blob d (res_blob_id r)) of
     (Some a, Some b) \<Rightarrow> Some (r, a, b) | _ \<Rightarrow> None) (t_resources d)"

definition own_resource_row :: "uuid \<Rightarrow> uuid \<Rightarrow> tables \<Rightarrow> (resource \<times> asset \<times> blob) option" where
  "own_resource_row resource_id account d =
     find (\<lambda>(r, a, b). res_id r = resource_id \<and> ast_account_id a = account) (resource_rows d)"

definition load_manifest :: "app \<Rightarrow> uuid \<Rightarrow> uuid \<Rightarrow> resource_manifest srv" where
  "load_manifest E account resource_id =
     bindE (on_pool (select (own_resource_row resource_id account))) (\<lambda>row.
     bindE (of_result (ok_or (not_found ''resource not found'') row)) (\<lambda>row.
     of_result (resource_manifest_from_row E row)))"

definition resource_manifest_handler :: "app \<Rightarrow> auth_context \<Rightarrow> uuid \<Rightarrow> resource_manifest srv" where
  "resource_manifest_handler E auth resource_id = load_manifest E (ac_account_id auth) resource_id"

fun collect_results :: "('e + 'a) list \<Rightarrow> 'e + 'a list" where
  "collect_results [] = Inr []"
| "collect_results (Inl e # rs) = Inl e"
| "collect_results (Inr x # rs) = map_sum id ((#) x) (collect_results rs)"

definition own_resource_rows :: "uuid \<Rightarrow> tables \<Rightarrow> (resource \<times> asset \<times> blob) list" where
  "own_resource_rows account d = take 1000
     (sort_key (\<lambda>(r, a, b). (- ast_source_created_at_ms a, - int (res_created_at r)))
       (filter (\<lambda>(r, a, b). ast_account_id a = account \<and> ast_deleted_at a = None) (resource_rows d)))"

definition list_resources :: "app \<Rightarrow> auth_context \<Rightarrow> resource_manifest list srv" where
  "list_resources E auth =
     bindE (on_pool (select (own_resource_rows (ac_account_id auth)))) (\<lambda>rows.
     of_result (collect_results (map (resource_manifest_from_row E) rows)))"

text \<open>
  The content of a resource: the open file the body streams, and the headers.  \<open>header_ok\<close> is what the
  \<open>http\<close> crate accepts as a header value.
\<close>

record content_response =
  ct_file :: nat
  ct_content_type :: string
  ct_content_length :: string
  ct_storage_encoding :: string

definition show_int :: "int \<Rightarrow> string" where
  "show_int v = (if v < 0 then CHR ''-'' # show_nat (nat (- v)) else show_nat (nat v))"

definition content_row :: "uuid \<Rightarrow> uuid \<Rightarrow> tables \<Rightarrow> (string \<times> string \<times> i64 \<times> string) option" where
  "content_row resource_id account d = (case own_resource_row resource_id account d of
       None \<Rightarrow> None
     | Some (r, a, b) \<Rightarrow> map_option (\<lambda>ac. (acc_storage_path ac, blob_storage_path b, blob_stored_size b,
         res_mime_type r)) (find_account d (ast_account_id a)))"

definition resource_content :: "(string \<Rightarrow> bool) \<Rightarrow> auth_context \<Rightarrow> uuid \<Rightarrow> content_response srv" where
  "resource_content header_ok auth resource_id =
     bindE (on_pool (select (content_row resource_id (ac_account_id auth)))) (\<lambda>row.
     bindE (of_result (ok_or (not_found ''resource not found'') row)) (\<lambda>(account_path, path, sz, mime).
     bindE (on_fs (open_blob account_path path)) (\<lambda>opened.
     bindE (ensure (header_ok (show_int sz)) (bad_request ''invalid content length'')) (\<lambda>_.
     ret \<lparr>ct_file = opened,
          ct_content_type = (if header_ok mime then mime else ''application/octet-stream''),
          ct_content_length = show_int sz, ct_storage_encoding = ''plain-v1''\<rparr>))))"

end
