(* ===== verification/Library.thy ===== *)
theory Library
  imports Upload_Routes "HOL-Library.List_Lexorder"
begin

text \<open>
  \<open>library.rs\<close>: the timeline, the change feed, assets and their trash, albums, tags and duplicates.
  \<open>reconcile_orphan_blobs\<close> is in \<open>Upload_Commit\<close>.
\<close>

section \<open>Helpers\<close>

text \<open>\<open>limit.unwrap_or(d).clamp(1, hi)\<close>.\<close>

definition clamp_limit :: "nat \<Rightarrow> nat \<Rightarrow> u32 option \<Rightarrow> nat" where
  "clamp_limit d hi limit = (case limit of None \<Rightarrow> max 1 (min hi d) | Some n \<Rightarrow> max 1 (min hi (unat n)))"

text \<open>\<open>CAST(strftime('%s', t) AS INTEGER) * 1000\<close>.\<close>

definition to_ms :: "nat \<Rightarrow> i64" where
  "to_ms t = int t * 1000"

definition validate_name :: "string \<Rightarrow> string \<Rightarrow> app_error + unit" where
  "validate_name source_id name =
     (if trim source_id = [] \<or> 1024 < length source_id \<or> trim name = [] \<or> 512 < length name
      then Inl (bad_request ''invalid name'') else Inr ())"

definition own_asset :: "uuid \<Rightarrow> uuid \<Rightarrow> asset \<Rightarrow> bool" where
  "own_asset account asset_id a \<longleftrightarrow> ast_id a = asset_id \<and> ast_account_id a = account"

definition asset_missing :: app_error where
  "asset_missing = not_found ''asset not found''"

section \<open>Asset summaries\<close>

definition resource_summary_from_row :: "app \<Rightarrow> resource \<times> blob \<Rightarrow> resource_summary" where
  "resource_summary_from_row E row = (case row of (r, b) \<Rightarrow>
     \<lparr>rs_resource_id = res_id r, rs_role = res_role r, rs_filename = res_filename r,
      rs_mime_type = res_mime_type r, rs_content_size = word_of_int (blob_plaintext_size b),
      rs_storage_encoding = PlainV1, rs_metadata = res_metadata r,
      rs_manifest_path = ''/v2/resources/'' @ uuid_str (app_externals E) (res_id r),
      rs_content_path = content_path E (res_id r)\<rparr>)"

definition asset_resource_rows :: "uuid \<Rightarrow> tables \<Rightarrow> (resource \<times> blob) list" where
  "asset_resource_rows asset_id d = sort_key (\<lambda>(r, b). (res_created_at r, uint (res_id r)))
     (List.map_filter (\<lambda>r. map_option (Pair r) (find_blob d (res_blob_id r)))
       (filter (\<lambda>r. res_asset_id r = asset_id) (t_resources d)))"

text \<open>\<open>ORDER BY lower(t.name), t.id\<close>: names compare as byte strings.\<close>

definition asset_tag_names :: "uuid \<Rightarrow> tables \<Rightarrow> string list" where
  "asset_tag_names asset_id d = map tag_name
     (sort_key (\<lambda>t. (map code (to_ascii_lowercase (tag_name t)), uint (tag_id t)))
       (filter (\<lambda>t. list_ex (\<lambda>m. mem_of m = tag_id t \<and> mem_asset_id m = asset_id) (t_tag_assets d)) (t_tags d)))"

definition load_asset_summary :: "app \<Rightarrow> uuid \<Rightarrow> uuid \<Rightarrow> asset_summary srv" where
  "load_asset_summary E account asset_id =
     bindE (on_pool (select (\<lambda>d. find (own_asset account asset_id) (t_assets d)))) (\<lambda>row.
     bindE (of_result (ok_or asset_missing row)) (\<lambda>a.
     bindE (on_pool (select (asset_resource_rows asset_id))) (\<lambda>resource_rows.
     bindE (on_pool (select (asset_tag_names asset_id))) (\<lambda>tag_names.
     ret \<lparr>as_asset_id = asset_id, as_source_asset_id = ast_source_asset_id a,
          as_media_kind = parse_media_kind (ast_media_kind a),
          as_source_created_at_ms = ast_source_created_at_ms a, as_favorite = ast_favorite a,
          as_archived = ast_archived a, as_trashed_at_ms = map_option to_ms (ast_deleted_at a),
          as_tag_names = tag_names,
          as_resources = map (resource_summary_from_row E) resource_rows\<rparr>))))"

fun load_summaries :: "app \<Rightarrow> uuid \<Rightarrow> uuid list \<Rightarrow> asset_summary list srv" where
  "load_summaries E account [] = ret []"
| "load_summaries E account (i # ids) =
     bindE (load_asset_summary E account i) (\<lambda>x.
     bindE (load_summaries E account ids) (\<lambda>xs. ret (x # xs)))"

definition get_asset :: "app \<Rightarrow> auth_context \<Rightarrow> uuid \<Rightarrow> asset_summary srv" where
  "get_asset E auth asset_id = load_asset_summary E (ac_account_id auth) asset_id"

section \<open>The timeline\<close>

record timeline_query =
  tq_cursor :: "string option"
  tq_limit :: "u32 option"
  tq_trashed :: bool
  tq_favorite :: "bool option"
  tq_archived :: "bool option"
  tq_album_id :: "uuid option"
  tq_tag_id :: "uuid option"

record timeline_cursor =
  tc_created_at_ms :: i64
  tc_asset_id :: uuid

text \<open>serde_json and base64, as the cursor uses them.\<close>

record cursor_codec =
  cc_to_vec :: "timeline_cursor \<Rightarrow> bytes"
  cc_from_slice :: "bytes \<Rightarrow> timeline_cursor option"
  cc_encode :: "bytes \<Rightarrow> string"
  cc_decode :: "string \<Rightarrow> bytes option"

definition encode_cursor :: "cursor_codec \<Rightarrow> timeline_cursor \<Rightarrow> string" where
  "encode_cursor C c = cc_encode C (cc_to_vec C c)"

definition decode_cursor :: "cursor_codec \<Rightarrow> string \<Rightarrow> app_error + timeline_cursor" where
  "decode_cursor C v = ok_or (bad_request ''invalid timeline cursor'')
     (Option.bind (cc_decode C v) (cc_from_slice C))"

definition before_cursor :: "timeline_cursor option \<Rightarrow> asset \<Rightarrow> bool" where
  "before_cursor c a = (case c of None \<Rightarrow> True
     | Some c \<Rightarrow> ast_source_created_at_ms a < tc_created_at_ms c \<or>
         (ast_source_created_at_ms a = tc_created_at_ms c \<and> ast_id a < tc_asset_id c))"

definition in_timeline :: "uuid \<Rightarrow> timeline_query \<Rightarrow> tables \<Rightarrow> asset \<Rightarrow> bool" where
  "in_timeline account q d a \<longleftrightarrow> ast_account_id a = account \<and>
     (tq_trashed q \<longleftrightarrow> ast_deleted_at a \<noteq> None) \<and>
     (tq_favorite q = None \<or> tq_favorite q = Some (ast_favorite a)) \<and>
     (tq_archived q = None \<or> tq_archived q = Some (ast_archived a)) \<and>
     (case tq_album_id q of None \<Rightarrow> True
      | Some i \<Rightarrow> list_ex (\<lambda>m. mem_of m = i \<and> mem_asset_id m = ast_id a) (t_album_assets d)) \<and>
     (case tq_tag_id q of None \<Rightarrow> True
      | Some i \<Rightarrow> list_ex (\<lambda>m. mem_of m = i \<and> mem_asset_id m = ast_id a) (t_tag_assets d))"

definition timeline_key :: "asset \<Rightarrow> int \<times> int" where
  "timeline_key a = (- ast_source_created_at_ms a, - uint (ast_id a))"

definition timeline_rows :: "uuid \<Rightarrow> timeline_query \<Rightarrow> timeline_cursor option \<Rightarrow> nat \<Rightarrow> tables \<Rightarrow> asset list" where
  "timeline_rows account q c limit d = take limit (sort_key timeline_key
     (filter (\<lambda>a. in_timeline account q d a \<and> before_cursor c a) (t_assets d)))"

text \<open>The page that the rows, one more than the limit where there are as many, make.\<close>

definition next_cursor :: "cursor_codec \<Rightarrow> nat \<Rightarrow> asset list \<Rightarrow> string option" where
  "next_cursor C limit rows = (if limit < length rows \<and> take limit rows \<noteq> [] then
       (let a = last (take limit rows) in Some (encode_cursor C
         \<lparr>tc_created_at_ms = ast_source_created_at_ms a, tc_asset_id = ast_id a\<rparr>)) else None)"

definition timeline :: "app \<Rightarrow> cursor_codec \<Rightarrow> auth_context \<Rightarrow> timeline_query \<Rightarrow> timeline_page srv" where
  "timeline E C auth q = (let limit = clamp_limit 100 250 (tq_limit q) in
     bindE (case tq_cursor q of None \<Rightarrow> ret None
       | Some v \<Rightarrow> bindE (of_result (decode_cursor C v)) (\<lambda>c. ret (Some c))) (\<lambda>c.
     bindE (on_pool (select (timeline_rows (ac_account_id auth) q c (limit + 1)))) (\<lambda>rows.
     bindE (load_summaries E (ac_account_id auth) (map ast_id (take limit rows))) (\<lambda>items.
     ret \<lparr>tp_items = items, tp_next_cursor = next_cursor C limit rows\<rparr>))))"

section \<open>The change feed\<close>

record sync_query =
  sq_after :: i64
  sq_limit :: "u32 option"

definition change_rows :: "uuid \<Rightarrow> i64 \<Rightarrow> nat \<Rightarrow> tables \<Rightarrow> account_change list" where
  "change_rows account after limit d = take limit (sort_key chg_sequence
     (filter (\<lambda>c. chg_account_id c = account \<and> after < chg_sequence c) (t_account_changes d)))"

definition sync_event_from_row :: "account_change \<Rightarrow> sync_event" where
  "sync_event_from_row c = \<lparr>se_sequence = chg_sequence c, se_entity_kind = chg_entity_kind c,
     se_entity_id = chg_entity_id c, se_operation = chg_operation c, se_changed_at_ms = to_ms (chg_changed_at c)\<rparr>"

definition sync_page_of :: "i64 \<Rightarrow> nat \<Rightarrow> account_change list \<Rightarrow> sync_page" where
  "sync_page_of after limit rows =
     (let events = map sync_event_from_row (take limit rows) in
      \<lparr>sp_events = events,
       sp_next_sequence = (if events = [] then after else se_sequence (last events)),
       sp_has_more = (limit < length rows)\<rparr>)"

definition sync_changes :: "auth_context \<Rightarrow> sync_query \<Rightarrow> sync_page srv" where
  "sync_changes auth q =
     bindE (ensure (0 \<le> sq_after q) (bad_request ''sync cursor cannot be negative'')) (\<lambda>_.
     (let limit = clamp_limit 250 1000 (sq_limit q) in
     bindE (on_pool (select (change_rows (ac_account_id auth) (sq_after q) (limit + 1)))) (\<lambda>rows.
     ret (sync_page_of (sq_after q) limit rows))))"

section \<open>Assets\<close>

definition update_assets :: "(asset \<Rightarrow> bool) \<Rightarrow> (asset \<Rightarrow> asset) \<Rightarrow> tables \<Rightarrow> (nat \<times> tables) option" where
  "update_assets P f d = (case update_rows P f (t_assets d) of (n, rows) \<Rightarrow> Some (n, d\<lparr>t_assets := rows\<rparr>))"

definition flags_row :: "uuid \<Rightarrow> uuid \<Rightarrow> update_asset_request \<Rightarrow> nat statement" where
  "flags_row account asset_id r now = update_assets (own_asset account asset_id)
     (\<lambda>a. a\<lparr>ast_favorite := (case ua_favorite r of None \<Rightarrow> ast_favorite a | Some b \<Rightarrow> b),
           ast_archived := (case ua_archived r of None \<Rightarrow> ast_archived a | Some b \<Rightarrow> b),
           ast_updated_at := now\<rparr>)"

text \<open>The change and audit rows that close a transaction.\<close>

definition record_both ::
  "auth_context \<Rightarrow> string \<Rightarrow> uuid \<Rightarrow> string \<Rightarrow> string \<Rightarrow> unit srv" where
  "record_both auth kind i operation action =
     bindE (record_change (ac_account_id auth) kind i operation) (\<lambda>_.
     record_in_transaction auth action (Some kind) (Some i))"

definition update_asset :: "app \<Rightarrow> auth_context \<Rightarrow> uuid \<Rightarrow> update_asset_request \<Rightarrow> asset_summary srv" where
  "update_asset E auth asset_id r =
     bindE (ensure (\<not> (ua_favorite r = None \<and> ua_archived r = None))
       (bad_request ''no asset state was supplied'')) (\<lambda>_.
     bindE (transaction
       (bindE (in_tx (flags_row (ac_account_id auth) asset_id r)) (\<lambda>n.
        bindE (ensure (n \<noteq> 0) asset_missing) (\<lambda>_.
        bindE (record_both auth ''asset'' asset_id ''upsert'' ''asset.update'') (\<lambda>_.
        ret (Commit ())))))) (\<lambda>_.
     load_asset_summary E (ac_account_id auth) asset_id))"

definition trash_row :: "uuid \<Rightarrow> uuid \<Rightarrow> bool \<Rightarrow> nat statement" where
  "trash_row account asset_id trashed now = update_assets (own_asset account asset_id)
     (\<lambda>a. a\<lparr>ast_deleted_at := (if trashed then Some now else None), ast_updated_at := now\<rparr>)"

definition set_trashed :: "auth_context \<Rightarrow> uuid \<Rightarrow> bool \<Rightarrow> unit srv" where
  "set_trashed auth asset_id trashed = transaction
     (bindE (in_tx (trash_row (ac_account_id auth) asset_id trashed)) (\<lambda>n.
      bindE (ensure (n \<noteq> 0) asset_missing) (\<lambda>_.
      bindE (record_both auth ''asset'' asset_id ''upsert''
        (if trashed then ''asset.trash'' else ''asset.restore'')) (\<lambda>_.
      ret (Commit ())))))"

definition trash_asset :: "auth_context \<Rightarrow> uuid \<Rightarrow> nat srv" where
  "trash_asset auth asset_id = bindE (set_trashed auth asset_id True) (\<lambda>_. ret 204)"

definition restore_asset :: "auth_context \<Rightarrow> uuid \<Rightarrow> nat srv" where
  "restore_asset auth asset_id = bindE (set_trashed auth asset_id False) (\<lambda>_. ret 204)"

definition trashed_blob_ids :: "uuid \<Rightarrow> uuid \<Rightarrow> tables \<Rightarrow> uuid list" where
  "trashed_blob_ids account asset_id d = remdups (map res_blob_id (filter (\<lambda>r. list_ex (\<lambda>a.
     ast_id a = res_asset_id r \<and> own_asset account asset_id a \<and> ast_deleted_at a \<noteq> None) (t_assets d))
     (t_resources d)))"

text \<open>\<open>DELETE FROM assets\<close> with the cascades of the schema.\<close>

definition delete_asset_row :: "uuid \<Rightarrow> uuid \<Rightarrow> unit statement" where
  "delete_asset_row account asset_id now d =
     (let gone = (\<lambda>a. own_asset account asset_id a \<and> ast_deleted_at a \<noteq> None);
          dead = (\<lambda>i. list_ex (\<lambda>a. ast_id a = i \<and> gone a) (t_assets d));
          cut = (\<lambda>i. list_ex (\<lambda>u. upl_id u = i \<and> dead (upl_asset_id u)) (t_uploads d))
      in Some ((), d\<lparr>t_assets := filter (\<lambda>a. \<not> gone a) (t_assets d),
        t_resources := filter (\<lambda>r. \<not> dead (res_asset_id r)) (t_resources d),
        t_uploads := filter (\<lambda>u. \<not> dead (upl_asset_id u)) (t_uploads d),
        t_upload_parts := filter (\<lambda>p. \<not> cut (upt_upload_id p)) (t_upload_parts d),
        t_album_assets := filter (\<lambda>m. \<not> dead (mem_asset_id m)) (t_album_assets d),
        t_tag_assets := filter (\<lambda>m. \<not> dead (mem_asset_id m)) (t_tag_assets d)\<rparr>))"

definition delete_asset_permanently :: "auth_context \<Rightarrow> uuid \<Rightarrow> nat srv" where
  "delete_asset_permanently auth asset_id =
     bindE (transaction
       (bindE (in_tx (select (trashed_blob_ids (ac_account_id auth) asset_id))) (\<lambda>blob_ids.
        bindE (ensure (blob_ids \<noteq> []) (not_found ''trashed asset not found'')) (\<lambda>_.
        bindE (in_tx (delete_asset_row (ac_account_id auth) asset_id)) (\<lambda>_.
        bindE (record_both auth ''asset'' asset_id ''delete'' ''asset.delete'') (\<lambda>_.
        ret (Commit ()))))))) (\<lambda>_.
     bindE (attempt (reconcile_orphan_blobs (Some (ac_account_id auth)))) (\<lambda>r. case r of
       Inr rep \<Rightarrow> ret (if orb_errors rep = 0 then 204 else 202)
     | Inl _ \<Rightarrow> ret 202))"

section \<open>Albums\<close>

definition count_members :: "uuid \<Rightarrow> member list \<Rightarrow> nat" where
  "count_members i ms = length (filter (\<lambda>m. mem_of m = i) ms)"

definition album_from_row :: "tables \<Rightarrow> album \<Rightarrow> album_record" where
  "album_from_row d a = \<lparr>ar_album_id = alb_id a, ar_source_album_id = alb_source_album_id a,
     ar_name = alb_name a, ar_asset_count = word_of_nat (count_members (alb_id a) (t_album_assets d)),
     ar_updated_at_ms = to_ms (alb_updated_at a)\<rparr>"

definition list_albums :: "auth_context \<Rightarrow> album_record list srv" where
  "list_albums auth = on_pool (select (\<lambda>d. map (album_from_row d) (sort_key (\<lambda>a. - int (alb_updated_at a))
     (filter (\<lambda>a. alb_account_id a = ac_account_id auth) (t_albums d)))))"

definition same_album :: "auth_context \<Rightarrow> string \<Rightarrow> album \<Rightarrow> bool" where
  "same_album auth source a \<longleftrightarrow> alb_account_id a = ac_account_id auth \<and>
     alb_device_id a = ac_device_id auth \<and> alb_source_album_id a = source"

definition upsert_album_row :: "uuid \<Rightarrow> auth_context \<Rightarrow> sync_album_request \<Rightarrow> uuid statement" where
  "upsert_album_row new_id auth r now d =
     (case find (same_album auth (sa_source_album_id r)) (t_albums d) of
        Some a \<Rightarrow> Some (alb_id a, d\<lparr>t_albums := map (\<lambda>b. if same_album auth (sa_source_album_id r) b
            then b\<lparr>alb_name := sa_name r, alb_updated_at := now\<rparr> else b) (t_albums d)\<rparr>)
      | None \<Rightarrow>
          if find_account d (ac_account_id auth) = None \<or> find_device d (ac_device_id auth) = None
             \<or> list_ex (\<lambda>b. alb_id b = new_id) (t_albums d) then None
          else Some (new_id, d\<lparr>t_albums := t_albums d @
            [\<lparr>alb_id = new_id, alb_account_id = ac_account_id auth, alb_device_id = ac_device_id auth,
              alb_source_album_id = sa_source_album_id r, alb_name = sa_name r, alb_created_at = now,
              alb_updated_at = now\<rparr>]\<rparr>))"

definition clear_album :: "uuid \<Rightarrow> unit statement" where
  "clear_album i now d = Some ((), d\<lparr>t_album_assets := filter (\<lambda>m. mem_of m \<noteq> i) (t_album_assets d)\<rparr>)"

text \<open>\<open>INSERT ... ON CONFLICT DO NOTHING\<close> into \<open>album_assets\<close> and \<open>tag_assets\<close>.\<close>

definition add_member :: "uuid \<Rightarrow> uuid \<Rightarrow> nat \<Rightarrow> member list \<Rightarrow> member list" where
  "add_member i asset_id now ms =
     (if list_ex (\<lambda>m. mem_of m = i \<and> mem_asset_id m = asset_id) ms then ms
      else ms @ [\<lparr>mem_of = i, mem_asset_id = asset_id, mem_added_at = now\<rparr>])"

definition insert_album_asset :: "uuid \<Rightarrow> uuid \<Rightarrow> unit statement" where
  "insert_album_asset i asset_id now d =
     (if \<not> list_ex (\<lambda>a. alb_id a = i) (t_albums d) \<or> find_asset d asset_id = None then None
      else Some ((), d\<lparr>t_album_assets := add_member i asset_id now (t_album_assets d)\<rparr>))"

fun add_album_assets :: "auth_context \<Rightarrow> uuid \<Rightarrow> string list \<Rightarrow> unit srv" where
  "add_album_assets auth i [] = ret ()"
| "add_album_assets auth i (source # sources) =
     bindE (in_tx (select (\<lambda>d. map_option ast_id
       (find (same_source (ac_account_id auth) (ac_device_id auth) source) (t_assets d))))) (\<lambda>row.
     bindE (case row of None \<Rightarrow> ret () | Some asset_id \<Rightarrow> in_tx (insert_album_asset i asset_id)) (\<lambda>_.
     add_album_assets auth i sources))"

definition own_album :: "uuid \<Rightarrow> uuid \<Rightarrow> tables \<Rightarrow> album_record option" where
  "own_album account i d = map_option (album_from_row d)
     (find (\<lambda>a. alb_id a = i \<and> alb_account_id a = account) (t_albums d))"

definition sync_album :: "auth_context \<Rightarrow> sync_album_request \<Rightarrow> album_record srv" where
  "sync_album auth r =
     bindE (of_result (validate_name (sa_source_album_id r) (sa_name r))) (\<lambda>_.
     bindE (ensure (length (sa_source_asset_ids r) \<le> 10000)
       (bad_request ''album contains too many assets in one request'')) (\<lambda>_.
     bindE (transaction
       (bindE fresh_uuid (\<lambda>new_id.
        bindE (in_tx (upsert_album_row new_id auth r)) (\<lambda>i.
        bindE (if sa_replace_members r then in_tx (clear_album i) else ret ()) (\<lambda>_.
        bindE (add_album_assets auth i (sa_source_asset_ids r)) (\<lambda>_.
        bindE (record_both auth ''album'' i ''upsert'' ''album.sync'') (\<lambda>_.
        ret (Commit i)))))))) (\<lambda>i.
     on_pool (fetch_one (own_album (ac_account_id auth) i)))))"

section \<open>Tags\<close>

definition tag_from_row :: "nat \<Rightarrow> tag \<Rightarrow> tag_record" where
  "tag_from_row n t = \<lparr>tr_tag_id = tag_id t, tr_name = tag_name t, tr_asset_count = word_of_nat n,
     tr_updated_at_ms = to_ms (tag_updated_at t)\<rparr>"

definition list_tags :: "auth_context \<Rightarrow> tag_record list srv" where
  "list_tags auth = on_pool (select (\<lambda>d.
     map (\<lambda>t. tag_from_row (count_members (tag_id t) (t_tag_assets d)) t) (sort_key (\<lambda>t. - int (tag_updated_at t))
     (filter (\<lambda>t. tag_account_id t = ac_account_id auth) (t_tags d)))))"

definition insert_tag :: "uuid \<Rightarrow> uuid \<Rightarrow> string \<Rightarrow> tag statement" where
  "insert_tag new_id account name now d =
     (if find_account d account = None
         \<or> list_ex (\<lambda>t. tag_id t = new_id \<or> tag_account_id t = account \<and> tag_name t = name) (t_tags d) then None
      else (let t = \<lparr>tag_id = new_id, tag_account_id = account, tag_name = name, tag_created_at = now,
            tag_updated_at = now\<rparr> in Some (t, d\<lparr>t_tags := t_tags d @ [t]\<rparr>)))"

definition create_tag :: "auth_context \<Rightarrow> create_tag_request \<Rightarrow> (nat \<times> tag_record) srv" where
  "create_tag auth r =
     bindE (of_result (validate_name ''tag'' (ct_name r))) (\<lambda>_.
     bindE (transaction
       (bindE fresh_uuid (\<lambda>new_id.
        bindE (in_tx (insert_tag new_id (ac_account_id auth) (ct_name r))) (\<lambda>row.
        bindE (record_both auth ''tag'' (tag_id row) ''upsert'' ''tag.create'') (\<lambda>_.
        ret (Commit (tag_from_row 0 row))))))) (\<lambda>t.
     ret (201, t)))"

definition own_tag :: "uuid \<Rightarrow> uuid \<Rightarrow> tables \<Rightarrow> bool" where
  "own_tag account i d = list_ex (\<lambda>t. tag_id t = i \<and> tag_account_id t = account) (t_tags d)"

definition owns_asset :: "uuid \<Rightarrow> uuid \<Rightarrow> tables \<Rightarrow> bool" where
  "owns_asset account i d = list_ex (own_asset account i) (t_assets d)"

definition clear_tag :: "uuid \<Rightarrow> unit statement" where
  "clear_tag i now d = Some ((), d\<lparr>t_tag_assets := filter (\<lambda>m. mem_of m \<noteq> i) (t_tag_assets d)\<rparr>)"

definition insert_tag_asset :: "uuid \<Rightarrow> uuid \<Rightarrow> unit statement" where
  "insert_tag_asset i asset_id now d =
     (if \<not> list_ex (\<lambda>t. tag_id t = i) (t_tags d) \<or> find_asset d asset_id = None then None
      else Some ((), d\<lparr>t_tag_assets := add_member i asset_id now (t_tag_assets d)\<rparr>))"

definition delete_tag_asset :: "uuid \<Rightarrow> uuid \<Rightarrow> unit statement" where
  "delete_tag_asset i asset_id now d =
     Some ((), d\<lparr>t_tag_assets := filter (\<lambda>m. \<not> (mem_of m = i \<and> mem_asset_id m = asset_id)) (t_tag_assets d)\<rparr>)"

fun add_tag_assets :: "uuid \<Rightarrow> uuid \<Rightarrow> uuid list \<Rightarrow> unit srv" where
  "add_tag_assets account i [] = ret ()"
| "add_tag_assets account i (asset_id # ids) =
     bindE (in_tx (select (owns_asset account asset_id))) (\<lambda>exists.
     bindE (if exists then in_tx (insert_tag_asset i asset_id) else ret ()) (\<lambda>_.
     add_tag_assets account i ids))"

definition set_tag_assets :: "auth_context \<Rightarrow> uuid \<Rightarrow> set_tag_assets_request \<Rightarrow> nat srv" where
  "set_tag_assets auth i r =
     bindE (ensure (length (st_asset_ids r) \<le> 10000) (bad_request ''too many tag assets in one request'')) (\<lambda>_.
     bindE (transaction
       (bindE (in_tx (select (own_tag (ac_account_id auth) i))) (\<lambda>exists.
        bindE (ensure exists (not_found ''tag not found'')) (\<lambda>_.
        bindE (in_tx (clear_tag i)) (\<lambda>_.
        bindE (add_tag_assets (ac_account_id auth) i (st_asset_ids r)) (\<lambda>_.
        bindE (record_both auth ''tag'' i ''upsert'' ''tag.assets.set'') (\<lambda>_.
        ret (Commit ())))))))) (\<lambda>_.
     ret 204))"

definition change_tag_asset :: "auth_context \<Rightarrow> uuid \<Rightarrow> uuid \<Rightarrow> bool \<Rightarrow> unit srv" where
  "change_tag_asset auth i asset_id add = transaction
     (bindE (in_tx (select (\<lambda>d. own_tag (ac_account_id auth) i d \<and> owns_asset (ac_account_id auth) asset_id d))) (\<lambda>valid.
      bindE (ensure valid (not_found ''tag or asset not found'')) (\<lambda>_.
      bindE (in_tx (if add then insert_tag_asset i asset_id else delete_tag_asset i asset_id)) (\<lambda>_.
      bindE (record_both auth ''asset'' asset_id ''upsert''
        (if add then ''tag.asset.add'' else ''tag.asset.remove'')) (\<lambda>_.
      ret (Commit ()))))))"

definition add_tag_asset :: "auth_context \<Rightarrow> uuid \<Rightarrow> uuid \<Rightarrow> nat srv" where
  "add_tag_asset auth i asset_id = bindE (change_tag_asset auth i asset_id True) (\<lambda>_. ret 204)"

definition remove_tag_asset :: "auth_context \<Rightarrow> uuid \<Rightarrow> uuid \<Rightarrow> nat srv" where
  "remove_tag_asset auth i asset_id = bindE (change_tag_asset auth i asset_id False) (\<lambda>_. ret 204)"

section \<open>Duplicates\<close>

text \<open>The assets, not in the trash, with a primary resource of a blob; one entry per such resource.\<close>

definition primary_assets :: "uuid \<Rightarrow> tables \<Rightarrow> asset list" where
  "primary_assets bid d = concat (map (\<lambda>a. map (\<lambda>_. a) (filter (\<lambda>r. res_asset_id r = ast_id a \<and>
     res_blob_id r = bid \<and> res_role r = ''primary'') (t_resources d)))
     (filter (\<lambda>a. ast_deleted_at a = None) (t_assets d)))"

definition asset_count :: "tables \<Rightarrow> blob \<Rightarrow> nat" where
  "asset_count d b = length (remdups (map ast_id (primary_assets (blob_id b) d)))"

definition duplicate_rows :: "uuid \<Rightarrow> nat \<Rightarrow> tables \<Rightarrow> blob list" where
  "duplicate_rows account limit d = take limit
     (sort_key (\<lambda>b. (- int (asset_count d b), int (blob_created_at b)))
       (filter (\<lambda>b. blob_account_id b = account \<and> 1 < asset_count d b) (t_blobs d)))"

definition duplicate_asset_ids :: "uuid \<Rightarrow> tables \<Rightarrow> uuid list" where
  "duplicate_asset_ids bid d = map ast_id (sort_key ast_created_at (primary_assets bid d))"

fun load_groups :: "app \<Rightarrow> uuid \<Rightarrow> blob list \<Rightarrow> duplicate_group list srv" where
  "load_groups E account [] = ret []"
| "load_groups E account (b # bs) =
     bindE (on_pool (select (duplicate_asset_ids (blob_id b)))) (\<lambda>ids.
     bindE (load_summaries E account ids) (\<lambda>assets.
     bindE (load_groups E account bs) (\<lambda>groups.
     ret (\<lparr>dg_content_blake3 = blob_content_blake3 b,
           dg_content_size = word_of_int (blob_plaintext_size b), dg_assets = assets\<rparr> # groups))))"

definition duplicate_groups :: "app \<Rightarrow> auth_context \<Rightarrow> u32 option \<Rightarrow> duplicate_group list srv" where
  "duplicate_groups E auth limit =
     bindE (on_pool (select (duplicate_rows (ac_account_id auth) (clamp_limit 50 200 limit)))) (\<lambda>rows.
     load_groups E (ac_account_id auth) rows)"

end
