(* ===== verification/Accounts.thy ===== *)
theory Accounts
  imports Login_Admission Library
begin

text \<open>
  Who may call what: \<open>auth.rs\<close> (secure transport and bearer tokens), \<open>bootstrap\<close> of
  \<open>routes.rs\<close> (a device logs in), \<open>api_access.rs\<close> (API keys, the audit log) and the account
  administration of \<open>admin.rs\<close> with \<open>password.rs\<close>.  The random bytes of a token are an argument.
\<close>

section \<open>Tokens and secure transport\<close>

text \<open>
  The crates behind tokens and passwords: SHA-256, base64, the Unicode lower-case tables, and the
  password functions of \<open>sarmg-admin-auth\<close> (a hash job that fails returns None).
\<close>

record secrets =
  sec_sha256 :: "string \<Rightarrow> bytes"
  sec_base64 :: "bytes \<Rightarrow> string"
  sec_to_lowercase :: "string \<Rightarrow> string"
  sec_validate_password :: "string \<Rightarrow> string + unit"
  sec_hash_password :: "string \<Rightarrow> string option"
  sec_verify_password :: "string \<Rightarrow> string \<Rightarrow> bool"

definition require_secure_transport ::
  "bool \<Rightarrow> trusted_network list \<Rightarrow> ip_addr option \<Rightarrow> header_map \<Rightarrow> 'a srv \<Rightarrow> 'a srv" where
  "require_secure_transport require_https cidrs peer headers next_handler =
     (if \<not> require_https then next_handler
      else if (case peer of None \<Rightarrow> False | Some p \<Rightarrow> forwarded_as_https p headers cidrs) then next_handler
      else fail (app_error 426 ''HTTPS is required''))"

datatype auth_usage = Device uuid | ApiKey uuid

definition device_of_token :: "bytes \<Rightarrow> tables \<Rightarrow> (uuid \<times> uuid) option" where
  "device_of_token h d = map_option (\<lambda>v. (dev_account_id v, dev_id v))
     (find (\<lambda>v. dev_token_hash v = h \<and>
        list_ex (\<lambda>a. acc_id a = dev_account_id v \<and> acc_enabled a) (t_accounts d)) (t_devices d))"

definition key_of_token :: "bytes \<Rightarrow> tables \<Rightarrow> (uuid \<times> uuid \<times> uuid) option" where
  "key_of_token h d = map_option (\<lambda>k. (key_account_id k, key_device_id k, key_id k))
     (find (\<lambda>k. key_token_hash k = h \<and> key_revoked_at k = None \<and>
        list_ex (\<lambda>a. acc_id a = key_account_id k \<and> acc_enabled a) (t_accounts d)) (t_api_keys d))"

text \<open>The token of an \<open>Authorization\<close> header; \<open>None\<close> is an absent or non-text header.\<close>

definition bearer_token :: "string option \<Rightarrow> app_error + string" where
  "bearer_token header = ok_or unauthorized (Option.bind header (strip_prefix ''Bearer ''))"

definition authenticate :: "secrets \<Rightarrow> string option \<Rightarrow> (auth_context \<times> auth_usage) srv" where
  "authenticate S header =
     bindE (of_result (bearer_token header)) (\<lambda>token.
     bindE (on_pool (select (device_of_token (sec_sha256 S token)))) (\<lambda>dev. case dev of
       Some (account_id, device_id) \<Rightarrow>
         ret (\<lparr>ac_account_id = account_id, ac_device_id = device_id, ac_actor_kind = ''device'',
               ac_actor_id = device_id\<rparr>, Device device_id)
     | None \<Rightarrow>
         bindE (on_pool (select (key_of_token (sec_sha256 S token)))) (\<lambda>key.
         bindE (of_result (ok_or unauthorized key)) (\<lambda>(account_id, device_id, api_key_id).
         ret (\<lparr>ac_account_id = account_id, ac_device_id = device_id, ac_actor_kind = ''api_key'',
               ac_actor_id = api_key_id\<rparr>, ApiKey api_key_id)))))"

text \<open>\<open>x <= datetime('now', '-300 seconds')\<close>.\<close>

definition stale :: "nat \<Rightarrow> nat \<Rightarrow> bool" where
  "stale now t \<longleftrightarrow> int t \<le> int now - 300"

definition touch_device :: "uuid \<Rightarrow> nat statement" where
  "touch_device i now d = (case update_rows (\<lambda>v. dev_id v = i \<and> stale now (dev_last_seen_at v))
     (\<lambda>v. v\<lparr>dev_last_seen_at := now\<rparr>) (t_devices d) of (n, rows) \<Rightarrow> Some (n, d\<lparr>t_devices := rows\<rparr>))"

definition update_keys :: "(api_key \<Rightarrow> bool) \<Rightarrow> (api_key \<Rightarrow> api_key) \<Rightarrow> tables \<Rightarrow> (nat \<times> tables) option" where
  "update_keys P f d = (case update_rows P f (t_api_keys d) of (n, rows) \<Rightarrow> Some (n, d\<lparr>t_api_keys := rows\<rparr>))"

definition touch_key :: "uuid \<Rightarrow> nat statement" where
  "touch_key i now = update_keys (\<lambda>k. key_id k = i \<and>
     (case key_last_used_at k of None \<Rightarrow> True | Some t \<Rightarrow> stale now t))
     (\<lambda>k. k\<lparr>key_last_used_at := Some now\<rparr>)"

definition record_usage :: "auth_usage \<Rightarrow> unit srv" where
  "record_usage u = bindE (attempt (on_pool (case u of Device i \<Rightarrow> touch_device i | ApiKey i \<Rightarrow> touch_key i)))
     (\<lambda>_. ret ())"

text \<open>A handler behind the middleware; it answers with an error status exactly when it fails.\<close>

definition require_auth :: "secrets \<Rightarrow> string option \<Rightarrow> (auth_context \<Rightarrow> 'a srv) \<Rightarrow> 'a srv" where
  "require_auth S header next_handler =
     bindE (authenticate S header) (\<lambda>(auth, usage).
     bindE (attempt (next_handler auth)) (\<lambda>response. case response of
       Inl e \<Rightarrow> fail e
     | Inr x \<Rightarrow> bindE (record_usage usage) (\<lambda>_. ret x)))"

section \<open>A device logs in\<close>

text \<open>The handler works on the login limits and on the server.\<close>

definition on_login :: "(login_rate_state, 'e, 'a) sem \<Rightarrow> (login_rate_state \<times> server, 'e, 'a) sem" where
  "on_login m s = (case m (fst s) of (r, l) \<Rightarrow> (r, (l, snd s)))"

definition on_server :: "'a srv \<Rightarrow> (login_rate_state \<times> server, app_error, 'a) sem" where
  "on_server m s = (case m (snd s) of (r, t) \<Rightarrow> (r, (fst s, t)))"

definition account_of_username :: "string \<Rightarrow> tables \<Rightarrow> (uuid \<times> string option) option" where
  "account_of_username username d = map_option (\<lambda>a. (acc_id a, acc_password_hash a))
     (find (\<lambda>a. to_ascii_lowercase (acc_username a) = to_ascii_lowercase username \<and> acc_enabled a) (t_accounts d))"

definition insert_device :: "device \<Rightarrow> uuid statement" where
  "insert_device v now d =
     (if find_account d (dev_account_id v) = None
         \<or> list_ex (\<lambda>w. dev_id w = dev_id v \<or> dev_token_hash w = dev_token_hash v) (t_devices d) then None
      else Some (dev_id v, d\<lparr>t_devices := t_devices d @ [v\<lparr>dev_created_at := now, dev_last_seen_at := now\<rparr>]\<rparr>))"

definition register_device ::
  "secrets \<Rightarrow> bytes \<Rightarrow> bootstrap_request \<Rightarrow> uuid \<Rightarrow> bootstrap_response srv" where
  "register_device S random r account_id = transaction
     (let bearer = sec_base64 S random in
      bindE fresh_uuid (\<lambda>new_id.
      bindE (in_tx (insert_device \<lparr>dev_id = new_id, dev_account_id = account_id,
          dev_name = trim (br_device_name r), dev_platform = trim (br_platform r),
          dev_token_hash = sec_sha256 S bearer, dev_created_at = 0, dev_last_seen_at = 0\<rparr>)) (\<lambda>device_id.
      bindE (in_tx (insert_audit_event account_id ''device'' (Some device_id) ''device.bootstrap''
          (Some ''device'') (Some device_id))) (\<lambda>_.
      ret (Commit \<lparr>bs_account_id = account_id, bs_device_id = device_id, bs_bearer_token = bearer\<rparr>)))))"

text \<open>
  \<open>fl\<close> rounds to \<open>f64\<close> and \<open>now\<close> is the monotonic clock, as in \<open>Login_Admission\<close>; how the
  verification job runs is \<open>queue\<close> and \<open>worker\<close>.
\<close>

definition bootstrap ::
  "secrets \<Rightarrow> (rat \<Rightarrow> rat) \<Rightarrow> nat \<Rightarrow> trusted_network list \<Rightarrow> ip_addr \<Rightarrow> header_map \<Rightarrow>
   acquire_outcome \<Rightarrow> (bool \<Rightarrow> bool worker_outcome) \<Rightarrow> bytes \<Rightarrow> bootstrap_request \<Rightarrow>
   (login_rate_state \<times> server, app_error, bootstrap_response) sem" where
  "bootstrap S fl now cidrs peer headers queue worker random r =
     (let username = trim (br_username r) in
     bindE (ensure (\<not> (username = [] \<or> br_password r = [] \<or> trim (br_device_name r) = [] \<or> trim (br_platform r) = []))
       (bad_request ''username, password, device_name and platform are required'')) (\<lambda>_.
     bindE (of_result (resolve_client_ip peer headers cidrs)) (\<lambda>source.
     bindE (on_login (check_source fl source now)) (\<lambda>_.
     bindE (on_login (check_account_at fl (sec_sha256 S)
        (''device:'' @ sec_to_lowercase S username) now)) (\<lambda>_.
     bindE (on_server (on_pool (select (account_of_username username)))) (\<lambda>account.
     bindE (of_result (run_argon2 queue (worker
        (verify_task (sec_verify_password S) (br_password r) (Option.bind account snd))))) (\<lambda>verified.
     bindE (of_result (case account of
         Some (account_id, Some _) \<Rightarrow> if verified then Inr account_id else Inl unauthorized
       | _ \<Rightarrow> Inl unauthorized)) (\<lambda>account_id.
     on_server (register_device S random r account_id)))))))))"

section \<open>API keys and the audit log\<close>

definition insert_api_key :: "api_key \<Rightarrow> (uuid \<times> nat) statement" where
  "insert_api_key k now d =
     (if find_account d (key_account_id k) = None \<or> find_device d (key_device_id k) = None
         \<or> list_ex (\<lambda>l. key_id l = key_id k \<or> key_token_hash l = key_token_hash k) (t_api_keys d) then None
      else Some ((key_id k, now), d\<lparr>t_api_keys := t_api_keys d @ [k\<lparr>key_created_at := now\<rparr>]\<rparr>))"

text \<open>The token is ASCII, so its first twelve characters are its first twelve bytes.\<close>

definition create_api_key ::
  "secrets \<Rightarrow> bytes \<Rightarrow> auth_context \<Rightarrow> create_api_key_request \<Rightarrow> (nat \<times> api_key_created) srv" where
  "create_api_key S random auth r =
     (let name = trim (ck_name r); token = ''pbk_'' @ sec_base64 S random; prefix = take 12 token in
     bindE (ensure (\<not> (name = [] \<or> 100 < length name))
       (bad_request ''API key name must contain 1 to 100 characters'')) (\<lambda>_.
     bindE (transaction
       (bindE fresh_uuid (\<lambda>new_id.
        bindE (in_tx (insert_api_key \<lparr>key_id = new_id, key_account_id = ac_account_id auth,
            key_device_id = ac_device_id auth, key_name = name, key_prefix = prefix,
            key_token_hash = sec_sha256 S token, key_created_at = 0, key_last_used_at = None,
            key_revoked_at = None\<rparr>)) (\<lambda>(api_key_id, created).
        bindE (record_in_transaction auth ''api_key.create'' (Some ''api_key'') (Some api_key_id)) (\<lambda>_.
        ret (Commit (api_key_id, created))))))) (\<lambda>(api_key_id, created).
     ret (201, \<lparr>akc_api_key_id = api_key_id, akc_name = name, akc_token = token, akc_prefix = prefix,
       akc_created_at_ms = to_ms created\<rparr>))))"

definition api_key_record_from_row :: "api_key \<Rightarrow> api_key_record" where
  "api_key_record_from_row k = \<lparr>akr_api_key_id = key_id k, akr_name = key_name k, akr_prefix = key_prefix k,
     akr_created_at_ms = to_ms (key_created_at k),
     akr_last_used_at_ms = map_option to_ms (key_last_used_at k)\<rparr>"

definition list_api_keys :: "auth_context \<Rightarrow> api_key_record list srv" where
  "list_api_keys auth = on_pool (select (\<lambda>d. map api_key_record_from_row
     (sort_key (\<lambda>k. - int (key_created_at k))
       (filter (\<lambda>k. key_account_id k = ac_account_id auth \<and> key_revoked_at k = None) (t_api_keys d)))))"

definition revoke_key_row :: "uuid \<Rightarrow> uuid \<Rightarrow> nat statement" where
  "revoke_key_row i account now = update_keys
     (\<lambda>k. key_id k = i \<and> key_account_id k = account \<and> key_revoked_at k = None)
     (\<lambda>k. k\<lparr>key_revoked_at := Some now\<rparr>)"

definition revoke_api_key :: "auth_context \<Rightarrow> uuid \<Rightarrow> nat srv" where
  "revoke_api_key auth i =
     bindE (transaction
       (bindE (in_tx (revoke_key_row i (ac_account_id auth))) (\<lambda>n.
        bindE (ensure (n \<noteq> 0) (not_found ''API key not found'')) (\<lambda>_.
        bindE (record_in_transaction auth ''api_key.revoke'' (Some ''api_key'') (Some i)) (\<lambda>_.
        ret (Commit ())))))) (\<lambda>_. ret 204)"

definition audit_rows :: "uuid \<Rightarrow> i64 option \<Rightarrow> nat \<Rightarrow> tables \<Rightarrow> audit_event list" where
  "audit_rows account before limit d = take limit (sort_key (\<lambda>e. - aud_sequence e)
     (filter (\<lambda>e. aud_account_id e = account \<and>
        (case before of None \<Rightarrow> True | Some b \<Rightarrow> aud_sequence e < b)) (t_audit_events d)))"

definition audit_event_from_row :: "audit_event \<Rightarrow> audit_event_dto" where
  "audit_event_from_row e = \<lparr>ae_sequence = aud_sequence e, ae_actor_kind = aud_actor_kind e,
     ae_action = aud_action e, ae_entity_kind = aud_entity_kind e, ae_entity_id = aud_entity_id e,
     ae_occurred_at_ms = to_ms (aud_occurred_at e)\<rparr>"

definition audit_page_of :: "nat \<Rightarrow> audit_event list \<Rightarrow> audit_page" where
  "audit_page_of limit rows = (let events = map audit_event_from_row (take limit rows) in
     \<lparr>ap_events = events, ap_next_sequence =
        (if limit < length rows \<and> events \<noteq> [] then Some (ae_sequence (last events)) else None)\<rparr>)"

definition audit_events :: "auth_context \<Rightarrow> i64 option \<Rightarrow> u32 option \<Rightarrow> audit_page srv" where
  "audit_events auth before limit0 = (let limit = clamp_limit 100 500 limit0 in
     bindE (on_pool (select (audit_rows (ac_account_id auth) before (limit + 1)))) (\<lambda>rows.
     ret (audit_page_of limit rows)))"

end
