(* ===== verification/Paging.thy ===== *)
theory Paging
  imports Accounts
begin

text \<open>
  The three paged reads of the API: the timeline, the change feed and the audit log.  Each sorts by a
  key, returns one row more than asked for to learn whether there are more, and continues after the last
  row it returned.  \<open>paging\<close> states once why following the cursors reads every row exactly once.
\<close>

locale paging =
  fixes key :: "'r \<Rightarrow> 'k::linorder" and after :: "'c \<Rightarrow> 'r \<Rightarrow> bool" and cursor :: "'r \<Rightarrow> 'c"
  assumes after_cursor: "after (cursor x) y \<longleftrightarrow> key x < key y"
begin

text \<open>The rows of a page, and how a page continues.\<close>

definition page :: "('r \<Rightarrow> bool) \<Rightarrow> nat \<Rightarrow> 'r list \<Rightarrow> 'r list" where
  "page P n rows = take n (sort_key key (filter P rows))"

lemma sorted_split:
  assumes "sorted (map key L)" "distinct (map key L)" "0 < n" "n \<le> length L"
  shows "filter (after (cursor (last (take n L)))) L = drop n L"
proof -
  let ?c = "last (take n L)"
  have "take n L \<noteq> []" using assms(3,4) by auto
  then have c: "?c = L ! (n - 1)" using assms(3,4) by (simp add: last_conv_nth min_def)
  have strict: "sorted_wrt (<) (map key L)" using assms(1,2) by (simp add: strict_sorted_iff)
  then have less: "i < j \<Longrightarrow> j < length L \<Longrightarrow> key (L ! i) < key (L ! j)" for i j
    by (auto simp: sorted_wrt_iff_nth_less)
  have "filter (after (cursor ?c)) (take n L) = []"
  proof -
    have "\<not> key ?c < key (L ! i)" if "i < n" for i
    proof (cases "i = n - 1")
      case False
      then have "key (L ! i) < key (L ! (n - 1))" using that assms(4) by (intro less) auto
      then show ?thesis by (simp add: c)
    qed (simp add: c)
    then show ?thesis by (auto simp: filter_empty_conv in_set_conv_nth after_cursor)
  qed
  moreover have "filter (after (cursor ?c)) (drop n L) = drop n L"
  proof -
    have "key ?c < key (L ! (n + i))" if "n + i < length L" for i
      using that assms(3) less [of "n - 1" "n + i"] by (simp add: c)
    then show ?thesis by (auto simp: filter_id_conv in_set_conv_nth after_cursor)
  qed
  ultimately show ?thesis by (metis append_Nil append_take_drop_id filter_append)
qed

theorem next_page:
  assumes dist: "distinct (map key (filter P rows))" and n: "0 < n" "n \<le> length (filter P rows)"
  shows "page (\<lambda>r. P r \<and> after (cursor (last (page P n rows))) r) m rows =
    take m (drop n (sort_key key (filter P rows)))"
proof -
  let ?L = "sort_key key (filter P rows)"
  have "distinct (map key ?L)" using dist by (simp add: distinct_map)
  then have split: "filter (after (cursor (last (take n ?L)))) ?L = drop n ?L"
    using n by (intro sorted_split) simp_all
  have "filter (\<lambda>r. P r \<and> Q r) rows = filter Q (filter P rows)" for Q
    by (simp add: conj_commute)
  then show ?thesis using split by (simp add: page_def filter_sort)
qed

end

section \<open>The change feed\<close>

definition change_after :: "i64 \<Rightarrow> account_change \<Rightarrow> bool" where
  "change_after n c \<longleftrightarrow> n < chg_sequence c"

interpretation feed: paging chg_sequence change_after chg_sequence
  by unfold_locales (simp add: change_after_def)

lemma change_rows_page:
  "change_rows a n m d = feed.page (\<lambda>c. chg_account_id c = a \<and> change_after n c) m (t_account_changes d)"
  by (simp add: change_rows_def feed.page_def change_after_def)

text \<open>
  C37. Following the change feed reads every change exactly once, in order: where a page has more, the
  rows of a page that starts at its \<open>next_sequence\<close> are the rows that follow its own.
\<close>

theorem sync_pages_continue:
  assumes "distinct (map chg_sequence (t_account_changes d))"
    and "rows = change_rows a after (limit + 1) d" "sp_has_more (sync_page_of after limit rows)" "0 < limit"
  shows "change_rows a (sp_next_sequence (sync_page_of after limit rows)) m d =
    take m (drop limit (sort_key chg_sequence
      (filter (\<lambda>c. chg_account_id c = a \<and> after < chg_sequence c) (t_account_changes d))))"
proof -
  let ?P = "\<lambda>c. chg_account_id c = a \<and> change_after after c"
  let ?L = "filter ?P (t_account_changes d)"
  have rows: "rows = feed.page ?P (limit + 1) (t_account_changes d)"
    using assms(2) by (simp add: change_rows_page)
  have more: "limit < length rows" using assms(3) by (simp add: sync_page_of_def Let_def)
  then have len: "limit \<le> length ?L" by (simp add: rows feed.page_def)
  have page: "take limit rows = feed.page ?P limit (t_account_changes d)"
    by (simp add: rows feed.page_def take_take)
  have ne: "take limit rows \<noteq> []" using more assms(4) by auto
  have "sp_next_sequence (sync_page_of after limit rows) = chg_sequence (last (take limit rows))"
    using ne by (simp add: sync_page_of_def Let_def last_map sync_event_from_row_def)
  moreover have "distinct (map chg_sequence ?L)" using assms(1) by (rule distinct_map_filter)
  note feed.next_page [OF this assms(4) len, of m]
  moreover have "?P c \<and> change_after (chg_sequence l) c \<longleftrightarrow>
      chg_account_id c = a \<and> change_after (chg_sequence l) c"
    if "l \<in> set ?L" for c l using that by (auto simp: change_after_def)
  moreover have "last (take limit rows) \<in> set ?L"
    using last_in_set [OF ne] page by (auto simp: feed.page_def dest: in_set_takeD)
  ultimately show ?thesis
    by (simp add: page change_rows_page feed.page_def change_after_def cong: filter_cong)
qed

section \<open>The timeline\<close>

definition cursor_of :: "asset \<Rightarrow> timeline_cursor" where
  "cursor_of a = \<lparr>tc_created_at_ms = ast_source_created_at_ms a, tc_asset_id = ast_id a\<rparr>"

interpretation line: paging timeline_key "\<lambda>c. before_cursor (Some c)" cursor_of
  by unfold_locales
     (auto simp: before_cursor_def cursor_of_def timeline_key_def less_prod_def word_less_def)

lemma timeline_rows_page:
  "timeline_rows a q c n d = line.page (\<lambda>r. in_timeline a q d r \<and> before_cursor c r) n (t_assets d)"
  by (simp add: timeline_rows_def line.page_def)

text \<open>
  C38. Following the cursors of the timeline reads every matching asset exactly once, newest first: the
  cursor of a page decodes, and the rows from it on are the rows after the page.  The codec of the
  cursor is assumed to read back what it wrote.
\<close>

theorem timeline_pages_continue:
  assumes "distinct (map ast_id (t_assets d))" "\<And>x. decode_cursor C (encode_cursor C x) = Inr x"
    and "rows = timeline_rows a q c (limit + 1) d" "next_cursor C limit rows = Some v" "0 < limit"
  shows "\<exists>c'. decode_cursor C v = Inr c' \<and> timeline_rows a q (Some c') m d =
    take m (drop limit (sort_key timeline_key
      (filter (\<lambda>r. in_timeline a q d r \<and> before_cursor c r) (t_assets d))))"
proof (intro exI conjI)
  let ?P = "\<lambda>r. in_timeline a q d r \<and> before_cursor c r"
  let ?L = "filter ?P (t_assets d)"
  have rows: "rows = line.page ?P (limit + 1) (t_assets d)" using assms(3) by (simp add: timeline_rows_page)
  have more: "limit < length rows" and v: "v = encode_cursor C (cursor_of (last (take limit rows)))"
    using assms(4) by (auto simp: next_cursor_def cursor_of_def Let_def split: if_splits)
  then have len: "limit \<le> length ?L" by (simp add: rows line.page_def)
  have page: "take limit rows = line.page ?P limit (t_assets d)" by (simp add: rows line.page_def take_take)
  have ne: "take limit rows \<noteq> []" using more assms(5) by auto
  show "decode_cursor C v = Inr (cursor_of (last (take limit rows)))" by (simp add: v assms(2))
  have "distinct (map ast_id ?L)" using assms(1) by (rule distinct_map_filter)
  then have dist: "distinct (map timeline_key ?L)"
    by (auto simp: distinct_map inj_on_def timeline_key_def simp flip: word_uint_eq_iff)
  have last: "?P (last (take limit rows))"
    using last_in_set [OF ne] page by (auto simp: line.page_def dest!: in_set_takeD)
  have "before_cursor (Some (cursor_of (last (take limit rows)))) r \<Longrightarrow> before_cursor c r" for r
    using last by (auto simp: before_cursor_def cursor_of_def split: option.splits)
  then have "(?P r \<and> before_cursor (Some (cursor_of (last (take limit rows)))) r) =
      (in_timeline a q d r \<and> before_cursor (Some (cursor_of (last (take limit rows)))) r)" for r by blast
  then show "timeline_rows a q (Some (cursor_of (last (take limit rows)))) m d =
      take m (drop limit (sort_key timeline_key ?L))"
    using line.next_page [OF dist assms(5) len, of m] by (simp add: page timeline_rows_page)
qed

section \<open>The audit log\<close>

definition audit_before :: "i64 \<Rightarrow> audit_event \<Rightarrow> bool" where
  "audit_before n e \<longleftrightarrow> aud_sequence e < n"

interpretation log: paging "\<lambda>e. - aud_sequence e" audit_before aud_sequence
  by unfold_locales (simp add: audit_before_def)

definition audit_from :: "i64 option \<Rightarrow> audit_event \<Rightarrow> bool" where
  "audit_from b e \<longleftrightarrow> (case b of None \<Rightarrow> True | Some n \<Rightarrow> audit_before n e)"

lemma audit_rows_page:
  "audit_rows a b n d = log.page (\<lambda>e. aud_account_id e = a \<and> audit_from b e) n (t_audit_events d)"
  by (simp add: audit_rows_def log.page_def audit_from_def audit_before_def cong: option.case_cong)

text \<open>
  Following \<open>next_sequence\<close> reads every audit event of the account exactly once, latest first.
\<close>

theorem audit_pages_continue:
  assumes "distinct (map aud_sequence (t_audit_events d))"
    and "rows = audit_rows a before (limit + 1) d" "ap_next_sequence (audit_page_of limit rows) = Some n" "0 < limit"
  shows "audit_rows a (Some n) m d = take m (drop limit (sort_key (\<lambda>e. - aud_sequence e)
      (filter (\<lambda>e. aud_account_id e = a \<and> (case before of None \<Rightarrow> True | Some b \<Rightarrow> aud_sequence e < b))
        (t_audit_events d))))"
proof -
  let ?P = "\<lambda>e. aud_account_id e = a \<and> audit_from before e"
  let ?L = "filter ?P (t_audit_events d)"
  have rows: "rows = log.page ?P (limit + 1) (t_audit_events d)" using assms(2) by (simp add: audit_rows_page)
  have more: "limit < length rows" using assms(3) by (simp add: audit_page_of_def Let_def split: if_splits)
  then have ne: "take limit rows \<noteq> []" using assms(4) by auto
  have n: "n = aud_sequence (last (take limit rows))"
    using assms(3) more ne
    by (simp add: audit_page_of_def Let_def last_map audit_event_from_row_def split: if_splits)
  have len: "limit \<le> length ?L" using more by (simp add: rows log.page_def)
  have page: "take limit rows = log.page ?P limit (t_audit_events d)" by (simp add: rows log.page_def take_take)
  have "distinct (map aud_sequence ?L)" using assms(1) by (rule distinct_map_filter)
  then have dist: "distinct (map (\<lambda>e. - aud_sequence e) ?L)" by (auto simp: distinct_map inj_on_def)
  have "?P (last (take limit rows))"
    using last_in_set [OF ne] page by (auto simp: log.page_def dest!: in_set_takeD)
  then have "audit_before n e \<Longrightarrow> audit_from before e" for e
    by (auto simp: n audit_from_def audit_before_def split: option.splits)
  then have "(?P e \<and> audit_before n e) = (aud_account_id e = a \<and> audit_from (Some n) e)" for e
    by (auto simp: audit_from_def)
  then show ?thesis
    using log.next_page [OF dist assms(4) len, of m]
    by (simp add: page n audit_rows_page) (simp add: audit_from_def audit_before_def cong: option.case_cong)
qed

section \<open>Examples\<close>

text \<open>Two rows of one account in each table, read one by one, and a codec that writes in unary.\<close>

definition empty_tables :: tables where
  "empty_tables = \<lparr>t_accounts = [], t_devices = [], t_assets = [], t_blobs = [], t_resources = [],
     t_uploads = [], t_upload_parts = [], t_albums = [], t_album_assets = [], t_tags = [], t_tag_assets = [],
     t_account_changes = [], t_change_seq = 0, t_api_keys = [], t_audit_events = [], t_audit_seq = 0\<rparr>"

definition paged_change :: "i64 \<Rightarrow> account_change" where
  "paged_change n = \<lparr>chg_sequence = n, chg_account_id = 1, chg_entity_kind = ''asset'', chg_entity_id = 5,
     chg_operation = ''upsert'', chg_changed_at = 0\<rparr>"

definition paged_event :: "i64 \<Rightarrow> audit_event" where
  "paged_event n = \<lparr>aud_sequence = n, aud_account_id = 1, aud_actor_kind = ''device'', aud_actor_id = None,
     aud_action = ''asset.trash'', aud_entity_kind = None, aud_entity_id = None, aud_occurred_at = 0\<rparr>"

definition paged_asset :: "uuid \<Rightarrow> asset" where
  "paged_asset i = \<lparr>ast_id = i, ast_account_id = 1, ast_device_id = 2, ast_source_asset_id = [],
     ast_media_kind = ''photo'', ast_source_created_at_ms = 9, ast_favorite = False, ast_archived = False,
     ast_deleted_at = None, ast_created_at = 0, ast_updated_at = 0\<rparr>"

definition paged_tables :: tables where
  "paged_tables = empty_tables\<lparr>t_assets := [paged_asset 3, paged_asset 4],
     t_account_changes := [paged_change 1, paged_change 2], t_audit_events := [paged_event 1, paged_event 2]\<rparr>"

definition unary_codec :: cursor_codec where
  "unary_codec = \<lparr>cc_to_vec = (\<lambda>c. (if tc_created_at_ms c < 0 then 1 else 0) #
       replicate (nat \<bar>tc_created_at_ms c\<bar>) 1 @ 0 # replicate (unat (tc_asset_id c)) 1),
     cc_from_slice = (\<lambda>bs. case bs of [] \<Rightarrow> None | b # r \<Rightarrow>
       (let n = int (length (takeWhile ((=) 1) r)) in Some \<lparr>tc_created_at_ms = (if b = 1 then - n else n),
          tc_asset_id = word_of_nat (length (dropWhile ((=) 1) r) - 1)\<rparr>)),
     cc_encode = map (\<lambda>b. if b = 1 then CHR ''1'' else CHR ''0''),
     cc_decode = (\<lambda>v. Some (map (\<lambda>c. if c = CHR ''1'' then 1 else 0) v))\<rparr>"

lemma unary_digits: "set bs \<subseteq> {0, 1 :: u8} \<Longrightarrow>
  map (\<lambda>c. if c = CHR ''1'' then 1 else 0) (map (\<lambda>b. if b = 1 then CHR ''1'' else CHR ''0'') bs) = bs"
  by (induction bs) auto

lemma unary_round_trip: "decode_cursor unary_codec (encode_cursor unary_codec c) = Inr c"
proof -
  have digits: "set (cc_to_vec unary_codec c) \<subseteq> {0, 1}" by (auto simp: unary_codec_def)
  have "cc_from_slice unary_codec (cc_to_vec unary_codec c) = Some c"
    by (cases c) (auto simp: unary_codec_def Let_def takeWhile_append dropWhile_append)
  moreover have "cc_decode unary_codec (cc_encode unary_codec (cc_to_vec unary_codec c)) = Some (cc_to_vec unary_codec c)"
    using unary_digits [OF digits] by (simp add: unary_codec_def)
  ultimately show ?thesis by (simp add: decode_cursor_def encode_cursor_def ok_or_def)
qed

definition every_asset :: timeline_query where
  "every_asset = \<lparr>tq_cursor = None, tq_limit = None, tq_trashed = False, tq_favorite = None, tq_archived = None,
     tq_album_id = None, tq_tag_id = None\<rparr>"

lemmas paged_defs = paged_tables_def empty_tables_def paged_change_def paged_event_def paged_asset_def

theorem sync_pages_continue_witness:
  "change_rows 1 1 5 paged_tables = [paged_change 2]"
proof -
  have rows: "[paged_change 1, paged_change 2] = change_rows 1 0 (1 + 1) paged_tables"
    by (simp add: change_rows_def paged_defs)
  have "change_rows 1 (sp_next_sequence (sync_page_of 0 1 [paged_change 1, paged_change 2])) 5 paged_tables =
    take 5 (drop 1 (sort_key chg_sequence (filter (\<lambda>c. chg_account_id c = 1 \<and> 0 < chg_sequence c)
      (t_account_changes paged_tables))))"
    by (rule sync_pages_continue [OF _ rows]) (simp_all add: sync_page_of_def Let_def paged_defs)
  then show ?thesis by (simp add: sync_page_of_def Let_def sync_event_from_row_def paged_defs)
qed

theorem timeline_pages_continue_witness:
  "\<exists>c'. decode_cursor unary_codec (encode_cursor unary_codec (cursor_of (paged_asset 4))) = Inr c' \<and>
    timeline_rows 1 every_asset (Some c') 5 paged_tables = [paged_asset 3]"
proof -
  have rows: "[paged_asset 4, paged_asset 3] = timeline_rows 1 every_asset None (1 + 1) paged_tables"
    by (simp add: timeline_rows_def in_timeline_def before_cursor_def every_asset_def timeline_key_def paged_defs)
  have cursor: "next_cursor unary_codec 1 [paged_asset 4, paged_asset 3] =
      Some (encode_cursor unary_codec (cursor_of (paged_asset 4)))"
    by (simp add: next_cursor_def cursor_of_def Let_def)
  have "\<exists>c'. decode_cursor unary_codec (encode_cursor unary_codec (cursor_of (paged_asset 4))) = Inr c' \<and>
    timeline_rows 1 every_asset (Some c') 5 paged_tables = take 5 (drop 1 (sort_key timeline_key
      (filter (\<lambda>r. in_timeline 1 every_asset paged_tables r \<and> before_cursor None r) (t_assets paged_tables))))"
    by (rule timeline_pages_continue [OF _ _ rows cursor]) (simp_all add: unary_round_trip paged_defs)
  then show ?thesis
    by (simp add: in_timeline_def before_cursor_def every_asset_def timeline_key_def paged_defs)
qed

theorem audit_pages_continue_witness:
  "audit_rows 1 (Some 2) 5 paged_tables = [paged_event 1]"
proof -
  have rows: "[paged_event 2, paged_event 1] = audit_rows 1 None (1 + 1) paged_tables"
    by (simp add: audit_rows_def paged_defs)
  have "audit_rows 1 (Some 2) 5 paged_tables = take 5 (drop 1 (sort_key (\<lambda>e. - aud_sequence e)
      (filter (\<lambda>e. aud_account_id e = 1 \<and> (case None of None \<Rightarrow> True | Some b \<Rightarrow> aud_sequence e < b))
        (t_audit_events paged_tables))))"
    by (rule audit_pages_continue [OF _ rows])
       (simp_all add: audit_page_of_def Let_def audit_event_from_row_def paged_defs)
  then show ?thesis by (simp add: paged_defs)
qed

end
