(* ===== verification/Upload_Admission.thy ===== *)
theory Upload_Admission
  imports Upload_Routes
begin

text \<open>
  \<open>UploadAdmission\<close> of \<open>routes.rs\<close>: a part is stored under one permit of the server and one of
  its account.  The semaphore of an account is made on demand and forgotten when no task refers to it
  (the map holds weak references).  The model interleaves the steps of the tasks; \<open>semaphores\<close> are
  numbered, and the strong references to one are the tasks that carry its number.
\<close>

datatype stage = Waiting_Global | Waiting_Account | Uploading

record task =
  tk_id :: nat
  tk_account :: uuid
  tk_semaphore :: nat
  tk_stage :: stage

record upload_admission =
  ua_global :: nat
  ua_limit :: nat
  ua_accounts :: "(uuid \<times> nat) list"
  ua_free :: "nat \<Rightarrow> nat"
  ua_next :: nat
  ua_tasks :: "task list"

definition upload_admission_new :: "nat \<Rightarrow> nat \<Rightarrow> upload_admission" where
  "upload_admission_new global_limit per_account_limit =
     \<lparr>ua_global = global_limit, ua_limit = per_account_limit, ua_accounts = [], ua_free = (\<lambda>_. 0),
      ua_next = 0, ua_tasks = []\<rparr>"

definition strong_count :: "upload_admission \<Rightarrow> nat \<Rightarrow> nat" where
  "strong_count s m = length (filter (\<lambda>t. tk_semaphore t = m) (ua_tasks s))"

text \<open>The block under the lock of the map: \<open>retain\<close>, then \<open>upgrade\<close> or a new semaphore.\<close>

definition retained :: "upload_admission \<Rightarrow> (uuid \<times> nat) list" where
  "retained s = filter (\<lambda>(_, m). 0 < strong_count s m) (ua_accounts s)"

definition new_task :: "nat \<Rightarrow> uuid \<Rightarrow> nat \<Rightarrow> task" where
  "new_task i account m =
     \<lparr>tk_id = i, tk_account = account, tk_semaphore = m, tk_stage = Waiting_Global\<rparr>"

definition enter :: "nat \<Rightarrow> uuid \<Rightarrow> upload_admission \<Rightarrow> upload_admission" where
  "enter i account s = (case map_of (retained s) account of
       Some m \<Rightarrow> s\<lparr>ua_accounts := retained s, ua_tasks := new_task i account m # ua_tasks s\<rparr>
     | None \<Rightarrow> s\<lparr>ua_accounts := (account, ua_next s) # retained s,
         ua_free := (ua_free s)(ua_next s := ua_limit s), ua_next := Suc (ua_next s),
         ua_tasks := new_task i account (ua_next s) # ua_tasks s\<rparr>)"

definition set_stage :: "task \<Rightarrow> stage \<Rightarrow> upload_admission \<Rightarrow> upload_admission" where
  "set_stage t g s = s\<lparr>ua_tasks := t\<lparr>tk_stage := g\<rparr> # remove1 t (ua_tasks s)\<rparr>"

definition take_global :: "task \<Rightarrow> upload_admission \<Rightarrow> upload_admission" where
  "take_global t s = set_stage t Waiting_Account (s\<lparr>ua_global := ua_global s - 1\<rparr>)"

definition take_account :: "task \<Rightarrow> upload_admission \<Rightarrow> upload_admission" where
  "take_account t s = set_stage t Uploading
     (s\<lparr>ua_free := (ua_free s)(tk_semaphore t := ua_free s (tk_semaphore t) - 1)\<rparr>)"

text \<open>A timeout or the end of the upload drops what the task holds.\<close>

definition leave :: "task \<Rightarrow> upload_admission \<Rightarrow> upload_admission" where
  "leave t s = s\<lparr>
     ua_global := ua_global s + (if tk_stage t = Waiting_Global then 0 else 1),
     ua_free := (ua_free s)(tk_semaphore t :=
       ua_free s (tk_semaphore t) + (if tk_stage t = Uploading then 1 else 0)),
     ua_tasks := remove1 t (ua_tasks s)\<rparr>"

inductive admission_step :: "upload_admission \<Rightarrow> upload_admission \<Rightarrow> bool" where
  Enter: "i \<notin> tk_id ` set (ua_tasks s) \<Longrightarrow> admission_step s (enter i account s)"
| Take_Global: "t \<in> set (ua_tasks s) \<Longrightarrow> tk_stage t = Waiting_Global \<Longrightarrow> 0 < ua_global s \<Longrightarrow>
    admission_step s (take_global t s)"
| Take_Account: "t \<in> set (ua_tasks s) \<Longrightarrow> tk_stage t = Waiting_Account \<Longrightarrow>
    0 < ua_free s (tk_semaphore t) \<Longrightarrow> admission_step s (take_account t s)"
| Time_Out: "t \<in> set (ua_tasks s) \<Longrightarrow> tk_stage t \<noteq> Uploading \<Longrightarrow> admission_step s (leave t s)"
| Finish: "t \<in> set (ua_tasks s) \<Longrightarrow> tk_stage t = Uploading \<Longrightarrow> admission_step s (leave t s)"

inductive_cases admission_stepE: "admission_step s s'"

text \<open>Permits are neither lost nor duplicated, and all tasks of an account share one semaphore.\<close>

definition held_global :: "upload_admission \<Rightarrow> nat" where
  "held_global s = length (filter (\<lambda>t. tk_stage t \<noteq> Waiting_Global) (ua_tasks s))"

definition uploading_on :: "upload_admission \<Rightarrow> nat \<Rightarrow> nat" where
  "uploading_on s m = length (filter (\<lambda>t. tk_semaphore t = m \<and> tk_stage t = Uploading) (ua_tasks s))"

definition uploading_of :: "upload_admission \<Rightarrow> uuid \<Rightarrow> nat" where
  "uploading_of s a = length (filter (\<lambda>t. tk_account t = a \<and> tk_stage t = Uploading) (ua_tasks s))"

definition admission_inv :: "nat \<Rightarrow> nat \<Rightarrow> upload_admission \<Rightarrow> bool" where
  "admission_inv g l s \<longleftrightarrow> ua_limit s = l \<and> ua_global s + held_global s = g \<and>
     (\<forall>m < ua_next s. ua_free s m + uploading_on s m = l) \<and>
     (\<forall>t \<in> set (ua_tasks s). map_of (ua_accounts s) (tk_account t) = Some (tk_semaphore t)) \<and>
     (\<forall>(a, m) \<in> set (ua_accounts s). m < ua_next s) \<and>
     distinct (map fst (ua_accounts s)) \<and> distinct (map tk_id (ua_tasks s))"

lemma length_filter_remove1:
  "t \<in> set ts \<Longrightarrow> length (filter P ts) = length (filter P (remove1 t ts)) + (if P t then 1 else 0)"
  by (induction ts) auto

lemma length_filter_pos: "t \<in> set ts \<Longrightarrow> P t \<Longrightarrow> 0 < length (filter P ts)"
  by (auto simp: filter_empty_conv)

lemma map_of_kept:
  "distinct (map fst xs) \<Longrightarrow> map_of (filter (\<lambda>(_, m). Q m) xs) a =
    (case map_of xs a of None \<Rightarrow> None | Some m \<Rightarrow> if Q m then Some m else None)"
  by (induction xs) (auto simp: map_of_eq_None_iff split: option.splits)

lemma strong_count_pos: "t \<in> set (ua_tasks s) \<Longrightarrow> 0 < strong_count s (tk_semaphore t)"
  by (auto simp: strong_count_def filter_empty_conv)

lemma retained_sub: "set (retained s) \<subseteq> set (ua_accounts s)"
  by (auto simp: retained_def)

lemma task_semaphore:
  "admission_inv g l s \<Longrightarrow> t \<in> set (ua_tasks s) \<Longrightarrow> tk_semaphore t < ua_next s"
  by (fastforce simp: admission_inv_def dest: map_of_SomeD)

lemma uploading_on_fresh:
  assumes "admission_inv g l s"
  shows "uploading_on s (ua_next s) = 0"
  using task_semaphore [OF assms] by (fastforce simp: uploading_on_def filter_empty_conv)

lemma enter_inv:
  assumes inv: "admission_inv g l s" and new: "i \<notin> tk_id ` set (ua_tasks s)"
  shows "admission_inv g l (enter i account s)"
proof -
  have dist: "distinct (map fst (ua_accounts s))" using inv by (simp add: admission_inv_def)
  then have keptd: "distinct (map fst (retained s))" unfolding retained_def by (rule distinct_map_filter)
  have same: "map_of (retained s) (tk_account t) = Some (tk_semaphore t)" if "t \<in> set (ua_tasks s)" for t
    using inv that strong_count_pos [OF that]
    by (simp add: retained_def map_of_kept [OF dist] admission_inv_def)
  have range: "\<forall>(a, m) \<in> set (retained s). m < ua_next s"
    using inv retained_sub [of s] by (auto simp: admission_inv_def)
  show ?thesis
  proof (cases "map_of (retained s) account")
    case None
    have other: "tk_account t \<noteq> account" if "t \<in> set (ua_tasks s)" for t
      using same [OF that] None by auto
    have fresh: "account \<notin> fst ` set (retained s)" using None by (simp add: map_of_eq_None_iff)
    show ?thesis
      using inv new same keptd range other fresh uploading_on_fresh [OF inv]
      by (auto simp: enter_def None admission_inv_def held_global_def uploading_on_def new_task_def less_Suc_eq)
  next
    case (Some m)
    with inv new same keptd range show ?thesis
      by (auto simp: enter_def admission_inv_def held_global_def uploading_on_def new_task_def)
  qed
qed

text \<open>The other steps change one task.\<close>

lemma distinct_remove1_ids: "distinct (map tk_id ts) \<Longrightarrow> t \<in> set ts \<Longrightarrow> tk_id t \<notin> tk_id ` set (remove1 t ts)"
  by (induction ts) (auto dest: notin_set_remove1, metis image_eqI)

lemma distinct_map_remove1: "distinct (map f ts) \<Longrightarrow> distinct (map f (remove1 t ts))"
  by (induction ts) (auto dest: notin_set_remove1, metis image_eqI notin_set_remove1)

lemma take_global_inv:
  assumes inv: "admission_inv g l s" and t: "t \<in> set (ua_tasks s)" "tk_stage t = Waiting_Global" "0 < ua_global s"
  shows "admission_inv g l (take_global t s)"
  using assms distinct_remove1_ids [of "ua_tasks s" t]
  by (auto simp: take_global_def set_stage_def admission_inv_def held_global_def uploading_on_def
      length_filter_remove1 [OF t(1)] distinct_map_remove1 dest: notin_set_remove1)

lemma take_account_inv:
  assumes inv: "admission_inv g l s" and t: "t \<in> set (ua_tasks s)" "tk_stage t = Waiting_Account"
    "0 < ua_free s (tk_semaphore t)"
  shows "admission_inv g l (take_account t s)"
  using assms distinct_remove1_ids [of "ua_tasks s" t] task_semaphore [OF inv t(1)]
  by (auto simp: take_account_def set_stage_def admission_inv_def held_global_def uploading_on_def
      length_filter_remove1 [OF t(1)] distinct_map_remove1 dest: notin_set_remove1)

lemma leave_inv:
  assumes inv: "admission_inv g l s" and t: "t \<in> set (ua_tasks s)"
  shows "admission_inv g l (leave t s)"
  using assms task_semaphore [OF inv t]
  by (auto simp: leave_def admission_inv_def held_global_def uploading_on_def
      length_filter_remove1 [OF t] distinct_map_remove1 dest: notin_set_remove1)

lemma admission_step_inv: "admission_step s s' \<Longrightarrow> admission_inv g l s \<Longrightarrow> admission_inv g l s'"
  by (erule admission_stepE) (auto intro: enter_inv take_global_inv take_account_inv leave_inv)

lemma admission_init_inv: "admission_inv g l (upload_admission_new g l)"
  by (simp add: upload_admission_new_def admission_inv_def held_global_def)

lemma admission_reachable_inv:
  "admission_step\<^sup>*\<^sup>* (upload_admission_new g l) s \<Longrightarrow> admission_inv g l s"
  by (induction rule: rtranclp_induct) (rule admission_init_inv, erule (1) admission_step_inv)

lemma length_filter_le_filter: "(\<And>x. P x \<Longrightarrow> Q x) \<Longrightarrow> length (filter P xs) \<le> length (filter Q xs)"
  by (induction xs) auto

lemma length_filter_le_filter_on: "(\<And>x. x \<in> set xs \<Longrightarrow> P x \<Longrightarrow> Q x) \<Longrightarrow> length (filter P xs) \<le> length (filter Q xs)"
  by (induction xs) auto

lemma uploading_of_bound:
  assumes inv: "admission_inv g l s"
  shows "uploading_of s a \<le> l"
proof (cases "map_of (ua_accounts s) a")
  case None
  with inv have "uploading_of s a = 0"
    by (auto simp: admission_inv_def uploading_of_def filter_empty_conv)
  then show ?thesis by simp
next
  case (Some m)
  have "uploading_of s a \<le> uploading_on s m"
    unfolding uploading_of_def uploading_on_def
  proof -
    have "filter (\<lambda>t. tk_account t = a \<and> tk_stage t = Uploading) (ua_tasks s) =
        filter (\<lambda>t. tk_account t = a \<and> tk_semaphore t = m \<and> tk_stage t = Uploading) (ua_tasks s)"
      using inv Some by (intro filter_cong) (auto simp: admission_inv_def)
    then show "length (filter (\<lambda>t. tk_account t = a \<and> tk_stage t = Uploading) (ua_tasks s))
        \<le> length (filter (\<lambda>t. tk_semaphore t = m \<and> tk_stage t = Uploading) (ua_tasks s))"
      by (auto intro: length_filter_le_filter)
  qed
  also have "\<dots> \<le> l" using inv Some by (fastforce simp: admission_inv_def dest: map_of_SomeD)
  finally show ?thesis .
qed

text \<open>
  C31. However requests arrive, wait, time out and finish, no account ever stores more parts at a time
  than its limit, and the server never stores more than its own, although the semaphore of an account is
  forgotten and made again.
\<close>

theorem upload_concurrency_bound:
  assumes "admission_step\<^sup>*\<^sup>* (upload_admission_new g l) s"
  shows "uploading_of s a \<le> l \<and> length (filter (\<lambda>t. tk_stage t = Uploading) (ua_tasks s)) \<le> g"
proof -
  have inv: "admission_inv g l s" using assms by (rule admission_reachable_inv)
  have "length (filter (\<lambda>t. tk_stage t = Uploading) (ua_tasks s)) \<le> held_global s"
    unfolding held_global_def by (rule length_filter_le_filter) simp
  with inv uploading_of_bound [OF inv] show ?thesis by (simp add: admission_inv_def)
qed

text \<open>
  C32. The two semaphores, always taken in the same order, do not deadlock: as long as a request waits or
  uploads, one of them can take its next permit or finish, without any timeout.
\<close>

theorem upload_admission_progress:
  assumes "admission_step\<^sup>*\<^sup>* (upload_admission_new g l) s" "0 < g" "0 < l" "ua_tasks s \<noteq> []"
  shows "\<exists>t \<in> set (ua_tasks s). tk_stage t = Uploading
    \<or> tk_stage t = Waiting_Account \<and> 0 < ua_free s (tk_semaphore t)
    \<or> tk_stage t = Waiting_Global \<and> 0 < ua_global s"
proof (cases "\<exists>t \<in> set (ua_tasks s). tk_stage t = Uploading")
  case False
  have inv: "admission_inv g l s" using assms(1) by (rule admission_reachable_inv)
  have idle: "uploading_on s m = 0" for m
    using False by (auto simp: uploading_on_def filter_empty_conv)
  show ?thesis
  proof (cases "\<exists>t \<in> set (ua_tasks s). tk_stage t = Waiting_Account")
    case True
    then obtain t where t: "t \<in> set (ua_tasks s)" "tk_stage t = Waiting_Account" by blast
    with inv idle task_semaphore [OF inv t(1)] have "ua_free s (tk_semaphore t) = l"
      by (auto simp: admission_inv_def)
    with t assms(3) show ?thesis by auto
  next
    case False': False
    have waiting: "tk_stage t = Waiting_Global" if "t \<in> set (ua_tasks s)" for t
      using False False' that by (cases "tk_stage t") auto
    then have "held_global s = 0" by (auto simp: held_global_def filter_empty_conv)
    with inv assms(2) have "0 < ua_global s" by (simp add: admission_inv_def)
    with waiting assms(4) show ?thesis by (cases "ua_tasks s") auto
  qed
qed blast

section \<open>Requests that wait for their account\<close>

text \<open>Another request of an account enters and takes a permit of the server.\<close>

definition held_by :: "uuid \<Rightarrow> upload_admission \<Rightarrow> bool" where
  "held_by a s \<longleftrightarrow> list_all (\<lambda>t. tk_account t = a \<and> tk_stage t \<noteq> Waiting_Global) (ua_tasks s)"

lemma held_by_global: "held_by a s \<Longrightarrow> held_global s = length (ua_tasks s)"
  by (simp add: held_by_def held_global_def list_all_iff filter_id_conv [THEN iffD2])

lemma enter_tasks: "\<exists>m. ua_tasks (enter i a s) = new_task i a m # ua_tasks s \<and> ua_global (enter i a s) = ua_global s"
  by (auto simp: enter_def split: option.splits)

lemma hold_one_more:
  assumes "admission_step\<^sup>*\<^sup>* (upload_admission_new g l) s" "held_by a s" "length (ua_tasks s) < g"
  shows "\<exists>s'. admission_step\<^sup>*\<^sup>* (upload_admission_new g l) s' \<and> held_by a s' \<and> length (ua_tasks s') = Suc (length (ua_tasks s))"
proof -
  obtain i where i: "i \<notin> tk_id ` set (ua_tasks s)"
    using ex_new_if_finite [of "tk_id ` set (ua_tasks s)"] infinite_UNIV_nat by auto
  let ?e = "enter i a s"
  obtain m where e: "ua_tasks ?e = new_task i a m # ua_tasks s" "ua_global ?e = ua_global s"
    using enter_tasks [of i a s] by blast
  let ?t = "new_task i a m"
  have "0 < ua_global s"
    using admission_reachable_inv [OF assms(1)] held_by_global [OF assms(2)] assms(3) by (simp add: admission_inv_def)
  then have "admission_step ?e (take_global ?t ?e)"
    using e by (intro Take_Global) (simp_all add: new_task_def)
  moreover have "admission_step s ?e" using i by (rule Enter)
  ultimately have "admission_step\<^sup>*\<^sup>* (upload_admission_new g l) (take_global ?t ?e)"
    using assms(1) by (meson rtranclp.rtrancl_into_rtrancl)
  moreover have "held_by a (take_global ?t ?e)" "length (ua_tasks (take_global ?t ?e)) = Suc (length (ua_tasks s))"
    using assms(2) e by (simp_all add: held_by_def take_global_def set_stage_def new_task_def)
  ultimately show ?thesis by blast
qed

lemma hold_all:
  "n \<le> g \<Longrightarrow> \<exists>s. admission_step\<^sup>*\<^sup>* (upload_admission_new g l) s \<and> held_by a s \<and> length (ua_tasks s) = n"
proof (induction n)
  case 0
  then show ?case by (intro exI [of _ "upload_admission_new g l"]) (simp add: held_by_def upload_admission_new_def)
next
  case (Suc n)
  then obtain s where "admission_step\<^sup>*\<^sup>* (upload_admission_new g l) s" "held_by a s" "length (ua_tasks s) = n" by auto
  with hold_one_more [of g l s a] Suc.prems show ?case by auto
qed

text \<open>One of them gets a permit of the account, as long as there is one.\<close>

lemma upload_one_more:
  assumes "admission_step\<^sup>*\<^sup>* (upload_admission_new g l) s" "held_by a s" "uploading_of s a < min l (length (ua_tasks s))"
  shows "\<exists>s'. admission_step\<^sup>*\<^sup>* (upload_admission_new g l) s' \<and> held_by a s' \<and>
    length (ua_tasks s') = length (ua_tasks s) \<and> uploading_of s' a = Suc (uploading_of s a)"
proof -
  have "\<exists>t \<in> set (ua_tasks s). tk_stage t \<noteq> Uploading"
  proof (rule ccontr)
    assume "\<not> ?thesis"
    then have "filter (\<lambda>t. tk_account t = a \<and> tk_stage t = Uploading) (ua_tasks s) = ua_tasks s"
      using assms(2) by (auto simp: held_by_def list_all_iff filter_id_conv)
    then show False using assms(3) by (simp add: uploading_of_def)
  qed
  then obtain t where t: "t \<in> set (ua_tasks s)" "tk_stage t = Waiting_Account" "tk_account t = a"
    using assms(2) by (auto simp: held_by_def list_all_iff) (metis stage.exhaust)
  have inv: "admission_inv g l s" by (rule admission_reachable_inv [OF assms(1)])
  have "uploading_on s (tk_semaphore t) \<le> uploading_of s a"
    unfolding uploading_on_def uploading_of_def
    using assms(2) by (auto simp: held_by_def list_all_iff intro!: length_filter_le_filter_on)
  then have free: "0 < ua_free s (tk_semaphore t)"
    using inv task_semaphore [OF inv t(1)] assms(3) by (auto simp: admission_inv_def)
  then have "admission_step s (take_account t s)" using t by (intro Take_Account)
  then have "admission_step\<^sup>*\<^sup>* (upload_admission_new g l) (take_account t s)"
    using assms(1) by (rule rtranclp.rtrancl_into_rtrancl [rotated])
  moreover have "held_by a (take_account t s)"
    using assms(2) t by (auto simp: held_by_def take_account_def set_stage_def list_all_iff dest: notin_set_remove1)
  moreover have "length (ua_tasks (take_account t s)) = length (ua_tasks s)"
    using length_pos_if_in_set [OF t(1)] t(1) by (simp add: take_account_def set_stage_def length_remove1)
  moreover have "uploading_of (take_account t s) a = Suc (uploading_of s a)"
    using t by (simp add: uploading_of_def take_account_def set_stage_def length_filter_remove1 [OF t(1)])
  ultimately show ?thesis by blast
qed

lemma upload_all:
  "n \<le> min l g \<Longrightarrow> \<exists>s. admission_step\<^sup>*\<^sup>* (upload_admission_new g l) s \<and> held_by a s \<and> length (ua_tasks s) = g \<and> uploading_of s a \<ge> n"
proof (induction n)
  case 0
  then show ?case using hold_all [of g g l a] by auto
next
  case (Suc n)
  then obtain s where s: "admission_step\<^sup>*\<^sup>* (upload_admission_new g l) s" "held_by a s" "length (ua_tasks s) = g"
    "n \<le> uploading_of s a" by auto
  show ?case
  proof (cases "uploading_of s a = n")
    case True
    with upload_one_more [OF s(1,2)] s(3) Suc.prems show ?thesis by fastforce
  qed (use s in auto)
qed

text \<open>
  No request of another account gets past the server's semaphore while the requests of \<open>s\<close> stay.
\<close>

definition starves_others :: "uuid \<Rightarrow> upload_admission \<Rightarrow> bool" where
  "starves_others a s \<longleftrightarrow> (\<forall>s'. admission_step\<^sup>*\<^sup>* s s' \<longrightarrow> set (ua_tasks s) \<subseteq> set (ua_tasks s') \<longrightarrow>
     (\<forall>t \<in> set (ua_tasks s'). tk_account t \<noteq> a \<longrightarrow> tk_stage t = Waiting_Global))"

lemma held_starves:
  assumes "admission_step\<^sup>*\<^sup>* (upload_admission_new g l) s" "held_by a s" "length (ua_tasks s) = g"
  shows "starves_others a s"
  unfolding starves_others_def
proof (intro allI impI ballI)
  fix s' t
  assume go: "admission_step\<^sup>*\<^sup>* s s'" and sub: "set (ua_tasks s) \<subseteq> set (ua_tasks s')"
    and t: "t \<in> set (ua_tasks s')" "tk_account t \<noteq> a"
  let ?held = "\<lambda>s. filter (\<lambda>t. tk_stage t \<noteq> Waiting_Global) (ua_tasks s)"
  have inv: "admission_inv g l s" "admission_inv g l s'"
    using assms(1) go by (auto intro: admission_reachable_inv)
  then have dist: "distinct (ua_tasks s)" "distinct (ua_tasks s')" by (simp_all add: admission_inv_def distinct_map)
  have "card (set (ua_tasks s)) = g" using dist(1) assms(3) by (simp add: distinct_card)
  moreover have "card (set (?held s')) \<le> g"
    using card_length [of "?held s'"] inv(2) unfolding admission_inv_def held_global_def by linarith
  moreover have held: "set (ua_tasks s) \<subseteq> set (?held s')"
    using sub assms(2) by (auto simp: held_by_def list_all_iff)
  ultimately have "set (?held s') = set (ua_tasks s)" by (metis List.finite_set card_seteq)
  then show "tk_stage t = Waiting_Global"
    using t assms(2) by (auto simp: held_by_def list_all_iff)
qed

text \<open>
  C33. The permit of the server is taken before the one of the account, so the limit of an account does not
  protect the others: for any limits \<open>g\<close> and \<open>l\<close> and any account a state is reachable in which all requests are
  of that account, it stores as many parts as its limit allows, the others of its requests wait, and
  the server has no permit left; and from there no request of another account gets one before one of
  these requests times out or finishes.
\<close>

theorem waiting_holds_capacity:
  "\<exists>s. admission_step\<^sup>*\<^sup>* (upload_admission_new g l) s \<and> tk_account ` set (ua_tasks s) \<subseteq> {a} \<and>
     uploading_of s a = min l g \<and> ua_global s = 0 \<and> starves_others a s"
proof -
  obtain s where s: "admission_step\<^sup>*\<^sup>* (upload_admission_new g l) s" "held_by a s" "length (ua_tasks s) = g"
    "min l g \<le> uploading_of s a"
    using upload_all [of "min l g" l g a] by auto
  have inv: "admission_inv g l s" by (rule admission_reachable_inv [OF s(1)])
  have "uploading_of s a \<le> length (ua_tasks s)" by (simp add: uploading_of_def)
  with uploading_of_bound [OF inv, of a] s(3,4) have "uploading_of s a = min l g" by simp
  moreover have "ua_global s = 0"
    using inv held_by_global [OF s(2)] s(3) by (simp add: admission_inv_def)
  moreover have "tk_account ` set (ua_tasks s) \<subseteq> {a}" using s(2) by (auto simp: held_by_def list_all_iff)
  ultimately show ?thesis using s(1) held_starves [OF s(1-3)] by blast
qed

section \<open>Examples\<close>

text \<open>One account with two requests holds both permits of a server with two, while it stores one part.\<close>

definition hogging :: upload_admission where
  "hogging = \<lparr>ua_global = 0, ua_limit = 1, ua_accounts = [(7, 0)], ua_free = (\<lambda>_. 0), ua_next = 1,
     ua_tasks = [\<lparr>tk_id = 2, tk_account = 7, tk_semaphore = 0, tk_stage = Waiting_Account\<rparr>,
                 \<lparr>tk_id = 1, tk_account = 7, tk_semaphore = 0, tk_stage = Uploading\<rparr>]\<rparr>"

lemma hogging_reachable: "admission_step\<^sup>*\<^sup>* (upload_admission_new 2 1) hogging"
proof -
  let ?t1 = "new_task 1 7 0" and ?t2 = "new_task 2 7 0"
  let ?s0 = "upload_admission_new 2 1"
  let ?s1 = "enter 1 7 ?s0"
  let ?s2 = "take_global ?t1 ?s1"
  let ?u1 = "?t1\<lparr>tk_stage := Waiting_Account\<rparr>"
  let ?s3 = "take_account ?u1 ?s2"
  let ?s4 = "enter 2 7 ?s3"
  let ?s5 = "take_global ?t2 ?s4"
  note defs = enter_def take_global_def take_account_def set_stage_def retained_def strong_count_def
    new_task_def upload_admission_new_def
  have "admission_step ?s0 ?s1" by (rule Enter) (simp add: defs)
  moreover have "admission_step ?s1 ?s2" by (rule Take_Global) (simp_all add: defs)
  moreover have "admission_step ?s2 ?s3" by (rule Take_Account) (simp_all add: defs)
  moreover have "admission_step ?s3 ?s4" by (rule Enter) (simp add: defs)
  moreover have "admission_step ?s4 ?s5" by (rule Take_Global) (simp_all add: defs)
  moreover have "?s5 = hogging" by (simp add: defs hogging_def fun_eq_iff)
  ultimately show ?thesis by (metis (no_types, lifting) rtranclp.rtrancl_into_rtrancl rtranclp.rtrancl_refl)
qed

theorem upload_concurrency_bound_witness:
  "uploading_of hogging 7 \<le> 1 \<and> length (filter (\<lambda>t. tk_stage t = Uploading) (ua_tasks hogging)) \<le> 2"
  by (rule upload_concurrency_bound [OF hogging_reachable])

theorem upload_admission_progress_witness:
  "\<exists>t \<in> set (ua_tasks hogging). tk_stage t = Uploading
    \<or> tk_stage t = Waiting_Account \<and> 0 < ua_free hogging (tk_semaphore t)
    \<or> tk_stage t = Waiting_Global \<and> 0 < ua_global hogging"
  by (rule upload_admission_progress [OF hogging_reachable]) (simp_all add: hogging_def)

text \<open>Sixteen permits of the server and four of each account.\<close>

theorem waiting_holds_capacity_witness:
  "\<exists>s. admission_step\<^sup>*\<^sup>* (upload_admission_new 16 4) s \<and> uploading_of s 7 = 4 \<and> ua_global s = 0 \<and> starves_others 7 s"
  using waiting_holds_capacity [of 16 4 7] by auto

end
