(* ===== verification/Configuration.thy ===== *)
theory Configuration
  imports Accounts Upload_Admission
begin

text \<open>
  What an operator touches: \<open>config.rs\<close> (the environment read at the start), the command line of
  \<open>main.rs\<close> and the counters of \<open>metrics.rs\<close>.
\<close>

section \<open>Socket addresses\<close>

text \<open>\<open>str::parse::<SocketAddr>\<close>: an IPv4 address and a port, or a bracketed IPv6 address with a scope and a port.\<close>

record socket_addr =
  sa_ip :: ip_addr
  sa_port :: nat

definition read_port :: "string \<Rightarrow> (nat \<times> string) option" where
  "read_port s = (case s of CHR '':'' # t \<Rightarrow> read_number 10 (length t) True 65535 t | _ \<Rightarrow> None)"

definition read_socket_v4 :: "string \<Rightarrow> (socket_addr \<times> string) option" where
  "read_socket_v4 s = Option.bind (read_ipv4_addr s) (\<lambda>(os, t).
     map_option (\<lambda>(p, u). (\<lparr>sa_ip = V4 (word_of_nat (be_value 256 os)), sa_port = p\<rparr>, u)) (read_port t))"

text \<open>The scope is not kept: nothing reads it.\<close>

definition skip_scope :: "string \<Rightarrow> string" where
  "skip_scope s = (case s of
       CHR ''%'' # t \<Rightarrow> (case read_number 10 (length t) True 4294967295 t of None \<Rightarrow> s | Some (_, u) \<Rightarrow> u)
     | _ \<Rightarrow> s)"

definition read_socket_v6 :: "string \<Rightarrow> (socket_addr \<times> string) option" where
  "read_socket_v6 s = (case s of
       CHR ''['' # t \<Rightarrow> Option.bind (read_ipv6_addr t) (\<lambda>(gs, u). (case skip_scope u of
           CHR '']'' # v \<Rightarrow> map_option (\<lambda>(p, w). (\<lparr>sa_ip = V6 (word_of_nat (be_value 65536 gs)), sa_port = p\<rparr>, w)) (read_port v)
         | _ \<Rightarrow> None))
     | _ \<Rightarrow> None)"

definition parse_socket :: "string \<Rightarrow> socket_addr option" where
  "parse_socket s = (case (case read_socket_v4 s of Some r \<Rightarrow> Some r | None \<Rightarrow> read_socket_v6 s) of
       Some (a, t) \<Rightarrow> if t = [] then Some a else None
     | None \<Rightarrow> None)"

definition is_loopback :: "ip_addr \<Rightarrow> bool" where
  "is_loopback a = (case a of V4 w \<Rightarrow> drop_bit 24 w = 127 | V6 w \<Rightarrow> w = 1)"

section \<open>config.rs\<close>

record config =
  cf_database_url :: string
  cf_data_dir :: path
  cf_bind :: socket_addr
  cf_bootstrap_admin_username :: string
  cf_bootstrap_admin_password :: "string option"
  cf_max_part_bytes :: nat
  cf_upload_global_concurrency :: nat
  cf_upload_per_account_concurrency :: nat
  cf_metrics_token :: "string option"
  cf_require_https :: bool
  cf_development :: bool
  cf_trusted_proxy_cidrs :: "trusted_network list"

text \<open>\<open>env::var(name).ok()\<close>, and the two functions of \<open>sarmg-admin-auth\<close>.\<close>

type_synonym environment_vars = "string \<Rightarrow> string option"

record admin_rules =
  ad_normalize_username :: "string \<Rightarrow> string + string"
  ad_validate_password :: "string \<Rightarrow> string + unit"

text \<open>\<open>?\<close> on a \<open>Result\<close>; an error is kept as its outermost message.\<close>

definition and_then :: "'e + 'a \<Rightarrow> ('a \<Rightarrow> 'e + 'b) \<Rightarrow> 'e + 'b" where
  "and_then r f = (case r of Inl e \<Rightarrow> Inl e | Inr x \<Rightarrow> f x)"

lemma and_then_Inr [simp]: "and_then r f = Inr y \<longleftrightarrow> (\<exists>x. r = Inr x \<and> f x = Inr y)"
  by (cases r) (simp_all add: and_then_def)

definition unwrap_or :: "'a \<Rightarrow> 'a option \<Rightarrow> 'a" where
  "unwrap_or d v = (case v of None \<Rightarrow> d | Some x \<Rightarrow> x)"

definition parse_bool :: "string \<Rightarrow> bool option" where
  "parse_bool s = (if s = ''true'' then Some True else if s = ''false'' then Some False else None)"

definition DEFAULT_BIND :: string where
  "DEFAULT_BIND = ''127.0.0.1:8080''"

definition bind_address :: "string option \<Rightarrow> string + socket_addr" where
  "bind_address v = ok_or ''BIND must be a socket address'' (parse_socket (unwrap_or DEFAULT_BIND v))"

definition configured_administrator_username :: "admin_rules \<Rightarrow> string \<Rightarrow> string + string" where
  "configured_administrator_username R v = (case ad_normalize_username R v of
       Inl e \<Rightarrow> Inl (''ADMIN_USERNAME is invalid: '' @ e) | Inr u \<Rightarrow> Inr u)"

definition positive_usize :: "environment_vars \<Rightarrow> string \<Rightarrow> nat \<Rightarrow> string + nat" where
  "positive_usize env name fallback = (case parse_unsigned u64_max (unwrap_or (show_nat fallback) (env name)) of
       None \<Rightarrow> Inl (name @ '' must be an integer'')
     | Some v \<Rightarrow> if v = 0 then Inl (name @ '' must be non-zero'') else Inr v)"

definition validate_security_mode :: "socket_addr \<Rightarrow> bool \<Rightarrow> bool \<Rightarrow> string + unit" where
  "validate_security_mode addr require_https development =
     (if development \<and> \<not> is_loopback (sa_ip addr) then Inl ''DEVELOPMENT=true requires a loopback BIND address''
      else if \<not> development \<and> \<not> require_https then Inl ''production mode requires REQUIRE_HTTPS=true''
      else Inr ())"

fun parse_networks :: "string list \<Rightarrow> string + trusted_network list" where
  "parse_networks [] = Inr []"
| "parse_networks (v # vs) = and_then (network_from_str v) (\<lambda>n. and_then (parse_networks vs) (\<lambda>ns. Inr (n # ns)))"

definition trusted_proxy_cidrs_of :: "environment_vars \<Rightarrow> string + trusted_network list" where
  "trusted_proxy_cidrs_of env =
     (case parse_networks (filter (\<lambda>v. v \<noteq> []) (map trim (split_on (CHR '','') (unwrap_or [] (env ''TRUSTED_PROXY_CIDRS''))))) of
        Inl e \<Rightarrow> Inl ''TRUSTED_PROXY_CIDRS must be a comma-separated list of exact IP/CIDR values''
      | Inr ns \<Rightarrow> Inr ns)"

definition bootstrap_password_of :: "admin_rules \<Rightarrow> environment_vars \<Rightarrow> string + string option" where
  "bootstrap_password_of R env = (case env ''BOOTSTRAP_ADMIN_PASSWORD'' of
       None \<Rightarrow> Inr None
     | Some p \<Rightarrow> (case ad_validate_password R p of
         Inl e \<Rightarrow> Inl (''BOOTSTRAP_ADMIN_PASSWORD is invalid: '' @ e) | Inr _ \<Rightarrow> Inr (Some p)))"

definition metrics_token_of :: "environment_vars \<Rightarrow> string option" where
  "metrics_token_of env = (case env ''METRICS_TOKEN'' of
       None \<Rightarrow> None | Some v \<Rightarrow> if trim v = [] then None else Some v)"

definition from_env :: "admin_rules \<Rightarrow> environment_vars \<Rightarrow> string + config" where
  "from_env R env =
     and_then (ok_or ''DATABASE_URL is required'' (env ''DATABASE_URL'')) (\<lambda>database_url.
     (let data_dir = path_of (unwrap_or ''./data'' (env ''DATA_DIR'')) in
     and_then (bind_address (env ''BIND'')) (\<lambda>addr.
     and_then (configured_administrator_username R (unwrap_or ''admin'' (env ''BOOTSTRAP_ADMIN_USERNAME''))) (\<lambda>username.
     and_then (bootstrap_password_of R env) (\<lambda>password.
     and_then (ok_or ''MAX_PART_BYTES must be an integer''
       (parse_unsigned u64_max (unwrap_or (show_nat (64 * 1024 * 1024)) (env ''MAX_PART_BYTES'')))) (\<lambda>max_part_bytes.
     and_then (positive_usize env ''UPLOAD_GLOBAL_CONCURRENCY'' 16) (\<lambda>all_limit.
     and_then (positive_usize env ''UPLOAD_PER_ACCOUNT_CONCURRENCY'' 4) (\<lambda>per_account.
     if all_limit < per_account
     then Inl ''UPLOAD_PER_ACCOUNT_CONCURRENCY cannot exceed UPLOAD_GLOBAL_CONCURRENCY''
     else
     and_then (ok_or ''REQUIRE_HTTPS must be true or false''
       (parse_bool (unwrap_or ''true'' (env ''REQUIRE_HTTPS'')))) (\<lambda>require_https.
     and_then (ok_or ''DEVELOPMENT must be true or false''
       (parse_bool (unwrap_or ''false'' (env ''DEVELOPMENT'')))) (\<lambda>development.
     and_then (validate_security_mode addr require_https development) (\<lambda>_.
     and_then (trusted_proxy_cidrs_of env) (\<lambda>cidrs. Inr
       \<lparr>cf_database_url = database_url, cf_data_dir = data_dir, cf_bind = addr,
        cf_bootstrap_admin_username = username, cf_bootstrap_admin_password = password,
        cf_max_part_bytes = max_part_bytes, cf_upload_global_concurrency = all_limit,
        cf_upload_per_account_concurrency = per_account, cf_metrics_token = metrics_token_of env,
        cf_require_https = require_https, cf_development = development, cf_trusted_proxy_cidrs = cidrs\<rparr>))))))))))))"

text \<open>A configuration that starts is safe: limits that admit something, and plain HTTP on the loopback address only.\<close>

lemma positive_usize_pos: "positive_usize env name d = Inr v \<Longrightarrow> 0 < v \<and> v \<le> u64_max"
  by (auto simp: positive_usize_def dest: parse_unsigned_le split: option.splits if_splits)

lemma from_env_limits:
  assumes "from_env R env = Inr c"
  shows "0 < cf_upload_per_account_concurrency c \<and>
    cf_upload_per_account_concurrency c \<le> cf_upload_global_concurrency c"
  using assms by (auto simp: from_env_def Let_def not_less dest: positive_usize_pos split: if_splits)

lemma from_env_transport:
  assumes "from_env R env = Inr c" "\<not> cf_require_https c"
  shows "cf_development c \<and> is_loopback (sa_ip (cf_bind c))"
  using assms by (auto simp: from_env_def Let_def validate_security_mode_def split: if_splits)

text \<open>The defaults.\<close>

lemma default_configuration:
  "map_sum (\<lambda>e. e) (\<lambda>c. (sa_port (cf_bind c), cf_max_part_bytes c, cf_upload_global_concurrency c,
      cf_require_https c, cf_trusted_proxy_cidrs c))
    (from_env \<lparr>ad_normalize_username = Inr, ad_validate_password = (\<lambda>_. Inr ())\<rparr>
      [''DATABASE_URL'' \<mapsto> ''sqlite:x'']) = Inr (8080, 67108864, 16, True, [])"
  by code_simp

section \<open>The command line\<close>

datatype command =
    Serve | Serve_Release path | Doctor | Reconcile_Scan | Release_Identity
  | Release_Verify path | Release_Verify_Installed path

definition command_parse :: "string list \<Rightarrow> command option" where
  "command_parse arguments = (case arguments of
       [] \<Rightarrow> Some Serve
     | [c] \<Rightarrow> if c = ''serve'' then Some Serve else if c = ''doctor'' then Some Doctor
         else if c = ''release-identity'' then Some Release_Identity else None
     | [c, x] \<Rightarrow> if c = ''serve-release'' then Some (Serve_Release (path_of x))
         else if c = ''reconcile'' \<and> x = ''scan'' then Some Reconcile_Scan
         else if c = ''release-verify'' then Some (Release_Verify (path_of x))
         else if c = ''release-verify-installed'' then Some (Release_Verify_Installed (path_of x)) else None
     | _ \<Rightarrow> None)"

section \<open>metrics.rs\<close>

record metrics_row =
  mt_accounts :: nat
  mt_devices :: nat
  mt_assets :: nat
  mt_trashed_assets :: nat
  mt_active_uploads :: nat
  mt_stored_bytes :: i64
  mt_api_keys :: nat

definition metrics_row_of :: "tables \<Rightarrow> metrics_row option" where
  "metrics_row_of d = map_option (\<lambda>stored.
     \<lparr>mt_accounts = length (filter acc_enabled (t_accounts d)), mt_devices = length (t_devices d),
      mt_assets = length (filter (\<lambda>a. ast_deleted_at a = None) (t_assets d)),
      mt_trashed_assets = length (filter (\<lambda>a. ast_deleted_at a \<noteq> None) (t_assets d)),
      mt_active_uploads = length (filter (\<lambda>u. upl_state u = ''uploading'') (t_uploads d)),
      mt_stored_bytes = stored,
      mt_api_keys = length (filter (\<lambda>k. key_revoked_at k = None) (t_api_keys d))\<rparr>)
     (sql_sum (map blob_stored_size (t_blobs d)))"

definition newline :: string where
  "newline = [char_of (10 :: nat)]"

definition gauge :: "string \<Rightarrow> string \<Rightarrow> string" where
  "gauge name v = ''# TYPE media_backup_'' @ name @ '' gauge'' @ newline @ ''media_backup_'' @ name @ '' '' @ v @ newline"

definition metrics_body :: "metrics_row \<Rightarrow> string" where
  "metrics_body r = ''# HELP media_backup_accounts Enabled accounts.'' @ newline @
     gauge ''accounts'' (show_nat (mt_accounts r)) @ gauge ''devices'' (show_nat (mt_devices r)) @
     gauge ''assets'' (show_nat (mt_assets r)) @ gauge ''trashed_assets'' (show_nat (mt_trashed_assets r)) @
     gauge ''active_uploads'' (show_nat (mt_active_uploads r)) @ gauge ''stored_bytes'' (show_int (mt_stored_bytes r)) @
     gauge ''api_keys'' (show_nat (mt_api_keys r))"

definition prometheus :: "string option \<Rightarrow> string option \<Rightarrow> string srv" where
  "prometheus metrics_token header =
     bindE (of_result (ok_or (not_found ''metrics endpoint is disabled'') metrics_token)) (\<lambda>expected.
     bindE (ensure (Option.bind header (strip_prefix ''Bearer '') = Some expected) unauthorized) (\<lambda>_.
     bindE (on_pool (fetch_one metrics_row_of)) (\<lambda>row.
     ret (metrics_body row))))"

text \<open>The counters are only shown to a caller with the configured token, and are those of the tables.\<close>

lemma prometheus_Inr:
  assumes "prometheus tk header s = (Inr text, t)"
  shows "\<exists>e. tk = Some e \<and> header = Some (''Bearer '' @ e) \<and>
    (\<exists>row. metrics_row_of (srv_db t) = Some row \<and> text = metrics_body row)"
  using assms
  by (cases header)
     (auto simp: prometheus_def bindE_Inr_iff of_result_Inr ok_or_def ensure_run ret_def on_pool_def in_tx_Inr
        fetch_one_def strip_prefix_Some split: option.splits if_splits)

end
