(* ===== verification/Runtime_Lock.thy ===== *)
theory Runtime_Lock
  imports Rooted_Fs "HOL-Library.List_Lexorder" "HOL-Library.Char_ord"
begin

text \<open>
  \<open>runtime_lock.rs\<close> (the Linux implementation): the service and every command that works on a database or a
  data directory first lock a file beside each.  The file system is \<^typ>\<open>fs\<close> with the root of the machine as its
  root; \<open>flock\<close> is the set of the inodes that some open file holds.
\<close>

section \<open>Where the locks are\<close>

datatype lock_error = Message string | System

definition sqlite_database_path :: "string \<Rightarrow> lock_error + path" where
  "sqlite_database_path database_url =
     (case (case strip_prefix ''sqlite://'' database_url of
         Some v \<Rightarrow> Some v | None \<Rightarrow> strip_prefix ''sqlite:'' database_url) of
       None \<Rightarrow> Inl (Message ''DATABASE_URL must use the sqlite scheme'')
     | Some v \<Rightarrow> (let p = path_of v in
         if v = [] \<or> v = '':memory:'' then Inl (Message ''Media Backup requires a file SQLite database'')
         else if list_ex (\<lambda>c. c \<in> {CHR ''?'', CHR ''#'', CHR ''%'', CHR 0x00}) v
         then Inl (Message ''Media Backup requires a plain unescaped SQLite file URL'')
         else if \<not> is_absolute p then Inl (Message ''SQLite database path must be absolute'')
         else if path_file_name p = None then Inl (Message ''SQLite database path must name a file'')
         else if ParentDir \<in> set p then Inl (Message ''SQLite database path must not contain parent traversal'')
         else Inr p))"

datatype resource_kind = Kind_Directory | Kind_Regular_File

record lock_location =
  ll_path :: "string list"
  ll_parent :: "string list"
  ll_name :: string
  ll_resource_name :: string
  ll_kind :: resource_kind

text \<open>The names below the root; a parent component is refused.\<close>

fun clean_names :: "path \<Rightarrow> string list option" where
  "clean_names [] = Some []"
| "clean_names (Normal n # p) = map_option ((#) n) (clean_names p)"
| "clean_names (ParentDir # p) = None"
| "clean_names (_ # p) = clean_names p"

text \<open>\<open>cwd\<close> is the working directory, None where it cannot be told.\<close>

definition lock_location_of :: "path option \<Rightarrow> path \<Rightarrow> string \<Rightarrow> resource_kind \<Rightarrow> lock_error + lock_location" where
  "lock_location_of cwd resource label kind =
     (case (if is_absolute resource then Some resource else map_option (\<lambda>d. path_join d resource) cwd) of
       None \<Rightarrow> Inl (Message ''resolve runtime lock working directory'')
     | Some absolute \<Rightarrow> (case clean_names absolute of
         None \<Rightarrow> Inl (Message (label @ '' must not contain parent-directory components''))
       | Some [] \<Rightarrow> Inl (Message (label @ '' must name a filesystem entry''))
       | Some clean \<Rightarrow> (let lock_name = ''.'' @ last clean @ ''.media-backup.lock'' in Inr
           \<lparr>ll_path = butlast clean @ [lock_name], ll_parent = butlast clean, ll_name = lock_name,
            ll_resource_name = last clean, ll_kind = kind\<rparr>)))"

text \<open>Both locations, in the order of their paths, each path once.\<close>

fun dedup_paths :: "lock_location list \<Rightarrow> lock_location list" where
  "dedup_paths (a # b # ls) = (if ll_path a = ll_path b then dedup_paths (a # ls) else a # dedup_paths (b # ls))"
| "dedup_paths ls = ls"

definition lock_locations :: "path option \<Rightarrow> string \<Rightarrow> path \<Rightarrow> lock_error + lock_location list" where
  "lock_locations cwd database_url data_dir = (case sqlite_database_path database_url of
       Inl e \<Rightarrow> Inl e
     | Inr database \<Rightarrow> (case lock_location_of cwd database ''SQLite database'' Kind_Regular_File of
         Inl e \<Rightarrow> Inl e
       | Inr a \<Rightarrow> (case lock_location_of cwd data_dir ''DATA_DIR'' Kind_Directory of
           Inl e \<Rightarrow> Inl e
         | Inr b \<Rightarrow> Inr (dedup_paths (sort_key ll_path [a, b])))))"

section \<open>Taking the locks\<close>

record lock_world =
  lw_fs :: fs
  lw_locks :: "nat set"

type_synonym 'a lk = "(lock_world, lock_error, 'a) sem"

text \<open>A system call; its error is replaced by the message of the context, if there is one.\<close>

definition call :: "lock_error \<Rightarrow> 'a io \<Rightarrow> 'a lk" where
  "call e m w = (case m (lw_fs w) of (r, f) \<Rightarrow> (case r of Inl _ \<Rightarrow> Inl e | Inr x \<Rightarrow> Inr x, w\<lparr>lw_fs := f\<rparr>))"

definition links :: "fs \<Rightarrow> node \<Rightarrow> nat" where
  "links s n = length (filter (\<lambda>(p, m). m = n) (fs_nodes s))"

text \<open>\<open>statat\<close> and \<open>fstat\<close>: the type and the number of links.\<close>

definition sys_stat_at :: "string list \<Rightarrow> (node \<times> nat) option io" where
  "sys_stat_at p = syscall (\<lambda>s. (Inr (map_option (\<lambda>n. (n, links s n)) (look s p)), s))"

definition sys_fstat :: "node \<Rightarrow> nat io" where
  "sys_fstat n = syscall (\<lambda>s. (Inr (links s n), s))"

definition kind_matches :: "resource_kind \<Rightarrow> node \<Rightarrow> bool" where
  "kind_matches k n \<longleftrightarrow> (case n of Dir \<Rightarrow> k = Kind_Directory | Reg _ \<Rightarrow> k = Kind_Regular_File | _ \<Rightarrow> False)"

definition is_reg :: "node \<Rightarrow> bool" where
  "is_reg n \<longleftrightarrow> (case n of Reg _ \<Rightarrow> True | _ \<Rightarrow> False)"

definition check_resource :: "lock_location \<Rightarrow> unit lk" where
  "check_resource l =
     bindE (call (Message ''inspect Media Backup runtime resource'')
       (sys_stat_at (ll_parent l @ [ll_resource_name l]))) (\<lambda>r. case r of
       None \<Rightarrow> ret ()
     | Some (n, k) \<Rightarrow>
         bindE (ensure (kind_matches (ll_kind l) n)
           (Message ''Media Backup runtime resource is a symbolic link or has the wrong type'')) (\<lambda>_.
         ensure (is_reg n \<longrightarrow> k = 1) (Message ''Media Backup SQLite resource has multiple hard links'')))"

definition take_flock :: "node \<Rightarrow> nat lk" where
  "take_flock n = bindE (call (Message ''lock Media Backup runtime'') (syscall (ret ()))) (\<lambda>_ w. case n of
       Reg i \<Rightarrow> if i \<in> lw_locks w
         then (Inl (Message ''Media Backup service or diagnostic command is already running''), w)
         else (Inr i, w\<lparr>lw_locks := insert i (lw_locks w)\<rparr>)
     | _ \<Rightarrow> (Inl System, w))"

definition acquire_one :: "lock_location \<Rightarrow> nat lk" where
  "acquire_one l =
     bindE (call (Message ''open Media Backup runtime lock parent without following links'')
       (sys_open_dir [] (ll_parent l))) (\<lambda>_.
     bindE (check_resource l) (\<lambda>_.
     bindE (call (Message ''open Media Backup runtime lock'') (sys_open_rw_create (ll_parent l @ [ll_name l]))) (\<lambda>n.
     bindE (call System (sys_fstat n)) (\<lambda>k.
     bindE (ensure (is_reg n \<and> k = 1) (Message ''runtime lock is not a single-link regular file'')) (\<lambda>_.
     take_flock n)))))"

text \<open>Dropping a \<open>RuntimeLock\<close>, or the files locked so far, closes them.\<close>

definition release :: "nat list \<Rightarrow> unit lk" where
  "release files w = (Inr (), w\<lparr>lw_locks := lw_locks w - set files\<rparr>)"

fun acquire_all :: "lock_location list \<Rightarrow> nat list \<Rightarrow> nat list lk" where
  "acquire_all [] files = ret files"
| "acquire_all (l # ls) files = bindE (attempt (acquire_one l)) (\<lambda>r. case r of
       Inl e \<Rightarrow> bindE (release files) (\<lambda>_. fail e)
     | Inr i \<Rightarrow> acquire_all ls (files @ [i]))"

definition acquire :: "path option \<Rightarrow> string \<Rightarrow> path \<Rightarrow> nat list lk" where
  "acquire cwd database_url data_dir =
     bindE (of_result (lock_locations cwd database_url data_dir)) (\<lambda>locations.
     bindE (call System (sys_open_dir [] [])) (\<lambda>_.
     acquire_all locations []))"

section \<open>Mutual exclusion\<close>

text \<open>Before a lock is taken, names are only added and the locks stay as they are.\<close>

definition adds_names :: "lock_world \<Rightarrow> lock_world \<Rightarrow> bool" where
  "adds_names w v \<longleftrightarrow> (\<forall>p n. look (lw_fs w) p = Some n \<longrightarrow> look (lw_fs v) p = Some n) \<and> lw_locks v = lw_locks w"

interpretation adds: run_preorder adds_names
  by unfold_locales (auto simp: adds_names_def)

lemma look_put_keeps: "look s p = Some n \<Longrightarrow> look (put_node q m s) p = Some n"
  by (auto simp: look_def put_node_def map_add_def split: if_splits)

lemma look_put_new: "look s p = None \<Longrightarrow> look (put_node p m s) p = Some m"
  by (auto simp: look_def put_node_def map_add_def split: if_splits option.splits)

lemma look_fs_sel [simp]:
  "look (s\<lparr>fs_tick := k\<rparr>) p = look s p" "look (s\<lparr>fs_next := k\<rparr>) p = look s p" "look (set_data i bs s) p = look s p"
  by (simp_all add: look_def set_data_def)

lemma adds_call:
  assumes "\<And>s r t. m s = (r, t) \<Longrightarrow> \<forall>p n. look s p = Some n \<longrightarrow> look t p = Some n"
  shows "obeys adds_names (call e m)"
  using assms by (fastforce simp: obeys_def call_def adds_names_def split: prod.splits)

lemma adds_steps:
  "obeys adds_names (call e (sys_open_dir b ns))" "obeys adds_names (call e (sys_stat_at q))"
  "obeys adds_names (call e (sys_fstat n))" "obeys adds_names (call e (syscall (ret x)))"
  "obeys adds_names (call e (sys_open_rw_create q))"
  by (rule adds_call; force simp: sys_open_dir_def sys_stat_at_def sys_fstat_def sys_open_rw_create_def syscall_def ret_def
      Let_def new_file_def look_put_keeps split: if_splits sum.splits option.splits node.splits)+

lemma adds_check: "obeys adds_names (check_resource l)"
  unfolding check_resource_def by (auto intro!: adds.obeys_rules adds_steps split: option.splits prod.splits)

lemma open_rw_create_at:
  assumes "call e (sys_open_rw_create p) w = (Inr n, v)" "p \<noteq> []"
  shows "look (lw_fs v) p = Some n"
  using assms
  by (auto simp: call_def sys_open_rw_create_def syscall_def Let_def new_file_def look_put_new
      split: prod.splits if_splits sum.splits option.splits node.splits)

definition well_placed :: "lock_location \<Rightarrow> bool" where
  "well_placed l \<longleftrightarrow> ll_path l = ll_parent l @ [ll_name l]"

definition held_at :: "lock_world \<Rightarrow> string list \<Rightarrow> bool" where
  "held_at w p \<longleftrightarrow> (\<exists>i. look (lw_fs w) p = Some (Reg i) \<and> i \<in> lw_locks w)"

lemma take_flock_Inr:
  "take_flock n w = (Inr i, v) \<Longrightarrow> n = Reg i \<and> i \<notin> lw_locks w \<and> lw_locks v = insert i (lw_locks w) \<and>
    (\<forall>p m. look (lw_fs w) p = Some m \<longrightarrow> look (lw_fs v) p = Some m)"
  by (auto simp: take_flock_def bindE_Inr_iff call_def syscall_def ret_def Let_def split: prod.splits node.splits if_splits sum.splits)

lemma take_flock_Inl: "take_flock n w = (Inl e, v) \<Longrightarrow> adds_names w v"
  by (auto simp: take_flock_def bindE_Inl_iff call_def syscall_def ret_def Let_def adds_names_def
      split: prod.splits node.splits if_splits sum.splits)

lemma acquire_one_Inr:
  assumes "acquire_one l w = (Inr i, v)" "well_placed l"
  shows "look (lw_fs v) (ll_path l) = Some (Reg i) \<and> i \<notin> lw_locks w \<and> lw_locks v = insert i (lw_locks w) \<and>
    (\<forall>p n. look (lw_fs w) p = Some n \<longrightarrow> look (lw_fs v) p = Some n)"
proof -
  from assms(1) obtain d w1 w2 n w3 k w4 where 1: "call (Message ''open Media Backup runtime lock parent without following links'')
       (sys_open_dir [] (ll_parent l)) w = (Inr d, w1)" and 2: "check_resource l w1 = (Inr (), w2)"
    and 3: "call (Message ''open Media Backup runtime lock'') (sys_open_rw_create (ll_parent l @ [ll_name l])) w2 = (Inr n, w3)"
    and 4: "call System (sys_fstat n) w3 = (Inr k, w4)" and 5: "take_flock n w4 = (Inr i, v)"
    unfolding acquire_one_def bindE_Inr_iff by (auto simp: ensure_run split: if_splits)
  note a = obeysD [OF adds_steps(1) 1] obeysD [OF adds_check 2] obeysD [OF adds_steps(5) 3] obeysD [OF adds_steps(3) 4]
  have w4: "adds_names w w4" using a by (blast intro: adds.R_trans)
  have "look (lw_fs w4) (ll_path l) = Some n"
    using open_rw_create_at [OF 3] a(4) assms(2) by (simp add: adds_names_def well_placed_def)
  with take_flock_Inr [OF 5] w4 show ?thesis by (auto simp: adds_names_def)
qed

text \<open>A failing step before or at the lock has only added names.\<close>

definition fails_clean :: "'a lk \<Rightarrow> bool" where
  "fails_clean m \<longleftrightarrow> (\<forall>w e v. m w = (Inl e, v) \<longrightarrow> adds_names w v)"

lemma fails_clean_bind: "obeys adds_names m \<Longrightarrow> (\<And>x. fails_clean (f x)) \<Longrightarrow> fails_clean (bindE m f)"
  unfolding fails_clean_def bindE_Inl_iff by (metis adds.R_trans obeysD)

lemma acquire_one_clean: "fails_clean (acquire_one l)"
  unfolding acquire_one_def
  by (rule fails_clean_bind adds_steps adds_check adds.obeys_ensure)+ (auto simp: fails_clean_def dest: take_flock_Inl)

lemma acquire_one_held:
  assumes "acquire_one l w = (Inr i, v)" "well_placed l"
  shows "\<not> held_at w (ll_path l)"
  using acquire_one_Inr [OF assms] by (auto simp: held_at_def)

lemma held_at_adds: "held_at w p \<Longrightarrow> adds_names w v \<Longrightarrow> held_at v p"
  by (auto simp: held_at_def adds_names_def)

lemma held_at_grows:
  "held_at w p \<Longrightarrow> \<forall>q n. look (lw_fs w) q = Some n \<longrightarrow> look (lw_fs v) q = Some n \<Longrightarrow> lw_locks w \<subseteq> lw_locks v \<Longrightarrow> held_at v p"
  by (auto simp: held_at_def)

text \<open>Locks that somebody holds are not taken, and a failed attempt gives back what it took.\<close>

lemma acquire_all_fails:
  assumes "acquire_all ls files w = (Inl e, v)" "lw_locks w = L \<union> set files" "L \<inter> set files = {}" "\<forall>l \<in> set ls. well_placed l"
  shows "lw_locks v = L"
  using assms
proof (induction ls files arbitrary: w rule: acquire_all.induct)
  case (1 files)
  then show ?case by (simp add: ret_def)
next
  case (2 l ls files)
  obtain r u where u: "acquire_one l w = (r, u)" by fastforce
  show ?case
  proof (cases r)
    case (Inl x)
    with u acquire_one_clean [of l] have "lw_locks u = lw_locks w" by (auto simp: fails_clean_def adds_names_def)
    with 2 u Inl show ?thesis by (auto simp: bindE_def attempt_run release_def fail_def)
  next
    case (Inr i)
    with u have run: "acquire_all ls (files @ [i]) u = (Inl e, v)" using "2.prems"(1) by (simp add: bindE_def attempt_run)
    from acquire_one_Inr [of l w i u] u Inr "2.prems" have "lw_locks u = L \<union> set (files @ [i])" "L \<inter> set (files @ [i]) = {}" by auto
    with "2.IH" run "2.prems"(4) show ?thesis by simp
  qed
qed

lemma acquire_all_held:
  assumes "acquire_all ls files w = (Inr fs, v)" "\<forall>l \<in> set ls. well_placed l" "l \<in> set ls"
  shows "\<not> held_at w (ll_path l)"
  using assms
proof (induction ls files arbitrary: w rule: acquire_all.induct)
  case (2 l' ls files)
  obtain r u where u: "acquire_one l' w = (r, u)" by fastforce
  with "2.prems"(1) obtain i where i: "r = Inr i" by (cases r) (auto simp: bindE_def attempt_run release_def fail_def)
  have run: "acquire_all ls (files @ [i]) u = (Inr fs, v)" using "2.prems"(1) u i by (simp add: bindE_def attempt_run)
  have one: "acquire_one l' w = (Inr i, u)" "well_placed l'" using u i "2.prems"(2) by auto
  show ?case
  proof (cases "l = l'")
    case True
    with acquire_one_held [OF one] show ?thesis by simp
  next
    case False
    with "2.IH" run "2.prems" have "\<not> held_at u (ll_path l)" by auto
    with acquire_one_Inr [OF one] held_at_grows [of w "ll_path l" u] show ?thesis by blast
  qed
qed simp

lemma acquire_all_holds:
  assumes "acquire_all ls files w = (Inr fs, v)" "\<forall>l \<in> set ls. well_placed l"
  shows "set files \<subseteq> set fs \<and> (\<forall>p n. look (lw_fs w) p = Some n \<longrightarrow> look (lw_fs v) p = Some n) \<and>
    (\<forall>l \<in> set ls. \<exists>i \<in> set fs. look (lw_fs v) (ll_path l) = Some (Reg i))"
  using assms
proof (induction ls files arbitrary: w rule: acquire_all.induct)
  case (1 files)
  then show ?case by (auto simp: ret_def)
next
  case (2 l ls files)
  obtain r u where u: "acquire_one l w = (r, u)" by fastforce
  with "2.prems"(1) obtain i where i: "r = Inr i" by (cases r) (auto simp: bindE_def attempt_run release_def fail_def)
  have run: "acquire_all ls (files @ [i]) u = (Inr fs, v)" using "2.prems"(1) u i by (simp add: bindE_def attempt_run)
  have one: "acquire_one l w = (Inr i, u)" "well_placed l" using u i "2.prems"(2) by auto
  from "2.IH" [OF run] "2.prems"(2) have rest: "set (files @ [i]) \<subseteq> set fs"
    "\<forall>p n. look (lw_fs u) p = Some n \<longrightarrow> look (lw_fs v) p = Some n"
    "\<forall>l \<in> set ls. \<exists>i \<in> set fs. look (lw_fs v) (ll_path l) = Some (Reg i)" by auto
  with acquire_one_Inr [OF one] show ?case by auto
qed

section \<open>The locations\<close>

lemma dedup_paths_same: "ll_path ` set (dedup_paths ls) = ll_path ` set ls" "set (dedup_paths ls) \<subseteq> set ls"
  by (induction ls rule: dedup_paths.induct) auto

lemma lock_location_placed: "lock_location_of cwd p label k = Inr l \<Longrightarrow> well_placed l"
  by (auto simp: lock_location_of_def well_placed_def Let_def split: option.splits list.splits)

lemma lock_locations_Inr:
  assumes "lock_locations cwd url dir = Inr ls"
  shows "(\<forall>l \<in> set ls. well_placed l) \<and> (\<exists>p a b. sqlite_database_path url = Inr p \<and>
    lock_location_of cwd p ''SQLite database'' Kind_Regular_File = Inr a \<and>
    lock_location_of cwd dir ''DATA_DIR'' Kind_Directory = Inr b \<and> ll_path ` set ls = {ll_path a, ll_path b})"
proof -
  from assms obtain p a b where p: "sqlite_database_path url = Inr p"
    "lock_location_of cwd p ''SQLite database'' Kind_Regular_File = Inr a"
    "lock_location_of cwd dir ''DATA_DIR'' Kind_Directory = Inr b" and ls: "ls = dedup_paths (sort_key ll_path [a, b])"
    by (auto simp: lock_locations_def split: sum.splits)
  have "set (sort_key ll_path [a, b]) = {a, b}" by auto
  then have "ll_path ` set ls = {ll_path a, ll_path b}" "set ls \<subseteq> {a, b}"
    unfolding ls using dedup_paths_same [of "sort_key ll_path [a, b]"] by (metis image_insert image_empty, metis)
  moreover have "well_placed a" "well_placed b" using p(2,3) by (simp_all add: lock_location_placed)
  ultimately have "\<forall>l \<in> set ls. well_placed l" by blast
  with p \<open>ll_path ` set ls = {ll_path a, ll_path b}\<close> show ?thesis by (intro conjI exI) assumption+
qed

lemma locations_shared:
  assumes "lock_locations cwd url dir = Inr ls" "lock_locations cwd url' dir' = Inr ls'" "url' = url \<or> dir' = dir"
  shows "ll_path ` set ls \<inter> ll_path ` set ls' \<noteq> {}"
proof -
  from lock_locations_Inr [OF assms(1)] obtain p a b where 1: "sqlite_database_path url = Inr p"
    "lock_location_of cwd p ''SQLite database'' Kind_Regular_File = Inr a"
    "lock_location_of cwd dir ''DATA_DIR'' Kind_Directory = Inr b" "ll_path ` set ls = {ll_path a, ll_path b}" by blast
  from lock_locations_Inr [OF assms(2)] obtain p' a' b' where 2: "sqlite_database_path url' = Inr p'"
    "lock_location_of cwd p' ''SQLite database'' Kind_Regular_File = Inr a'"
    "lock_location_of cwd dir' ''DATA_DIR'' Kind_Directory = Inr b'" "ll_path ` set ls' = {ll_path a', ll_path b'}" by blast
  from assms(3) have "a' = a \<or> b' = b"
  proof
    assume "url' = url"
    with 1(1,2) 2(1,2) have "a' = a" by (simp del: One_nat_def)
    then show ?thesis by simp
  next
    assume "dir' = dir"
    with 1(3) 2(3) have "b' = b" by simp
    then show ?thesis by simp
  qed
  then show ?thesis unfolding 1(4) 2(4) by auto
qed

text \<open>
  C17. One at a time.  While one process holds the runtime lock, every other attempt with the same database or
  the same data directory fails and leaves the locks as they were, whatever system call fails in either, as
  long as nobody removes or replaces a file.
\<close>

theorem runtime_lock_exclusive:
  assumes "acquire cwd url dir w = (Inr files, w1)" "url' = url \<or> dir' = dir"
    and "set files \<subseteq> lw_locks w2" "\<And>p n. look (lw_fs w1) p = Some n \<Longrightarrow> look (lw_fs w2) p = Some n"
    and "acquire cwd url' dir' w2 = (r, w3)"
  shows "(\<exists>e. r = Inl e) \<and> lw_locks w3 = lw_locks w2"
proof -
  from assms(1) obtain ls u where ls: "lock_locations cwd url dir = Inr ls" and first: "acquire_all ls [] u = (Inr files, w1)"
    by (auto simp: acquire_def bindE_Inr_iff of_result_Inr)
  show ?thesis
  proof (cases "lock_locations cwd url' dir'")
    case (Inl e)
    with assms(5) show ?thesis by (auto simp: acquire_def bindE_of_result bindE_def of_result_def fail_def)
  next
    case (Inr ls')
    obtain q v where q: "call System (sys_open_dir [] []) w2 = (q, v)" by fastforce
    have v: "adds_names w2 v" using adds_steps(1) q by (rule obeysD)
    from locations_shared [OF ls Inr assms(2)] obtain l l' where
      l: "l \<in> set ls" "l' \<in> set ls'" "ll_path l = ll_path l'" by auto
    have placed: "\<forall>l \<in> set ls. well_placed l" "\<forall>l \<in> set ls'. well_placed l"
      by (rule conjunct1 [OF lock_locations_Inr [OF ls]], rule conjunct1 [OF lock_locations_Inr [OF Inr]])
    have "\<forall>l \<in> set ls. \<exists>i \<in> set files. look (lw_fs w1) (ll_path l) = Some (Reg i)"
      using acquire_all_holds [OF first placed(1)] by (elim conjE)
    with l(1) obtain i where "i \<in> set files" "look (lw_fs w1) (ll_path l) = Some (Reg i)" by blast
    with assms(3,4) have "held_at w2 (ll_path l')" unfolding held_at_def l(3) [symmetric] by blast
    with v have held: "held_at v (ll_path l')" by (blast intro: held_at_adds)
    have go: "\<exists>e. r = Inl e \<and> lw_locks w3 = lw_locks w2" if "q = Inr x" for x
    proof -
      have run: "acquire_all ls' [] v = (r, w3)"
        using assms(5) Inr q that by (simp add: acquire_def bindE_of_result bindE_def of_result_def)
      obtain e where "r = Inl e"
        using acquire_all_held [of ls' "[]" v _ w3 l'] run placed(2) l(2) held by (cases r) auto
      with acquire_all_fails [of ls' "[]" v e w3 "lw_locks v"] run placed(2) v
      show ?thesis by (auto simp: adds_names_def)
    qed
    show ?thesis
    proof (cases q)
      case (Inl e)
      with assms(5) Inr q v show ?thesis
        by (auto simp: acquire_def bindE_of_result bindE_def of_result_def adds_names_def)
    next
      case (Inr x)
      from go [OF this] show ?thesis by simp
    qed
  qed
qed

section \<open>Two commands\<close>

definition machine :: lock_world where
  "machine = \<lparr>lw_fs = \<lparr>fs_nodes = [([''srv''], Dir), ([''srv'', ''data''], Dir), ([''srv'', ''a.db''], Reg 0)],
     fs_data = (\<lambda>_. []), fs_next = 1, fs_tick = 0, fs_fault = (\<lambda>_. False), fs_chunk = (\<lambda>_. 1)\<rparr>, lw_locks = {}\<rparr>"

definition first_command :: "(lock_error + nat list) \<times> lock_world" where
  "first_command = acquire None ''sqlite:///srv/a.db'' (path_of ''/srv/data'') machine"

lemma first_command_run: "map_sum (\<lambda>_. ()) (\<lambda>files. files) (fst first_command) = Inr [1, 2]"
  by code_simp

lemma first_command_locks: "lw_locks (snd first_command) = {1, 2}"
  by code_simp

theorem runtime_lock_exclusive_witness:
  "\<exists>e w3. acquire None ''sqlite:///srv/b.db'' (path_of ''/srv/data'') (snd first_command) = (Inl e, w3) \<and>
    lw_locks w3 = {1, 2}"
proof -
  obtain q t where pair: "first_command = (q, t)" by fastforce
  from first_command_run have "map_sum (\<lambda>_. ()) (\<lambda>files. files) q = Inr [1, 2]" unfolding pair by simp
  then have "q = Inr [1, 2]" by (cases q) auto
  with pair have run: "acquire None ''sqlite:///srv/a.db'' (path_of ''/srv/data'') machine = (Inr [1, 2], t)"
    by (simp add: first_command_def)
  have locks: "lw_locks t = {1, 2}" using first_command_locks unfolding pair by simp
  obtain r w3 where second: "acquire None ''sqlite:///srv/b.db'' (path_of ''/srv/data'') t = (r, w3)" by fastforce
  have "(\<exists>e. r = Inl e) \<and> lw_locks w3 = lw_locks t"
    by (rule runtime_lock_exclusive [OF run _ _ _ second]) (simp_all add: locks)
  with second locks show ?thesis unfolding pair by auto
qed

end
