(* ===== verification/Storage_Correct.thy ===== *)
theory Storage_Correct
  imports Storage "HOL-Library.Sublist"
begin

text \<open>
  Correctness of \<open>storage.rs\<close>: keys stay inside their account, a stored part or blob has the size and
  hash it was declared with, nothing that exists is ever overwritten, and the staging sweep only
  removes unreferenced stages.
\<close>

section \<open>Keys are normal relative paths\<close>

lemma key_parse_Inr:
  assumes "key_parse raw = Inr key"
  shows "key = raw" "path_of raw = map Normal (split_on (CHR ''/'') raw)"
    "list_all normal_name (split_on (CHR ''/'') raw)"
proof -
  from assms show "key = raw" by (simp add: key_parse_def split: if_splits)
  from assms have "\<not> list_ex bad_component (split_on (CHR ''/'') raw)"
    by (simp add: key_parse_def split: if_splits)
  then show all: "list_all normal_name (split_on (CHR ''/'') raw)"
    using split_on_free [of _ "CHR ''/''" raw]
    by (auto simp: list_ex_iff list_all_iff bad_component_def normal_name_def)
  then show "path_of raw = map Normal (split_on (CHR ''/'') raw)"
    by (intro path_of_normals) (simp add: list_all_iff)
qed

lemma key_path_str: "key_parse raw = Inr key \<Longrightarrow> path_str (path_of raw) = raw"
  by (simp add: key_parse_Inr(2))

lemma key_path_inj: "key_parse a = Inr a' \<Longrightarrow> key_parse b = Inr b' \<Longrightarrow> path_of a = path_of b \<Longrightarrow> a = b"
  by (metis key_path_str)

definition key_names :: "string \<Rightarrow> string list" where
  "key_names key = split_on (CHR ''/'') key"

lemma key_names_not_Nil [simp]: "key_names key \<noteq> []"
  by (simp add: key_names_def)

lemma key_path: "key_parse raw = Inr key \<Longrightarrow> path_of raw = map Normal (key_names raw)"
  by (simp add: key_parse_Inr(2) key_names_def)

lemma map_Normal_append_iff:
  "map Normal xs = map Normal ys @ r \<longleftrightarrow> (\<exists>zs. r = map Normal zs \<and> xs = ys @ zs)"
  by (auto simp: map_eq_append_conv)

lemma strict_descendant_iff:
  assumes "key_parse a = Inr a'" "key_parse b = Inr b'"
  shows "is_strict_descendant_of a b \<longleftrightarrow> (\<exists>rest. rest \<noteq> [] \<and> key_names a = key_names b @ rest)"
proof -
  have "is_strict_descendant_of a b \<longleftrightarrow> (\<exists>rest. rest \<noteq> [] \<and> path_of a = path_of b @ rest)"
    by (auto simp: is_strict_descendant_of_def path_strip_prefix_Some split: option.splits)
       (metis option.distinct(1) path_strip_prefix_Some)
  also have "\<dots> \<longleftrightarrow> (\<exists>rest. rest \<noteq> [] \<and> key_names a = key_names b @ rest)"
    unfolding key_path [OF assms(1)] key_path [OF assms(2)] map_Normal_append_iff by auto
  finally show ?thesis .
qed

lemma scoped_blob_key_Inr:
  assumes "scoped_blob_key account raw = Inr key"
  obtains rest where "key = raw" "key_parse account = Inr account" "key_parse raw = Inr raw"
    "rest \<noteq> []" "key_names raw = key_names account @ rest"
proof -
  from assms have p: "key_parse account = Inr account" "key_parse raw = Inr raw" "key = raw"
    "is_strict_descendant_of raw account"
    using key_parse_Inr(1) [of account] key_parse_Inr(1) [of raw]
    by (auto simp: scoped_blob_key_def split: sum.splits if_splits)
  with that show ?thesis by (auto simp: strict_descendant_iff [OF p(2,1)])
qed

text \<open>
  C18. A blob key accepted for an account is a relative path of normal components (no root, no
  \<open>.\<close> or \<open>..\<close>, no empty component) strictly below the account's directory, and the file system
  layer accepts it.
\<close>

theorem scoped_blob_key_confined:
  assumes "scoped_blob_key account raw = Inr key"
  shows "key = raw \<and> list_all normal_name (key_names key) \<and>
    path_of key = map Normal (key_names key) \<and>
    strict_prefix (key_names account) (key_names key) \<and>
    validate_relative (path_of key) s = (Inr (key_names key), s)"
proof -
  from assms obtain rest where k: "key = raw" "key_parse raw = Inr raw" "rest \<noteq> []"
    "key_names raw = key_names account @ rest"
    by (rule scoped_blob_key_Inr)
  moreover have "list_all normal_name (key_names raw)"
    using key_parse_Inr(3) [OF k(2)] by (simp add: key_names_def)
  moreover have "strict_prefix (key_names account) (key_names raw)"
    using k by (simp add: strict_prefix_def)
  moreover have "validate_relative (path_of raw) s = (Inr (key_names raw), s)"
    by (simp add: validate_relative_Inr key_path [OF k(2)])
  ultimately show ?thesis
    using key_path [OF k(2)] k(1) by blast
qed

lemma overlap_False:
  assumes "account_paths_overlap a b = Inr False"
  shows "key_parse a = Inr a" "key_parse b = Inr b" "\<not> prefix (key_names a) (key_names b)"
    "\<not> prefix (key_names b) (key_names a)"
proof -
  from assms show p: "key_parse a = Inr a" "key_parse b = Inr b"
    using key_parse_Inr(1) [of a] key_parse_Inr(1) [of b]
    by (auto simp: account_paths_overlap_def split: sum.splits)
  from assms p have "a \<noteq> b" "\<not> is_strict_descendant_of a b" "\<not> is_strict_descendant_of b a"
    by (auto simp: account_paths_overlap_def)
  then show "\<not> prefix (key_names a) (key_names b)" "\<not> prefix (key_names b) (key_names a)"
    using key_path_inj [OF p] key_path [OF p(1)] key_path [OF p(2)]
    unfolding strict_descendant_iff [OF p] strict_descendant_iff [OF p(2,1)] prefix_def
    by (metis append_Nil2)+
qed

text \<open>
  C19. Accounts whose storage paths do not overlap never share a blob: no key is in scope for both.
\<close>

theorem disjoint_accounts_share_no_key:
  assumes "account_paths_overlap a b = Inr False" "scoped_blob_key a key = Inr k"
  shows "\<exists>e. scoped_blob_key b key = Inl e"
proof (rule ccontr)
  assume "\<not> (\<exists>e. scoped_blob_key b key = Inl e)"
  then obtain k' where "scoped_blob_key b key = Inr k'" by (cases "scoped_blob_key b key") auto
  then obtain rb where "key_names key = key_names b @ rb" by (rule scoped_blob_key_Inr)
  moreover from assms(2) obtain ra where "key_names key = key_names a @ ra" by (rule scoped_blob_key_Inr)
  ultimately have "prefix (key_names a) (key_names key)" "prefix (key_names b) (key_names key)"
    by (metis prefixI)+
  then have "prefix (key_names a) (key_names b) \<or> prefix (key_names b) (key_names a)"
    by (metis prefix_same_cases)
  with overlap_False [OF assms(1)] show False by blast
qed


section \<open>Staging names\<close>

text \<open>What the code relies on of the \<open>uuid\<close> crate, for one value: the hyphenated form and its parser.\<close>

definition uuid_ok :: "externals \<Rightarrow> uuid \<Rightarrow> bool" where
  "uuid_ok X u \<longleftrightarrow> length (uuid_str X u) = 36 \<and> uuid_parse X (uuid_str X u) = Some u \<and>
     list_all (\<lambda>c. is_ascii_hexdigit c \<or> c = CHR ''-'') (uuid_str X u)"

lemma hexdigit_code: "is_ascii_hexdigit c \<Longrightarrow> 48 \<le> code c \<and> code c < 103"
  by (auto simp: is_ascii_hexdigit_def is_ascii_digit_def)

lemma uuid_str_chars:
  assumes "uuid_ok X u" "c \<in> set (uuid_str X u)"
  shows "code c < 128 \<and> c \<noteq> CHR ''/''"
proof -
  have "is_ascii_hexdigit c \<or> c = CHR ''-''"
    using assms by (auto simp: uuid_ok_def list_all_iff)
  then show ?thesis using hexdigit_code [of c] by (auto simp: code_def)
qed

lemma uuid_str_not_Nil: "uuid_ok X u \<Longrightarrow> uuid_str X u \<noteq> []"
  by (auto simp: uuid_ok_def)

definition stage_name :: "externals \<Rightarrow> uuid \<Rightarrow> uuid \<Rightarrow> string" where
  "stage_name X u v = ''commit-'' @ uuid_str X u @ ''-'' @ uuid_str X v @ ''.stage''"

lemma stage_name_normal:
  assumes "uuid_ok X u" "uuid_ok X v" shows "normal_name (stage_name X u v)"
proof -
  have "CHR ''/'' \<notin> set (stage_name X u v)"
    using uuid_str_chars [OF assms(1)] uuid_str_chars [OF assms(2)] by (auto simp: stage_name_def)
  then show ?thesis by (auto simp: normal_name_def stage_name_def)
qed

lemma stage_name_valid:
  assumes "uuid_ok X u" "uuid_ok X v" shows "is_commit_stage_name X (stage_name X u v)"
proof -
  let ?v = "uuid_str X u @ ''-'' @ uuid_str X v"
  have len: "length (uuid_str X u) = 36" "length (uuid_str X v) = 36"
    using assms by (auto simp: uuid_ok_def)
  have name: "stage_name X u v = ''commit-'' @ ?v @ ''.stage''"
    by (simp add: stage_name_def)
  have "Option.bind (strip_prefix ''commit-'' (stage_name X u v)) (strip_suffix ''.stage'') = Some ?v"
    unfolding name strip_prefix_append by (simp only: bind.bind_lunit strip_suffix_append)
  moreover have "is_ascii ?v"
    using uuid_str_chars [OF assms(1)] uuid_str_chars [OF assms(2)] by (auto simp: is_ascii_def code_def)
  moreover have "take 36 ?v = uuid_str X u" "drop 37 ?v = uuid_str X v" "?v ! 36 = CHR ''-''"
    using len by (simp_all add: nth_append)
  ultimately show ?thesis
    using assms len by (simp add: is_commit_stage_name_def uuid_ok_def)
qed

lemma commit_stage_key_Inr:
  assumes "commit_stage_key X account u raw = Inr key"
  obtains name where "key = raw" "key_parse account = Inr account" "key_parse raw = Inr raw"
    "key_names raw = key_names account @ [''staging'', name]"
    "starts_with (''commit-'' @ uuid_str X u @ ''-'') name" "is_commit_stage_name X name"
proof -
  from assms have p: "key_parse account = Inr account" "key_parse raw = Inr raw" "key = raw"
    using key_parse_Inr(1) [of account] key_parse_Inr(1) [of raw]
    by (auto simp: commit_stage_key_def Let_def split: sum.splits if_splits option.splits)
  have staging: "path_of ''staging'' = [Normal ''staging'']"
    by (rule path_of_name) (simp add: normal_name_def)
  from assms p obtain name where name: "path_file_name (path_of raw) = Some name"
    "path_parent (path_of raw) = Some (path_join (path_of account) (path_of ''staging''))"
    "starts_with (''commit-'' @ uuid_str X u @ ''-'') name" "is_commit_stage_name X name"
    by (auto simp: commit_stage_key_def Let_def split: option.splits if_splits)
  from name(1,2) have "last (key_names raw) = name" "butlast (key_names raw) = key_names account @ [''staging'']"
    unfolding key_path [OF p(1)] key_path [OF p(2)] staging path_join_normals
    by (auto simp only: path_file_name_normals path_parent_normals key_names_not_Nil if_False option.inject map_Normal_eq)
  then have "key_names raw = key_names account @ [''staging'', name]"
    using append_butlast_last_id [OF key_names_not_Nil, of raw] by simp
  with p name that show ?thesis by blast
qed

lemma path_to_key_Inr: "path_to_key p = Inr k \<Longrightarrow> k = path_str p \<and> key_parse k = Inr k"
  using key_parse_Inr(1) by (fastforce simp: path_to_key_def split: if_splits sum.splits)

lemma key_names_join:
  assumes "ns \<noteq> []" "list_all normal_name ns"
  shows "key_names (join_with (CHR ''/'') ns) = ns"
  unfolding key_names_def
  by (rule split_join) (use assms in \<open>auto simp: list_all_iff normal_name_def\<close>)

lemma hex_normal:
  assumes "list_all is_ascii_hexdigit h" "h \<noteq> []" shows "normal_name h"
proof -
  have "\<not> is_ascii_hexdigit (CHR ''.'')" "\<not> is_ascii_hexdigit (CHR ''/'')"
    by (simp_all add: is_ascii_hexdigit_def is_ascii_digit_def code_def)
  with assms show ?thesis by (auto simp: normal_name_def list_all_iff)
qed

lemma hex_lower: "list_all is_ascii_hexdigit h \<Longrightarrow> list_all is_ascii_hexdigit (to_ascii_lowercase h)"
  by (auto simp: to_ascii_lowercase_def list_all_iff to_ascii_lower_def is_ascii_hexdigit_def is_ascii_upper_def
      is_ascii_digit_def code_def of_char_of)

lemma commit_keys_final:
  assumes keys: "commit_keys X v account u hash = Inr ks"
  shows "key_parse account = Inr account" "list_all is_ascii_hexdigit hash" "length hash = 64"
    "key_parse (ck_final_blob ks) = Inr (ck_final_blob ks)"
    "key_names (ck_final_blob ks) =
       key_names account @ [''objects'', take 2 hash, to_ascii_lowercase hash]"
    "path_to_key (path_join (path_join (path_of account) (path_of ''staging'')) (path_of (stage_name X u v)))
       = Inr (ck_staged ks)"
proof -
  from keys show hash: "list_all is_ascii_hexdigit hash" "length hash = 64"
    by (auto simp: commit_keys_def split: if_splits)
  from keys show acc: "key_parse account = Inr account"
    using key_parse_Inr(1) [of account]
    by (auto simp: commit_keys_def split: if_splits sum.splits)
  have names: "list_all normal_name (key_names account)"
    using key_parse_Inr(3) [OF acc] by (simp add: key_names_def)
  have n1: "normal_name ''objects''" by (simp add: normal_name_def)
  have "list_all is_ascii_hexdigit (take 2 hash)"
    using hash(1) by (auto simp: list_all_iff dest: in_set_takeD)
  then have n2: "normal_name (take 2 hash)" using hash(2) by (intro hex_normal) auto
  have n3: "normal_name (to_ascii_lowercase hash)"
    using hash hex_lower by (intro hex_normal) (auto simp: to_ascii_lowercase_def)
  let ?fp = "map Normal (key_names account @ [''objects'', take 2 hash, to_ascii_lowercase hash])"
  have path: "path_join (path_join (path_join (path_of account) (path_of ''objects'')) (path_of (take 2 hash)))
       (path_of (to_ascii_lowercase hash)) = ?fp"
    unfolding key_path [OF acc] path_of_name [OF n1] path_of_name [OF n2]
      path_of_name [OF n3] path_join_normals by simp
  from keys [unfolded commit_keys_def Let_def stage_name_def [symmetric]] hash acc
  have k: "path_to_key (path_join (path_join (path_of account) (path_of ''staging'')) (path_of (stage_name X u v)))
      = Inr (ck_staged ks)"
    "path_to_key (path_join (path_join (path_join (path_of account) (path_of ''objects'')) (path_of (take 2 hash)))
       (path_of (to_ascii_lowercase hash))) = Inr (ck_final_blob ks)"
    by (auto split: if_splits sum.splits)
  show "path_to_key (path_join (path_join (path_of account) (path_of ''staging'')) (path_of (stage_name X u v)))
      = Inr (ck_staged ks)" by (rule k(1))
  note f = path_to_key_Inr [OF k(2) [unfolded path]]
  show "key_parse (ck_final_blob ks) = Inr (ck_final_blob ks)" by (rule f [THEN conjunct2])
  show "key_names (ck_final_blob ks) = key_names account @ [''objects'', take 2 hash, to_ascii_lowercase hash]"
    unfolding f [THEN conjunct1] path_str_normals
    by (rule key_names_join) (use names n1 n2 n3 in simp_all)
qed

lemma commit_keys_names:
  assumes keys: "commit_keys X v account u hash = Inr ks" and ids: "uuid_ok X u" "uuid_ok X v"
  shows "key_parse account = Inr account" "key_parse (ck_staged ks) = Inr (ck_staged ks)"
    "key_parse (ck_final_blob ks) = Inr (ck_final_blob ks)"
    "key_names (ck_staged ks) = key_names account @ [''staging'', stage_name X u v]"
    "key_names (ck_final_blob ks) =
       key_names account @ [''objects'', take 2 hash, to_ascii_lowercase hash]"
proof -
  note final_blob = commit_keys_final [OF keys]
  show acc: "key_parse account = Inr account" by (rule final_blob)
  show "key_parse (ck_final_blob ks) = Inr (ck_final_blob ks)"
    "key_names (ck_final_blob ks) = key_names account @ [''objects'', take 2 hash, to_ascii_lowercase hash]"
    by (rule final_blob)+
  have names: "list_all normal_name (key_names account)"
    using key_parse_Inr(3) [OF acc] by (simp add: key_names_def)
  have n1: "normal_name ''staging''" by (simp add: normal_name_def)
  note n2 = stage_name_normal [OF ids]
  let ?sp = "map Normal (key_names account @ [''staging'', stage_name X u v])"
  have path: "path_join (path_join (path_of account) (path_of ''staging'')) (path_of (stage_name X u v)) = ?sp"
    unfolding key_path [OF acc] path_of_name [OF n1] path_of_name [OF n2] path_join_normals by simp
  note s = path_to_key_Inr [OF final_blob(6) [unfolded path]]
  show "key_parse (ck_staged ks) = Inr (ck_staged ks)" by (rule s [THEN conjunct2])
  show "key_names (ck_staged ks) = key_names account @ [''staging'', stage_name X u v]"
    unfolding s [THEN conjunct1] path_str_normals
    by (rule key_names_join) (use names n1 n2 in simp_all)
qed

lemma commit_stage_key_intro:
  assumes "key_parse account = Inr account" "key_parse raw = Inr raw"
    "key_names raw = key_names account @ [''staging'', name]"
    "starts_with (''commit-'' @ uuid_str X u @ ''-'') name" "is_commit_stage_name X name"
  shows "commit_stage_key X account u raw = Inr raw"
proof -
  have staging: "path_of ''staging'' = [Normal ''staging'']"
    by (rule path_of_name) (simp add: normal_name_def)
  have "path_file_name (path_of raw) = Some name"
    "path_parent (path_of raw) = Some (path_join (path_of account) (path_of ''staging''))"
    unfolding key_path [OF assms(1)] key_path [OF assms(2)] staging path_join_normals assms(3)
    by (simp_all only: path_file_name_normals path_parent_normals) (simp_all add: butlast_append)
  with assms show ?thesis by (simp add: commit_stage_key_def Let_def)
qed

lemma starts_with_stage_name: "starts_with (''commit-'' @ uuid_str X u @ ''-'') (stage_name X u v)"
  by (simp add: starts_with_iff stage_name_def)

lemma stage_name_upload:
  assumes "starts_with (''commit-'' @ uuid_str X w @ ''-'') (stage_name X u v)" "uuid_ok X w" "uuid_ok X u"
  shows "w = u"
proof -
  from assms(1) obtain r where "stage_name X u v = (''commit-'' @ uuid_str X w @ ''-'') @ r"
    by (auto simp: starts_with_iff)
  then have "uuid_str X u @ (''-'' @ uuid_str X v @ ''.stage'') = uuid_str X w @ (''-'' @ r)"
    by (simp add: stage_name_def)
  moreover have "length (uuid_str X u) = length (uuid_str X w)"
    using assms by (simp add: uuid_ok_def)
  ultimately have "uuid_str X u = uuid_str X w" by (metis append_eq_append_conv)
  then show ?thesis using assms(2,3) by (auto simp: uuid_ok_def)
qed

lemma scoped_blob_key_intro:
  assumes "key_parse account = Inr account" "key_parse raw = Inr raw"
    "key_names raw = key_names account @ rest" "rest \<noteq> []"
  shows "scoped_blob_key account raw = Inr raw"
  using assms strict_descendant_iff [OF assms(2,1)] by (auto simp: scoped_blob_key_def)

text \<open>
  C20. The keys made for a commit are accepted wherever the commit uses them: the stage key as a
  stage of that upload (and of no other upload), the final key as a blob of the account.
\<close>

theorem commit_keys_accepted:
  assumes "commit_keys X v account u hash = Inr ks" "uuid_ok X u" "uuid_ok X v" "uuid_ok X w"
  shows "commit_stage_key X account u (ck_staged ks) = Inr (ck_staged ks) \<and>
    scoped_blob_key account (ck_final_blob ks) = Inr (ck_final_blob ks) \<and>
    (commit_stage_key X account w (ck_staged ks) = Inr (ck_staged ks) \<longrightarrow> w = u)"
proof -
  note names = commit_keys_names [OF assms(1-3)]
  have "commit_stage_key X account u (ck_staged ks) = Inr (ck_staged ks)"
    by (rule commit_stage_key_intro [OF names(1,2,4) starts_with_stage_name stage_name_valid [OF assms(2,3)]])
  moreover have "scoped_blob_key account (ck_final_blob ks) = Inr (ck_final_blob ks)"
    by (rule scoped_blob_key_intro [OF names(1,3,5)]) simp
  moreover have "w = u" if "commit_stage_key X account w (ck_staged ks) = Inr (ck_staged ks)"
  proof -
    from that obtain name where "key_names (ck_staged ks) = key_names account @ [''staging'', name]"
      "starts_with (''commit-'' @ uuid_str X w @ ''-'') name"
      by (rule commit_stage_key_Inr)
    with names(4) have "starts_with (''commit-'' @ uuid_str X w @ ''-'') (stage_name X u v)" by simp
    then show ?thesis using assms(4,2) by (rule stage_name_upload)
  qed
  ultimately show ?thesis by blast
qed

text \<open>A concrete instance of the external crates, for the examples.\<close>

definition pad :: "nat \<Rightarrow> string \<Rightarrow> string" where
  "pad n s = replicate (n - length s) (CHR ''0'') @ s"

definition sample :: externals where
  "sample = \<lparr>blake3_hex = (\<lambda>bs. pad 64 (show_nat (length bs * 1000000 + sum_list (map unat bs)))),
     uuid_str = (\<lambda>u. pad 36 (show_nat (unat u))),
     uuid_parse = (\<lambda>s. if length s = 36 \<and> list_all is_ascii_digit s then Some (word_of_nat (dec_value s)) else None)\<rparr>"

lemma pad_digits: "list_all is_ascii_digit (pad n (show_nat k))"
  using show_nat_digits by (auto simp: pad_def list_all_iff is_ascii_digit_def code_def)

lemma sample_uuid: "length (show_nat (unat u)) \<le> 36 \<Longrightarrow> uuid_ok sample u"
  using pad_digits [of 36 "unat u"]
  by (auto simp: uuid_ok_def sample_def pad_def dec_value_zeros dec_value_show_nat list_all_iff
      is_ascii_hexdigit_def)

lemma sample_uuid_ok: "uuid_ok sample 7" "uuid_ok sample 8" "uuid_ok sample 9"
  by (simp_all add: sample_uuid show_nat.simps)

definition sample_commit :: "app_error + commit_key_pair" where
  "sample_commit = commit_keys sample 8 ''a'' 7 (pad 64 ''ab'')"

lemma sample_keys: "commit_keys sample 8 ''a'' 7 (pad 64 ''ab'') = Inr (projr sample_commit)"
proof -
  have "\<not> isl sample_commit" by code_simp
  then show ?thesis by (cases sample_commit) (simp_all add: sample_commit_def)
qed

lemma commit_keys_accepted_witness:
  "commit_stage_key sample ''a'' 7 (ck_staged (projr sample_commit)) = Inr (ck_staged (projr sample_commit))"
  using commit_keys_accepted [OF sample_keys sample_uuid_ok] by blast

lemma sample_scoped: "scoped_blob_key ''a'' ''a/objects/00/x'' = Inr ''a/objects/00/x''"
  by code_simp

lemma scoped_blob_key_confined_witness:
  "strict_prefix (key_names ''a'') (key_names ''a/objects/00/x'')"
  using scoped_blob_key_confined [OF sample_scoped] by simp

lemma sample_disjoint: "account_paths_overlap ''a'' ''b'' = Inr False"
  by code_simp

lemma disjoint_accounts_share_no_key_witness:
  "\<exists>e. scoped_blob_key ''b'' ''a/objects/00/x'' = Inl e"
  by (rule disjoint_accounts_share_no_key [OF sample_disjoint sample_scoped])


section \<open>Stored content\<close>

text \<open>A regular file of the given size and hash is at the given name.\<close>

definition holds :: "externals \<Rightarrow> fs \<Rightarrow> string list \<Rightarrow> u64 \<Rightarrow> string \<Rightarrow> bool" where
  "holds X s p sz hash \<longleftrightarrow> (case look s p of
     Some (Reg i) \<Rightarrow> length (fs_data s i) = unat sz \<and> blake3_hex X (fs_data s i) = hash
   | _ \<Rightarrow> False)"

lemma holds_quiet: "quiet s t \<Longrightarrow> holds X t p sz hash = holds X s p sz hash"
  by (simp add: holds_def quiet_sels split: option.splits node.splits)

lemma lift_io_Inr [simp]: "lift_io m s = (Inr x, t) \<longleftrightarrow> m s = (Inr x, t)"
  by (simp add: lift_io_def)

lemma lift_io_keeps [obeys_intros]: "obeys (keeps N P) m \<Longrightarrow> obeys (keeps N P) (lift_io m)"
  by (simp add: lift_io_def keeps.obeys_map_err)

lemma lift_io_quiet [quiet_intros]: "obeys quiet m \<Longrightarrow> obeys quiet (lift_io m)"
  by (simp add: lift_io_def quiet.obeys_map_err)

lemma match_body_quiet: "obeys quiet (match_body sz c a)"
  by (cases a) (auto simp: match_body_def Let_def intro!: quiet.obeys_rules)

lemma existing_file_matches_quiet [quiet_intros]: "obeys quiet (existing_file_matches X p sz hash)"
  unfolding existing_file_matches_def
  by (auto intro!: quiet.obeys_rules quiet_intros read_loop_quiet match_body_quiet split: sum.splits)

lemma BUFFER_pos: "0 < BUFFER"
  by (simp add: BUFFER_def)

lemma match_loop_content:
  assumes "read_loop io BUFFER (match_body sz) rest (0, []) s = (Inr (Inr (tot, hashed)), t)"
  shows "hashed = rest \<and> unat tot = min (length rest) u64_max"
proof -
  let ?I = "\<lambda>xs acc (u :: fs). snd acc = xs \<and> unat (fst acc) = min (length xs) u64_max"
  have "?I ([] @ rest) (tot, hashed) t"
  proof (rule read_loop_invariant [OF assms _ BUFFER_pos])
    fix xs c :: bytes and a a' :: "u64 \<times> bytes" and u v :: fs
    assume "?I xs a u" "c \<noteq> []" "match_body sz c a u = (Inr (Inr a'), v)"
    then show "?I (xs @ c) a' v"
      by (cases a) (auto simp: match_body_def Let_def ret_def unat_saturating_add unat_u64_of_len_min
          split: if_splits)
  qed auto
  then show ?thesis by simp
qed

lemma match_loop_early:
  assumes "read_loop io BUFFER (match_body sz) rest acc s = (Inr (Inl early), t)"
  shows "early = Some False"
  using assms
proof (rule read_loop_early)
  fix c a u x v
  assume "match_body sz c a u = (Inr (Inl x), v)"
  then show "x = Some False" by (cases a) (auto simp: match_body_def Let_def ret_def split: if_splits)
qed

lemma existing_file_matches_result:
  assumes "existing_file_matches X p sz hash s = (Inr (Some b), t)" "unat sz < u64_max"
  obtains ns where "p = map Normal ns" "ns \<noteq> []" "look s ns \<noteq> None" "b \<longrightarrow> holds X s ns sz hash"
proof -
  from assms(1) obtain i u where r: "open_read p s = (Inr i, u)"
    and rest: "bindE (read_loop (\<lambda>_. storage_error) BUFFER (match_body sz) (fs_data u i) (0, [])) (\<lambda>q. case q of
           Inl early \<Rightarrow> ret early
         | Inr (tot, hashed) \<Rightarrow> ret (Some (tot = sz \<and> blake3_hex X hashed = hash))) u = (Inr (Some b), t)"
    by (cases "open_read p s"; cases "fst (open_read p s)")
       (auto simp: existing_file_matches_def bindE_def attempt_run ret_def fail_def gets_def split: if_splits)
  from r obtain ns where ns: "p = map Normal ns" "ns \<noteq> []" "look s ns = Some (Reg i)" "quiet s u"
    by (rule open_read_Inr)
  from rest obtain q v where loop: "read_loop (\<lambda>_. storage_error) BUFFER (match_body sz) (fs_data u i) (0, []) u = (Inr q, v)"
    and q: "(case q of Inl early \<Rightarrow> ret early
         | Inr (tot, hashed) \<Rightarrow> ret (Some (tot = sz \<and> blake3_hex X hashed = hash))) v
        = (Inr (Some b) :: app_error + bool option, t)"
    unfolding bindE_Inr_iff by blast
  have "b \<longrightarrow> holds X s ns sz hash"
  proof (cases q)
    case (Inl early)
    have "early = Some False"
      using loop unfolding Inl by (rule match_loop_early)
    with q Inl show ?thesis by (simp add: ret_def)
  next
    case (Inr th)
    obtain tot hashed where th: "th = (tot, hashed)" by fastforce
    from match_loop_content [OF loop [unfolded Inr th]]
    have c: "hashed = fs_data u i" "unat tot = min (length (fs_data u i)) u64_max" by auto
    from q Inr th have "b = (tot = sz \<and> blake3_hex X hashed = hash)" by (simp add: ret_def)
    with c ns assms(2) show ?thesis by (auto simp: holds_def quiet_sels)
  qed
  with ns that show ?thesis by auto
qed


section \<open>Storing a part\<close>

fun frame_bytes :: "frame list \<Rightarrow> bytes" where
  "frame_bytes [] = []"
| "frame_bytes (Data c # fs) = c @ frame_bytes fs"
| "frame_bytes (_ # fs) = frame_bytes fs"

lemma sys_write_Inr:
  "sys_write f c s = (Inr (), t) \<Longrightarrow> quiet (set_data f (fs_data s f @ c) s) t"
  by (auto simp: sys_write_def Let_def set_data_def quiet_def split: if_splits
      intro!: exI [of _ "Suc (fs_tick s)"])

lemma set_data_tick: "set_data i b (s\<lparr>fs_tick := k\<rparr>) = (set_data i b s)\<lparr>fs_tick := k\<rparr>"
  by (simp add: set_data_def)

lemma set_data_set_data [simp]: "set_data i b (set_data i c s) = set_data i b s"
  by (simp add: set_data_def)

lemma set_data_id: "set_data i (fs_data s i) s = s"
  by (simp add: set_data_def)

lemma set_data_quiet: "quiet s t \<Longrightarrow> quiet (set_data i b s) (set_data i b t)"
  by (auto simp: quiet_def set_data_tick)

lemma write_frames_Inr:
  assumes "write_frames spec limit f body tot h s = (Inr (tot', h'), t)" "unat tot = length h"
  shows "h' = h @ frame_bytes body \<and> unat tot' = length h'
    \<and> quiet (set_data f (fs_data s f @ frame_bytes body) s) t"
  using assms
proof (induction spec limit f body tot h arbitrary: s rule: write_frames.induct)
  case (1 spec limit f tot h)
  then show ?case by (auto simp: ret_def set_data_id)
next
  case (4 spec limit f c fs tot h)
  then obtain tot2 u where len: "length c \<le> u64_max" and add: "checked_add_u64 tot (u64_of_len (length c)) = Some tot2"
    and ok: "\<not> limit < tot2" "\<not> part_size spec < tot2"
    and w: "sys_write f c s = (Inr (), u)" and rec: "write_frames spec limit f fs tot2 (h @ c) u = (Inr (tot', h'), t)"
    by (auto simp: bindE_Inr_iff fail_def not_less split: if_splits option.splits)
  have tot2: "unat tot2 = length (h @ c)"
    using add len "4.prems"(2) by (simp add: checked_add_u64_Some unat_u64_of_len)
  have IH: "h' = (h @ c) @ frame_bytes fs \<and> unat tot' = length h'
      \<and> quiet (set_data f (fs_data u f @ frame_bytes fs) u) t"
    using "4.IH" [of tot2 u] len add ok rec tot2 by (simp add: not_less)
  have u: "quiet (set_data f (fs_data s f @ c) s) u" by (rule sys_write_Inr [OF w])
  have "quiet (set_data f ((fs_data s f @ c) @ frame_bytes fs) s) t"
    using set_data_quiet [OF u, of f "fs_data u f @ frame_bytes fs"] quiet_sels(3) [OF u] IH
    by (simp add: quiet_trans)
  with IH show ?case by simp
qed (auto simp: fail_def)

lemma write_part_Inr:
  assumes "write_part X spec limit f body s = (Inr (), t)" "fs_data s f = []"
  shows "fs_data t f = frame_bytes body" "length (frame_bytes body) = unat (part_size spec)"
    "blake3_hex X (frame_bytes body) = part_blake3 spec" "look t p = look s p"
proof -
  from assms(1) obtain tot h u where w: "write_frames spec limit f body 0 [] s = (Inr (tot, h), u)"
    and c: "tot = part_size spec" "blake3_hex X h = part_blake3 spec" and f: "sys_fsync u = (Inr (), t)"
    by (auto simp: write_part_def bindE_Inr_iff fail_def split: if_splits)
  from write_frames_Inr [OF w] have h: "h = frame_bytes body" "unat tot = length h"
    "quiet (set_data f (fs_data s f @ frame_bytes body) s) u" by auto
  have t: "quiet (set_data f (fs_data s f @ frame_bytes body) s) t"
    using h(3) obeysD [OF sys_quiet(3) f] by (rule quiet_trans)
  from t assms(2) show "fs_data t f = frame_bytes body" by (simp add: quiet_sels)
  from t show "look t p = look s p" by (simp add: quiet_sels)
  from h c show "length (frame_bytes body) = unat (part_size spec)" "blake3_hex X (frame_bytes body) = part_blake3 spec"
    by auto
qed

lemma write_frames_keeps: "N \<le> f \<Longrightarrow> obeys (keeps N P) (write_frames spec limit f body tot h)"
proof (induction spec limit f body tot h rule: write_frames.induct)
  case (4 spec limit f c fs tot h)
  then show ?case
    by (auto intro!: keeps.obeys_rules lift_io_keeps sys_write_keeps split: option.split)
qed (auto intro!: keeps.obeys_rules)

lemma write_part_keeps: "N \<le> f \<Longrightarrow> obeys (keeps N P) (write_part X spec limit f body)"
  unfolding write_part_def
  by (auto intro!: keeps.obeys_rules write_frames_keeps lift_io_keeps sys_keeps)

lemma temp_keeps:
  assumes "names \<in> P"
  shows "obeys (keeps N P) (temp_remove (map Normal names))" "obeys (keeps N P) (temp_drop (map Normal names))"
    "obeys (keeps N P) (cleanup_best_effort_then_drop (map Normal names))"
    "obeys (keeps N P) m \<Longrightarrow> obeys (keeps N P) (guarded (map Normal names) m)"
  unfolding cleanup_best_effort_then_drop_def guarded_def temp_remove_def temp_drop_def
  by (auto intro!: keeps.obeys_rules lift_io_keeps remove_file_keeps assms split: sum.split)

lemma existing_keeps [obeys_intros]:
  "obeys (keeps N P) (existing_file_matches X p sz hash)" "obeys (keeps N P) (existing_part_matches X p spec)"
  unfolding existing_part_matches_def
  by (auto simp: obeys_def intro!: quiet_keeps existing_file_matches_quiet [unfolded obeys_def, rule_format])


lemma keeps_fresh: "keeps N {ns} s t \<Longrightarrow> look s ns = None \<Longrightarrow> keeps N {} s t"
  by (simp add: keeps_def) (metis option.distinct(1))

lemma create_new_then_keeps:
  assumes run: "bindE (lift_io (create_new p)) f s = (r, t)" and N: "N \<le> fs_next s"
    and f: "\<And>names i. p = map Normal names \<Longrightarrow> N \<le> i \<Longrightarrow> obeys (keeps N {names}) (f i)"
  shows "keeps N {} s t"
proof -
  obtain q u where c: "lift_io (create_new p) s = (q, u)" by fastforce
  have su: "keeps N {} s u" by (rule obeysD [OF lift_io_keeps [OF rooted_keeps(2)] c])
  show ?thesis
  proof (cases q)
    case (Inl e)
    with run c su show ?thesis by (simp add: bindE_def)
  next
    case (Inr i)
    with c have "create_new p s = (Inr i, u)" by simp
    then obtain ns where ns: "p = map Normal ns" "look s ns = None" "fs_next s \<le> i"
      by (rule create_new_Inr)
    from run c Inr have "f i u = (r, t)" by (simp add: bindE_def)
    moreover have "N \<le> i" using N ns(3) by simp
    ultimately have ut: "keeps N {ns} u t" using f [OF ns(1)] by (blast dest: obeysD)
    have "keeps N {ns} s t" using keeps_mono [OF su] ut by (auto intro: keeps.R_trans)
    then show ?thesis using ns(2) by (rule keeps_fresh)
  qed
qed

lemma keeps_widen: "keeps N {} s t \<Longrightarrow> keeps N P s t"
  by (rule keeps_mono) auto

lemma publish_part_keeps:
  assumes "N \<le> i"
  shows "obeys (keeps N {names}) (publish_part X spec (map Normal names) fp body limit i)"
  unfolding publish_part_def
  by (intro keeps.obeys_rules temp_keeps lift_io_keeps link_no_replace_keeps existing_keeps
      write_part_keeps assms singletonI)

lemma put_part_keeps:
  assumes "put_part X rid u spec body limit s = (r, t)"
  shows "keeps (fs_next s) {} s t"
proof -
  let ?tmp = "part_temporary_path X u (part_index spec) rid"
  obtain q v where d: "lift_io (ensure_dir (upload_dir X u)) s = (q, v)" by fastforce
  have sv: "keeps (fs_next s) {} s v" by (rule obeysD [OF lift_io_keeps [OF rooted_keeps(1)] d])
  show ?thesis
  proof (cases q)
    case (Inl e)
    with assms d sv show ?thesis by (simp add: put_part_def Let_def bindE_def)
  next
    case (Inr x)
    from assms d Inr have run: "bindE (lift_io (create_new ?tmp))
        (publish_part X spec ?tmp (part_path X u (part_index spec)) body limit) v = (r, t)"
      by (simp add: put_part_def Let_def bindE_def)
    have "keeps (fs_next s) {} v t"
      by (rule create_new_then_keeps [OF run]) (use keeps_next [OF sv] in \<open>auto intro: publish_part_keeps\<close>)
    with sv show ?thesis by (rule keeps.R_trans)
  qed
qed

lemma guarded_Inr: "guarded p m s = (Inr x, t) \<longleftrightarrow> m s = (Inr x, t)"
  by (auto simp: guarded_def bindE_Inr_iff attempt_run ret_def fail_def split: sum.splits)
     (metis prod.collapse)

lemma temp_remove_Inr: "temp_remove p s = (Inr x, t) \<Longrightarrow> \<exists>b. remove_file p s = (Inr b, t)"
  by (auto simp: temp_remove_def bindE_Inr_iff ret_def)

text \<open>
  A removal that reports success only unbinds the removed name; other names and all contents stay.
\<close>

lemma remove_file_Inr:
  assumes "remove_file (map Normal ns) s = (Inr b, t)"
  shows "fs_data t = fs_data s \<and> (\<forall>q. q \<noteq> ns \<longrightarrow> look t q = look s q)"
  using outcomeD [OF remove_file_outcome assms]
  by (auto simp: removal_def quiet_sels look_drop_node)

lemma holds_by:
  "look t p = look s p \<Longrightarrow> fs_data t = fs_data s \<Longrightarrow> holds X t p sz h = holds X s p sz h"
  by (simp add: holds_def split: option.splits node.splits)

lemma publish_part_Inr:
  assumes run: "publish_part X spec (map Normal tn) fp body limit i s = (Inr (), t)"
    and i: "look s tn = Some (Reg i)" "fs_data s i = []" and size: "unat (part_size spec) < u64_max"
    and fp: "fp = map Normal fn" "fn \<noteq> tn"
  shows "holds X t fn (part_size spec) (part_blake3 spec)"
proof -
  from run obtain u where w: "write_part X spec (u64_of_len limit) i body s = (Inr (), u)"
    and run: "bindE (guarded (map Normal tn) (lift_io (link_no_replace (map Normal tn) fp))) (\<lambda>linked.
         if linked then guarded (map Normal tn) (temp_remove (map Normal tn))
         else
           bindE (attempt (existing_part_matches X fp spec)) (\<lambda>existing.
           bindE (guarded (map Normal tn) (temp_remove (map Normal tn))) (\<lambda>_.
           bindE (of_result existing) (\<lambda>m. case m of
             Some True \<Rightarrow> ret ()
           | _ \<Rightarrow> fail part_conflict)))) u = (Inr (), t)"
    by (cases "write_part X spec (u64_of_len limit) i body s"; cases "fst (write_part X spec (u64_of_len limit) i body s)")
       (auto simp: publish_part_def bindE_def attempt_def fail_def split: prod.splits sum.splits)
  have tn: "look u tn = Some (Reg i)" using write_part_Inr(4) [OF w i(2)] i(1) by simp
  from run obtain linked v where l: "link_no_replace (map Normal tn) fp u = (Inr linked, v)"
    and rest: "(if linked then guarded (map Normal tn) (temp_remove (map Normal tn))
         else
           bindE (attempt (existing_part_matches X fp spec)) (\<lambda>existing.
           bindE (guarded (map Normal tn) (temp_remove (map Normal tn))) (\<lambda>_.
           bindE (of_result existing) (\<lambda>m. case m of
             Some True \<Rightarrow> ret ()
           | _ \<Rightarrow> fail part_conflict)))) v = (Inr (), t)"
    unfolding bindE_Inr_iff guarded_Inr lift_io_Inr by blast
  from outcomeD [OF link_no_replace_outcome l] have pub: "publication (map Normal tn) fp u (Inr linked) v" .
  show ?thesis
  proof (cases linked)
    case True
    with pub fp tn have v: "look u fn = None" "quiet (put_node fn (Reg i) u) v"
      by (auto simp: publication_def)
    then have "look v fn = Some (Reg i)" "fs_data v = fs_data u"
      using fp by (auto simp: quiet_sels look_put_node)
    then have "holds X v fn (part_size spec) (part_blake3 spec)"
      using write_part_Inr [OF w i(2)] by (simp add: holds_def)
    moreover from rest True obtain b where "remove_file (map Normal tn) v = (Inr b, t)"
      by (auto simp: guarded_Inr dest: temp_remove_Inr)
    ultimately show ?thesis
      using remove_file_Inr [of tn v b t] fp(2) by (metis holds_by)
  next
    case False
    with rest obtain x y where e: "existing_file_matches X fp (part_size spec) (part_blake3 spec) v = (Inr (Some True), x)"
      and c: "temp_remove (map Normal tn) x = (Inr (), y)" and t: "t = y"
      by (auto simp: bindE_Inr_iff attempt_Inr guarded_Inr of_result_Inr existing_part_matches_def
          ret_def fail_def split: option.splits bool.splits)
    from e size obtain ns where "fp = map Normal ns" "holds X v ns (part_size spec) (part_blake3 spec)"
      by (rule existing_file_matches_result) auto
    then have "holds X x fn (part_size spec) (part_blake3 spec)"
      using holds_quiet [OF obeysD [OF existing_file_matches_quiet e]] fp by simp
    moreover from c obtain b where "remove_file (map Normal tn) x = (Inr b, y)"
      by (auto dest: temp_remove_Inr)
    ultimately show ?thesis
      using remove_file_Inr [of tn x b y] fp(2) t by (metis holds_by)
  qed
qed

lemma uuid_normal: "uuid_ok X u \<Longrightarrow> normal_name (uuid_str X u)"
  using uuid_str_chars [of X u] by (auto simp: normal_name_def uuid_ok_def)

lemma part_name_normal: "normal_name (fmt08 n @ ''.part'')"
  using fmt08_digits [of "CHR ''/''" n] fmt08_digits [of "CHR ''.''" n] fmt08_not_Nil [of n]
  by (cases "fmt08 n") (auto simp: normal_name_def is_ascii_digit_def code_def)

lemma upload_dir_names:
  assumes "uuid_ok X u" shows "upload_dir X u = map Normal [''uploads'', uuid_str X u]"
proof -
  have "path_of ''uploads'' = map Normal [''uploads'']"
    by (subst path_of_name) (simp_all add: normal_name_def)
  then show ?thesis
    unfolding upload_dir_def path_of_name [OF uuid_normal [OF assms]]
    using path_join_normals [of "[''uploads'']" "uuid_str X u"] by simp
qed

definition part_names :: "externals \<Rightarrow> uuid \<Rightarrow> u32 \<Rightarrow> string list" where
  "part_names X u i = [''uploads'', uuid_str X u, fmt08 (unat i) @ ''.part'']"

lemma part_path_names:
  assumes "uuid_ok X u" shows "part_path X u i = map Normal (part_names X u i)"
  unfolding part_path_def upload_dir_names [OF assms] path_of_name [OF part_name_normal] path_join_normals
  by (simp add: part_names_def)

lemma part_names_inj:
  assumes "part_names X u i = part_names X w j" "uuid_ok X u" "uuid_ok X w"
  shows "u = w \<and> i = j"
proof -
  have "fmt08 (unat i) = fmt08 (unat j)" using assms(1) by (simp add: part_names_def)
  then have "unat i = unat j" by (rule fmt08_inj)
  then have "i = j" by (simp add: word_unat_eq_iff)
  then show ?thesis using assms by (auto simp: part_names_def uuid_ok_def)
qed

lemma temporary_names:
  assumes "uuid_ok X u" "uuid_ok X v"
  shows "\<exists>n. part_temporary_path X u i v = map Normal [''uploads'', uuid_str X u, CHR ''.'' # n]"
proof -
  have "normal_name (''.'' @ fmt08 (unat i) @ ''.'' @ uuid_str X v @ ''.tmp'')"
    using uuid_str_chars [OF assms(2)] fmt08_digits [of "CHR ''/''" "unat i"]
    by (auto simp: normal_name_def is_ascii_digit_def code_def)
  from path_of_name [OF this] show ?thesis
    unfolding part_temporary_path_def upload_dir_names [OF assms(1)] by (simp add: path_join_def is_absolute_def)
qed

text \<open>
  C4. A part upload that reports success has left a file of exactly the declared size and BLAKE3 hash
  under the part's name, whether it was just published or was already there.
\<close>

theorem put_part_stores:
  assumes run: "put_part X rid u spec body limit s = (Inr (), t)"
    and ids: "uuid_ok X u" "uuid_ok X rid" and size: "unat (part_size spec) < u64_max"
  shows "holds X t (part_names X u (part_index spec)) (part_size spec) (part_blake3 spec)"
proof -
  let ?tmp = "part_temporary_path X u (part_index spec) rid" and ?fp = "part_path X u (part_index spec)"
  from run obtain v i w where c: "create_new ?tmp v = (Inr i, w)"
    and p: "publish_part X spec ?tmp ?fp body limit i w = (Inr (), t)"
    by (auto simp: put_part_def Let_def bindE_Inr_iff)
  from c obtain tn where tn: "?tmp = map Normal tn" "look w tn = Some (Reg i)" "fs_data w i = []"
    by (rule create_new_Inr)
  from temporary_names [OF ids, of "part_index spec"] tn(1)
  obtain n where "tn = [''uploads'', uuid_str X u, CHR ''.'' # n]" by (auto simp del: list.map)
  moreover have "fmt08 (unat (part_index spec)) @ ''.part'' \<noteq> CHR ''.'' # n"
    using fmt08_digits [of "CHR ''.''" "unat (part_index spec)"] fmt08_not_Nil [of "unat (part_index spec)"]
    by (cases "fmt08 (unat (part_index spec))") (auto simp: is_ascii_digit_def code_def)
  ultimately have "part_names X u (part_index spec) \<noteq> tn" by (auto simp: part_names_def)
  with publish_part_Inr [OF p [unfolded tn(1)] tn(2,3) size part_path_names [OF ids(1)]]
  show ?thesis .
qed

text \<open>
  C13. Whatever a part upload returns, and whichever of its system calls fail: every name that existed
  before is still bound to the same file and no existing file's content has changed.
\<close>

theorem put_part_never_clobbers:
  assumes "put_part X rid u spec body limit s = (r, t)"
  shows "(\<forall>p n. look s p = Some n \<longrightarrow> look t p = Some n) \<and>
    (\<forall>i < fs_next s. fs_data t i = fs_data s i)"
  using put_part_keeps [OF assms] by (simp add: keeps_def)

definition sample_spec :: upload_part_spec where
  "sample_spec = \<lparr>part_index = 0, part_size = 3, part_blake3 = blake3_hex sample [1, 2, 3]\<rparr>"

definition sample_fs :: fs where
  "sample_fs = \<lparr>fs_nodes = [([''uploads''], Dir), ([''blobs''], Dir)], fs_data = (\<lambda>_. []), fs_next = 0,
     fs_tick = 0, fs_fault = (\<lambda>_. False), fs_chunk = (\<lambda>_. 2)\<rparr>"

definition sample_put :: "(app_error + unit) \<times> fs" where
  "sample_put = put_part sample 9 7 sample_spec [Data [1, 2], Trailers, Data [3]] 100 sample_fs"

lemma sample_paths:
  "upload_dir sample 7 = [Normal ''uploads'', Normal ''000000000000000000000000000000000007'']"
  "part_path sample 7 0 =
     [Normal ''uploads'', Normal ''000000000000000000000000000000000007'', Normal ''00000000.part'']"
  "part_temporary_path sample 7 0 9 =
     [Normal ''uploads'', Normal ''000000000000000000000000000000000007'',
      Normal ''.00000000.000000000000000000000000000000000009.tmp'']"
  by code_simp+

lemma sample_put_ok: "put_part sample 9 7 sample_spec [Data [1, 2], Trailers, Data [3]] 100 sample_fs
    = (Inr (), snd sample_put)"
proof -
  have "fst sample_put = Inr ()"
    unfolding sample_put_def
    by (simp add: put_part_def sample_paths sample_spec_def Let_def bindE_def del: list.map) code_simp
  then show ?thesis by (simp add: sample_put_def prod_eq_iff)
qed

lemma put_part_stores_witness:
  "holds sample (snd sample_put) (part_names sample 7 0) 3 (blake3_hex sample [1, 2, 3])"
  using put_part_stores [OF sample_put_ok sample_uuid_ok(1,3)]
  by (simp add: sample_spec_def u64_max_def)

lemma put_part_never_clobbers_witness: "look (snd sample_put) [''blobs''] = Some Dir"
proof -
  have "look sample_fs [''blobs''] = Some Dir" by (simp add: look_def sample_fs_def)
  with put_part_never_clobbers [OF sample_put_ok] show ?thesis by blast
qed

section \<open>Assembling and publishing\<close>

lemma copy_body_Inr:
  assumes "copy_body f c (psize, ph, tot, content) s = (Inr q, t)"
    "unat psize = length ph" "unat tot = length content" "fs_data s f = content"
  shows "\<exists>psize' tot'. q = Inr (psize', ph @ c, tot', content @ c) \<and> unat psize' = length (ph @ c)
    \<and> unat tot' = length (content @ c) \<and> fs_data t f = content @ c \<and> fs_nodes t = fs_nodes s
    \<and> quiet (set_data f (content @ c) s) t"
proof -
  from assms(1) obtain p' t' where len: "length c \<le> u64_max"
    and p': "checked_add_u64 psize (u64_of_len (length c)) = Some p'"
    and t': "checked_add_u64 tot (u64_of_len (length c)) = Some t'"
    and w: "sys_write f c s = (Inr (), t)" and q: "q = Inr (p', ph @ c, t', content @ c)"
    by (auto simp: copy_body_def bindE_Inr_iff ret_def fail_def not_less split: if_splits option.splits)
  from p' t' len assms have "unat p' = length (ph @ c)" "unat t' = length (content @ c)"
    by (simp_all add: checked_add_u64_Some unat_u64_of_len)
  moreover from sys_write_Inr [OF w] assms(4) have quiet: "quiet (set_data f (content @ c) s) t" by simp
  moreover from quiet have "fs_data t f = content @ c" "fs_nodes t = fs_nodes s"
    by (simp_all add: quiet_sels set_data_def)
  ultimately show ?thesis using q by blast
qed

lemma set_data_nodes [simp]: "fs_nodes (set_data i b s) = fs_nodes s"
  by (simp add: set_data_def)

lemma set_data_same: "quiet (set_data i (fs_data s i) s) t \<longleftrightarrow> quiet s t"
  by (simp add: set_data_id)

lemma set_data_trans:
  "quiet (set_data i b s) t \<Longrightarrow> quiet (set_data i c t) u \<Longrightarrow> quiet (set_data i c s) u"
  by (metis quiet_trans set_data_quiet set_data_set_data)

text \<open>What one part contributes: exactly the bytes stored for it, which match its entry.\<close>

lemma copy_part_Inr:
  assumes run: "copy_part X u f part (tot, content) s = (Inr (tot', content'), t)"
    and pre: "unat tot = length content" "fs_data s f = content"
  obtains ns i bytes where "part_path X u (part_index part) = map Normal ns" "look s ns = Some (Reg i)"
    "fs_data s i = bytes" "content' = content @ bytes" "unat tot' = length content'"
    "length bytes = unat (part_size part)" "blake3_hex X bytes = part_blake3 part"
    "quiet (set_data f content' s) t"
proof -
  from run obtain i v where o: "open_read (part_path X u (part_index part)) s = (Inr i, v)"
    and loop: "bindE (read_loop (\<lambda>_. storage_error) BUFFER (copy_body f) (fs_data v i) (0, [], tot, content)) (\<lambda>q. case q of
           Inl _ \<Rightarrow> fail size_overflow
         | Inr (psize, phash, tot, content) \<Rightarrow>
             if psize \<noteq> part_size part \<or> blake3_hex X phash \<noteq> part_blake3 part
             then fail (conflict (''part '' @ show_nat (unat (part_index part)) @ '' no longer matches its manifest''))
             else ret (tot, content)) v = (Inr (tot', content'), t)"
  proof -
    obtain r v where o: "open_read (part_path X u (part_index part)) s = (r, v)" by fastforce
    show ?thesis
    proof (cases r)
      case (Inl e)
      with run o show ?thesis by (auto simp: copy_part_def bindE_attempt fail_def split: if_splits)
    next
      case (Inr i)
      with run o have loop: "bindE (read_loop (\<lambda>_. storage_error) BUFFER (copy_body f) (fs_data v i) (0, [], tot, content)) (\<lambda>q. case q of
           Inl _ \<Rightarrow> fail size_overflow
         | Inr (psize, phash, tot, content) \<Rightarrow>
             if psize \<noteq> part_size part \<or> blake3_hex X phash \<noteq> part_blake3 part
             then fail (conflict (''part '' @ show_nat (unat (part_index part)) @ '' no longer matches its manifest''))
             else ret (tot, content)) v = (Inr (tot', content'), t)"
        by (simp only: copy_part_def prod.case bindE_attempt fst_conv snd_conv sum.case bindE_gets)
      show ?thesis using that [OF o [unfolded Inr] loop] .
    qed
  qed
  from o obtain ns where ns: "part_path X u (part_index part) = map Normal ns" "look s ns = Some (Reg i)" "quiet s v"
    by (rule open_read_Inr)
  let ?b = "fs_data s i"
  from loop obtain q w where q: "read_loop (\<lambda>_. storage_error) BUFFER (copy_body f) (fs_data v i) (0, [], tot, content) v = (Inr q, w)"
    and after: "(case q of Inl _ \<Rightarrow> fail size_overflow
         | Inr (psize, phash, tot, content) \<Rightarrow>
             if psize \<noteq> part_size part \<or> blake3_hex X phash \<noteq> part_blake3 part
             then fail (conflict (''part '' @ show_nat (unat (part_index part)) @ '' no longer matches its manifest''))
             else ret (tot, content)) w = (Inr (tot', content'), t)"
    unfolding bindE_Inr_iff by blast
  from after obtain ps ph where q': "q = Inr (ps, ph, tot', content')" and t: "t = w"
    and m: "ps = part_size part" "blake3_hex X ph = part_blake3 part"
    by (auto simp: ret_def fail_def split: sum.splits prod.splits if_splits)
  let ?I = "\<lambda>xs (ps, ph, tt, c) w. ph = xs \<and> unat ps = length xs \<and> c = content @ xs \<and> unat tt = length c
      \<and> quiet (set_data f c v) w"
  have "?I ([] @ ?b) (ps, ph, tot', content') w"
  proof (rule read_loop_invariant [where I = ?I, OF q [unfolded q'] _ BUFFER_pos, unfolded quiet_sels(3) [OF ns(3)]])
    show "?I [] (0, [], tot, content) v"
    proof -
      have "set_data f content v = v" using set_data_id [of f v] pre(2) quiet_sels(3) [OF ns(3)] by simp
      with pre show ?thesis by simp
    qed
  next
    show "?I xs a w'" if "?I xs a w" "quiet w w'" for xs a w w'
      using that by (auto intro: quiet_trans)
  next
    fix xs c a a' w w'
    assume I: "?I xs a w" and "c \<noteq> []" and step: "copy_body f c a w = (Inr (Inr a'), w')"
    obtain ps ph tt cc where a: "a = (ps, ph, tt, cc)" by (cases a) auto
    from I a have "unat ps = length ph" "unat tt = length cc" "fs_data w f = cc"
      by (auto simp: quiet_sels)
    from copy_body_Inr [OF step [unfolded a] this] I a show "?I (xs @ c) a' w'"
      by (auto intro: set_data_trans)
  qed
  then have "ph = ?b" "unat ps = length ?b" "content' = content @ ?b" "unat tot' = length content'"
    "quiet (set_data f content' v) w" by auto
  note I = this
  have "quiet (set_data f content' s) w" using set_data_quiet [OF ns(3)] I(5) by (rule quiet_trans)
  moreover have "length ?b = unat (part_size part)" using I(2) m(1) by simp
  moreover have "blake3_hex X ?b = part_blake3 part" using I(1) m(2) by simp
  ultimately show ?thesis
    using I(3,4) t by (intro that [OF ns(1,2) refl]) auto
qed

lemma copy_parts_Inr:
  assumes "copy_parts X u f parts (tot, content) s = (Inr (tot', content'), t)"
    "unat tot = length content" "fs_data s f = content"
  shows "unat tot' = length content' \<and> quiet (set_data f content' s) t"
  using assms
proof (induction parts arbitrary: tot content s)
  case Nil
  then show ?case by (auto simp: ret_def set_data_same)
next
  case (Cons part parts)
  from Cons.prems(1) obtain tot2 content2 v where
    one: "copy_part X u f part (tot, content) s = (Inr (tot2, content2), v)"
    and rest: "copy_parts X u f parts (tot2, content2) v = (Inr (tot', content'), t)"
    by (auto simp: bindE_Inr_iff)
  from one Cons.prems(2,3) have c2: "unat tot2 = length content2" "quiet (set_data f content2 s) v"
    by (rule copy_part_Inr, simp)+
  then have "fs_data v f = content2" by (simp add: quiet_sels)
  from Cons.IH [OF rest c2(1) this] c2(2) show ?case by (auto intro: set_data_trans)
qed

lemma write_stage_Inr:
  assumes "write_stage X u f parts sz hash s = (Inr (), t)" "fs_data s f = []" "look s p = Some (Reg f)"
  shows "holds X t p sz hash"
proof -
  from assms(1) obtain tot content v where c: "copy_parts X u f parts (0, []) s = (Inr (tot, content), v)"
    and m: "tot = sz" "blake3_hex X content = hash" and y: "sys_fsync v = (Inr (), t)"
    by (auto simp: write_stage_def bindE_Inr_iff fail_def split: if_splits)
  from copy_parts_Inr [OF c] assms(2) have *: "unat tot = length content" "quiet (set_data f content s) v" by auto
  have "quiet (set_data f content s) t" using *(2) obeysD [OF sys_quiet(3) y] by (rule quiet_trans)
  with * m assms(3) show ?thesis by (simp add: holds_def quiet_sels)
qed

lemma state_of_match_simps [simp]:
  "state_of_match m = Matches \<longleftrightarrow> m = Some True" "state_of_match m = Missing \<longleftrightarrow> m = None"
  "state_of_match m = Mismatch \<longleftrightarrow> m = Some False"
  by (auto simp: state_of_match_def split: option.splits bool.splits)

lemma inspect_commit_stage_Matches:
  assumes "inspect_commit_stage X account u key sz hash s = (Inr Matches, t)" "unat sz < u64_max"
  shows "holds X t (key_names key) sz hash \<and> quiet s t"
proof -
  from assms(1) obtain k where k: "commit_stage_key X account u key = Inr k"
    and m: "existing_file_matches X (path_of k) sz hash s = (Inr (Some True), t)"
    by (auto simp: inspect_commit_stage_def bindE_Inr_iff of_result_Inr ret_def)
  from k have "k = key" "key_parse key = Inr key" by (auto elim: commit_stage_key_Inr)
  with m have m: "existing_file_matches X (map Normal (key_names key)) sz hash s = (Inr (Some True), t)"
    by (simp add: key_path)
  then obtain ns where "map Normal (key_names key) = map Normal ns" "holds X s ns sz hash"
    using assms(2) by (auto elim: existing_file_matches_result)
  moreover have "quiet s t" by (rule obeysD [OF existing_file_matches_quiet m])
  ultimately show ?thesis by (simp add: holds_quiet)
qed

lemma inspect_object_Matches:
  assumes "inspect_object X account key sz hash s = (Inr Matches, t)" "unat sz < u64_max"
  shows "holds X t (key_names key) sz hash \<and> quiet s t"
proof -
  from assms(1) obtain k where k: "scoped_blob_key account key = Inr k"
    and m: "existing_file_matches X (path_of k) sz hash s = (Inr (Some True), t)"
    by (auto simp: inspect_object_def bindE_Inr_iff of_result_Inr ret_def)
  from k have "k = key" "key_parse key = Inr key" by (auto elim: scoped_blob_key_Inr)
  with m have m: "existing_file_matches X (map Normal (key_names key)) sz hash s = (Inr (Some True), t)"
    by (simp add: key_path)
  then obtain ns where "map Normal (key_names key) = map Normal ns" "holds X s ns sz hash"
    using assms(2) by (auto elim: existing_file_matches_result)
  moreover have "quiet s t" by (rule obeysD [OF existing_file_matches_quiet m])
  ultimately show ?thesis by (simp add: holds_quiet)
qed

text \<open>
  C5. When assembly reports success the stage holds exactly the declared content: its size and
  BLAKE3 hash are the ones of the manifest.
\<close>

theorem assemble_commit_stages:
  assumes run: "assemble_commit X account u parts key sz hash s = (Inr (), t)"
    and size: "unat sz < u64_max"
  shows "holds X t (key_names key) sz hash"
proof -
  from run obtain k where "commit_stage_key X account u key = Inr k"
    by (auto simp: assemble_commit_def bindE_Inr_iff of_result_Inr)
  then have k: "commit_stage_key X account u key = Inr key" "key_parse key = Inr key"
    by (auto elim: commit_stage_key_Inr)
  obtain q v where i: "inspect_commit_stage X account u key sz hash s = (q, v)" by fastforce
  show ?thesis
  proof (cases "q = Inr Matches")
    case True
    with run i k have "t = v" by (simp add: assemble_commit_def bindE_of_result bindE_def ret_def)
    with inspect_commit_stage_Matches [OF i [unfolded True] size] show ?thesis by simp
  next
    case False
    moreover obtain st where "q = Inr st"
      using run i k by (cases q) (auto simp: assemble_commit_def bindE_of_result bindE_def)
    ultimately obtain w where "create_stage X u parts (path_of key) sz hash w = (Inr (), t)"
      using run i k by (cases st) (auto simp: assemble_commit_def bindE_of_result bindE_Inr_iff)
    then obtain f x y where c: "create_new (path_of key) x = (Inr f, y)"
      and after: "fill_stage X u parts (path_of key) sz hash f y = (Inr (), t)"
      by (auto simp: create_stage_def bindE_Inr_iff)
    from c obtain ns where ns: "path_of key = map Normal ns" "look y ns = Some (Reg f)" "fs_data y f = []"
      by (rule create_new_Inr)
    then have names: "ns = key_names key" using key_path [OF k(2)] by simp
    obtain r z where w: "write_stage X u f parts sz hash y = (r, z)" by fastforce
    with after have "r = Inr ()" and sync: "sync_parent (path_of key) z = (Inr (), t)"
      by (auto simp: fill_stage_def bindE_attempt guarded_Inr bindE_Inr_iff fail_def split: sum.splits)
    with write_stage_Inr [OF _ ns(3,2)] w have "holds X z ns sz hash" by simp
    moreover have "quiet z t" by (rule obeysD [OF rooted_quiet(2) sync])
    ultimately show ?thesis by (simp add: holds_quiet names)
  qed
qed

text \<open>
  C6. When publication reports success the final blob holds exactly the declared content, and
  publication (successful or not) removes and changes nothing that was stored before.
\<close>

theorem publish_commit_publishes:
  assumes run: "publish_commit X account u skey fkey sz hash s = (r, t)" and size: "unat sz < u64_max"
  shows "(r = Inr () \<longrightarrow> holds X t (key_names fkey) sz hash) \<and>
    (\<forall>p n. look s p = Some n \<longrightarrow> look t p = Some n) \<and> (\<forall>i < fs_next s. fs_data t i = fs_data s i)"
proof -
  have "obeys (keeps (fs_next s) {}) (publish_commit X account u skey fkey sz hash)"
    unfolding publish_commit_def inspect_commit_stage_def inspect_object_def
    by (intro keeps.obeys_rules lift_io_keeps rooted_keeps link_no_replace_keeps existing_keeps)
  then have "keeps (fs_next s) {} s t" using run by (rule obeysD)
  moreover have "holds X t (key_names fkey) sz hash" if "r = Inr ()"
  proof -
    from run that obtain k where k: "scoped_blob_key account fkey = Inr k"
      by (auto simp: publish_commit_def bindE_Inr_iff of_result_Inr)
    from run that obtain v w where "inspect_object X account fkey sz hash v = (Inr Matches, w)" "t = w"
      by (auto simp: publish_commit_def bindE_Inr_iff of_result_Inr ret_def fail_def split: if_splits)
    with inspect_object_Matches [OF _ size] show ?thesis by blast
  qed
  ultimately show ?thesis by (simp add: keeps_def)
qed

lemma fill_stage_keeps:
  "N \<le> f \<Longrightarrow> obeys (keeps N {names}) (fill_stage X u parts (map Normal names) sz hash f)"
proof -
  assume N: "N \<le> f"
  have copy: "obeys (keeps N P) (copy_body f c a)" for P c a
    by (cases a) (auto simp: copy_body_def intro!: keeps.obeys_rules lift_io_keeps sys_write_keeps N
        split: option.split)
  have part: "obeys (keeps N P) (copy_part X u f part acc)" for P part acc
    by (cases acc) (auto simp: copy_part_def intro!: keeps.obeys_rules lift_io_keeps rooted_keeps
        read_loop_keeps copy split: sum.split)
  have parts: "obeys (keeps N P) (copy_parts X u f parts acc)" for P parts acc
    by (induction parts arbitrary: acc) (auto intro!: keeps.obeys_rules part)
  show ?thesis
    unfolding fill_stage_def write_stage_def
    by (intro keeps.obeys_rules lift_io_keeps rooted_keeps temp_keeps parts sys_keeps singletonI)
qed

lemma create_stage_keeps:
  assumes "create_stage X u parts p sz hash s = (r, t)" "N \<le> fs_next s"
  shows "keeps N {} s t"
proof -
  obtain q v where d: "bindE (of_result (ok_or invalid_storage_key (path_parent p))) (\<lambda>parent.
      lift_io (ensure_dir parent)) s = (q, v)" by fastforce
  have "obeys (keeps N {}) (bindE (of_result (ok_or invalid_storage_key (path_parent p))) (\<lambda>parent.
      lift_io (ensure_dir parent)))"
    by (intro keeps.obeys_rules lift_io_keeps rooted_keeps)
  then have sv: "keeps N {} s v" using d by (rule obeysD)
  have run: "bindE (bindE (of_result (ok_or invalid_storage_key (path_parent p))) (\<lambda>parent.
      lift_io (ensure_dir parent))) (\<lambda>_. bindE (lift_io (create_new p)) (fill_stage X u parts p sz hash)) s = (r, t)"
    using assms(1) by (simp add: create_stage_def bindE_assoc)
  show ?thesis
  proof (cases q)
    case (Inl e)
    with run d have "t = v" by (simp add: bindE_def [of "bindE _ _"])
    with sv show ?thesis by simp
  next
    case (Inr x)
    from run have "bindE (lift_io (create_new p)) (fill_stage X u parts p sz hash) v = (r, t)"
      using d Inr by (simp add: bindE_def [of "bindE _ _"])
    moreover have "N \<le> fs_next v" by (rule keeps_next [OF sv assms(2)])
    ultimately have "keeps N {} v t"
      by (rule create_new_then_keeps) (auto intro: fill_stage_keeps)
    with sv show ?thesis by (rule keeps.R_trans)
  qed
qed

text \<open>Assembly touches no name but its stage and no content that existed.\<close>

lemma assemble_commit_keeps:
  assumes run: "assemble_commit X account u parts key sz hash s = (r, t)"
  shows "keeps (fs_next s) {key_names key} s t"
proof (cases "commit_stage_key X account u key")
  case (Inl e)
  with run show ?thesis by (simp add: assemble_commit_def bindE_of_result fail_def keeps.R_refl)
next
  case (Inr k)
  then have k: "k = key" "key_parse key = Inr key" by (auto elim: commit_stage_key_Inr)
  obtain q v where i: "inspect_commit_stage X account u key sz hash s = (q, v)" by fastforce
  have "obeys quiet (inspect_commit_stage X account u key sz hash)"
    unfolding inspect_commit_stage_def by (intro quiet.obeys_rules existing_file_matches_quiet)
  then have sv: "quiet s v" using i by (rule obeysD)
  let ?N = "fs_next s" and ?K = "{key_names key}"
  have create: "keeps ?N ?K w t'" if "create_stage X u parts (path_of key) sz hash w = (r', t')" "?N \<le> fs_next w" for w r' t'
    using create_stage_keeps [OF that] by (rule keeps_widen)
  have "keeps ?N ?K v t"
  proof (cases q)
    case (Inl e)
    with run i Inr k show ?thesis by (simp add: assemble_commit_def bindE_of_result bindE_def keeps.R_refl)
  next
    case q: (Inr st)
    have run': "(case st of
       Matches \<Rightarrow> ret ()
     | Mismatch \<Rightarrow> bindE (lift_io (remove_file (path_of key))) (\<lambda>_. create_stage X u parts (path_of key) sz hash)
     | Missing \<Rightarrow> create_stage X u parts (path_of key) sz hash) v = (r, t)"
      using run i Inr k q by (simp add: assemble_commit_def bindE_of_result bindE_def)
    have next_v: "?N \<le> fs_next v" using sv by (simp add: quiet_sels)
    show ?thesis
    proof (cases st)
      case Missing
      with run' next_v show ?thesis by (auto intro: create)
    next
      case Matches
      with run' show ?thesis by (simp add: ret_def keeps.R_refl)
    next
      case Mismatch
      obtain x w where rm: "lift_io (remove_file (map Normal (key_names key))) v = (x, w)" by fastforce
      have vw: "keeps ?N ?K v w"
        by (rule obeysD [OF lift_io_keeps [OF remove_file_keeps] rm]) simp
      show ?thesis
      proof (cases x)
        case (Inl e)
        with run' Mismatch rm vw k show ?thesis by (simp add: key_path bindE_def)
      next
        case (Inr b)
        with run' Mismatch rm k have "create_stage X u parts (path_of key) sz hash w = (r, t)"
          by (simp add: key_path bindE_def)
        then have "keeps ?N ?K w t" using keeps_next [OF vw next_v] by (rule create)
        with vw show ?thesis by (rule keeps.R_trans)
      qed
    qed
  qed
  with quiet_keeps [OF sv] show ?thesis by (rule keeps.R_trans)
qed

section \<open>Sweeping the staging directory\<close>

definition sweepable :: "externals \<Rightarrow> path \<Rightarrow> string set \<Rightarrow> string list set" where
  "sweepable X directory referenced = {ns. \<exists>name key. is_commit_stage_name X name \<and>
     path_join directory (path_of name) = map Normal ns \<and>
     path_to_key (path_join directory (path_of name)) = Inr key \<and> key \<notin> referenced}"

lemma remove_any_keeps:
  assumes "\<And>ns. p = map Normal ns \<Longrightarrow> ns \<in> P" shows "obeys (keeps N P) (remove_file p)"
proof (rule obeysI)
  fix s r t
  assume run: "remove_file p s = (r, t)"
  from outcomeD [OF remove_file_outcome run] have out: "removal p s r t" .
  show "keeps N P s t"
  proof (cases "\<exists>ns. p = map Normal ns")
    case True
    then obtain ns where "p = map Normal ns" by blast
    with assms run show ?thesis by (blast intro: obeysD [OF remove_file_keeps])
  next
    case False
    with out show ?thesis by (auto simp: removal_def intro: quiet_keeps)
  qed
qed

lemma cleanup_names_keeps:
  "obeys (keeps N (sweepable X d refs)) (cleanup_names X d refs names n)"
proof (induction X d refs names n rule: cleanup_names.induct)
  case (2 X d refs name names n)
  show ?case
  proof (cases "\<not> valid_utf8 name \<or> \<not> is_commit_stage_name X name")
    case True
    then show ?thesis using "2.IH"(1) by (simp del: de_Morgan_conj)
  next
    case False
    have "obeys (keeps N (sweepable X d refs)) (bindE (lift_io (remove_file (path_join d (path_of name)))) (\<lambda>gone.
          cleanup_names X d refs names (if gone then saturating_add_u64 n 1 else n)))"
      if "path_to_key (path_join d (path_of name)) = Inr key" "key \<notin> refs" for key
      using that False
      by (intro keeps.obeys_bindE lift_io_keeps remove_any_keeps "2.IH"(3)) (auto simp: sweepable_def)
    then show ?thesis
      using False "2.IH"(2) by (cases "path_to_key (path_join d (path_of name))")
        (auto simp: bindE_of_result keeps.obeys_fail)
  qed
qed (simp add: keeps.obeys_ret)

text \<open>
  C14. The sweep of an account's staging directory, whatever it returns, only removes names directly
  at or below that directory whose key is not referenced, and changes no content.
\<close>

theorem cleanup_removes_only_orphans:
  assumes run: "cleanup_orphan_staging X account refs s = (r, t)" and p: "look s p = Some n"
  shows "look t p = Some n \<or>
    (join_with (CHR ''/'') p \<notin> refs \<and> prefix (key_names account @ [''staging'']) p)"
proof (cases "key_parse account")
  case (Inl e)
  with run p show ?thesis by (simp add: cleanup_orphan_staging_def bindE_of_result fail_def)
next
  case (Inr k)
  then have k: "k = account" "path_of account = map Normal (key_names account)"
    using key_parse_Inr(1) key_path by auto
  let ?dir = "path_join (path_of account) (path_of ''staging'')"
  have dir: "?dir = map Normal (key_names account @ [''staging''])"
    using path_of_name [of "''staging''"] k(2) by (simp add: normal_name_def path_join_def is_absolute_def)
  have "obeys (keeps N (sweepable X ?dir refs)) (lift_io (list_regular_files ?dir))" for N
    by (rule lift_io_keeps)
       (auto simp: obeys_def intro!: quiet_keeps list_regular_files_quiet [unfolded obeys_def, rule_format])
  then have "obeys (keeps N (sweepable X ?dir refs)) (cleanup_orphan_staging X account refs)" for N
    unfolding cleanup_orphan_staging_def Inr bindE_of_result k(1) Let_def
    by (intro keeps.obeys_bindE cleanup_names_keeps)
  then have "keeps 0 (sweepable X ?dir refs) s t" using run by (rule obeysD)
  then have "look t p = Some n \<or> p \<in> sweepable X ?dir refs" using p by (auto simp: keeps_def)
  moreover have "join_with (CHR ''/'') p \<notin> refs \<and> prefix (key_names account @ [''staging'']) p"
    if "p \<in> sweepable X ?dir refs"
  proof -
    from that obtain name key where name: "is_commit_stage_name X name"
      "path_join ?dir (path_of name) = map Normal p" "path_to_key (path_join ?dir (path_of name)) = Inr key"
      "key \<notin> refs" by (auto simp: sweepable_def)
    from path_to_key_Inr [OF name(3)] name(2,4) have "join_with (CHR ''/'') p \<notin> refs" by simp
    moreover have "\<not> is_absolute (path_of name)"
    proof -
      obtain v where "name = ''commit-'' @ v"
        using name(1) by (auto simp: is_commit_stage_name_def bind_eq_Some_conv strip_prefix_Some split: option.splits)
      then show ?thesis by (auto simp: path_of_def component_of_def is_absolute_def split: list.splits)
    qed
    then obtain rest where "path_join ?dir (path_of name) = ?dir @ rest"
      unfolding dir by (simp add: path_join_def)
    then have "map Normal p = map Normal (key_names account @ [''staging'']) @ rest"
      unfolding name(2) unfolding dir .
    then have "prefix (key_names account @ [''staging'']) p"
      by (simp only: map_Normal_append_iff prefix_def) blast
    ultimately show ?thesis by blast
  qed
  ultimately show ?thesis by blast
qed

section \<open>Examples\<close>

definition sample_stage :: string where
  "sample_stage = ''a/staging/commit-000000000000000000000000000000000007-000000000000000000000000000000000008.stage''"

definition sample_blob :: string where
  "sample_blob = ''a/objects/00/x''"

definition sample_parts_fs :: fs where
  "sample_parts_fs = \<lparr>fs_nodes = [([''uploads''], Dir), ([''uploads'', uuid_str sample 7], Dir),
       ([''uploads'', uuid_str sample 7, ''00000000.part''], Reg 0)],
     fs_data = (\<lambda>_. [])(0 := [1, 2, 3]), fs_next = 1,
     fs_tick = 0, fs_fault = (\<lambda>_. False), fs_chunk = (\<lambda>_. 2)\<rparr>"

lemma sample_stage_key: "commit_stage_key sample ''a'' 7 sample_stage = Inr sample_stage"
  by code_simp

lemma sample_stage_path: "path_of sample_stage = [Normal ''a'', Normal ''staging'',
    Normal ''commit-000000000000000000000000000000000007-000000000000000000000000000000000008.stage'']"
  by code_simp

lemma sample_part_path:
  "part_path sample 7 0 =
     [Normal ''uploads'', Normal ''000000000000000000000000000000000007'', Normal ''00000000.part'']"
  by code_simp

lemma sample_hash: "blake3_hex sample [1, 2, 3] = ''0000000000000000000000000000000000000000000000000000000003000006''"
  by code_simp

definition sample_assemble :: "(app_error + unit) \<times> fs" where
  "sample_assemble = assemble_commit sample ''a'' 7 [sample_spec] sample_stage 3 (blake3_hex sample [1, 2, 3]) sample_parts_fs"



lemma sample_missing: "existing_file_matches sample (path_of sample_stage) 3 (blake3_hex sample [1, 2, 3]) sample_parts_fs
  = (Inr None, sample_parts_fs\<lparr>fs_tick := 1\<rparr>)"
  by (simp add: existing_file_matches_def sample_stage_path open_read_def validate_relative_def is_absolute_def
     bindE_def attempt_def of_result_def ok_or_def sys_open_read_def syscall_def look_def sample_parts_fs_def ret_def)

lemma sample_create_ok:
  "fst (create_stage sample 7 [sample_spec] (path_of sample_stage) 3 (blake3_hex sample [1, 2, 3])
     (sample_parts_fs\<lparr>fs_tick := 1\<rparr>)) = Inr ()"
  by (simp add: create_stage_def sample_stage_path sample_hash sample_spec_def path_parent_def bindE_of_result) code_simp

lemma sample_assemble_ok:
  "fst (assemble_commit sample ''a'' 7 [sample_spec] sample_stage 3 (blake3_hex sample [1, 2, 3]) sample_parts_fs)
    = Inr ()"
  using sample_create_ok
  by (simp add: assemble_commit_def inspect_commit_stage_def sample_stage_key bindE_of_result
      bindE_assoc bindE_ok [where m = "existing_file_matches _ _ _ _" and s = sample_parts_fs, OF sample_missing] bindE_ret state_of_match_def)

lemma assemble_commit_stages_witness:
  "holds sample (snd (assemble_commit sample ''a'' 7 [sample_spec] sample_stage 3 (blake3_hex sample [1, 2, 3])
     sample_parts_fs)) (key_names sample_stage) 3 (blake3_hex sample [1, 2, 3])"
proof -
  have "assemble_commit sample ''a'' 7 [sample_spec] sample_stage 3 (blake3_hex sample [1, 2, 3]) sample_parts_fs
    = (Inr (), snd (assemble_commit sample ''a'' 7 [sample_spec] sample_stage 3 (blake3_hex sample [1, 2, 3])
        sample_parts_fs))"
    using sample_assemble_ok by (simp add: prod_eq_iff)
  then show ?thesis by (rule assemble_commit_stages) (simp add: u64_max_def)
qed

definition sample_published_fs :: fs where
  "sample_published_fs = \<lparr>fs_nodes = [([''a''], Dir), ([''a'', ''staging''], Dir),
       ([''a'', ''staging'', ''commit-000000000000000000000000000000000007-000000000000000000000000000000000008.stage''], Reg 0)],
     fs_data = (\<lambda>_. [])(0 := [1, 2, 3]), fs_next = 1,
     fs_tick = 0, fs_fault = (\<lambda>_. False), fs_chunk = (\<lambda>_. 2)\<rparr>"

lemma sample_blob_key: "scoped_blob_key ''a'' sample_blob = Inr sample_blob"
  by code_simp

lemma sample_blob_path: "path_of sample_blob = [Normal ''a'', Normal ''objects'', Normal ''00'', Normal ''x'']"
  by code_simp

definition sample_publish :: "(app_error + unit) \<times> fs" where
  "sample_publish =
     publish_commit sample ''a'' 7 sample_stage sample_blob 3 (blake3_hex sample [1, 2, 3]) sample_published_fs"

lemma sample_publish_ok: "fst sample_publish = Inr ()"
  by (simp add: sample_publish_def publish_commit_def inspect_commit_stage_def inspect_object_def sample_stage_key
      sample_blob_key sample_stage_path sample_blob_path sample_hash path_parent_def bindE_of_result) code_simp


lemma publish_commit_publishes_witness:
  "holds sample (snd sample_publish) (key_names sample_blob) 3 (blake3_hex sample [1, 2, 3]) \<and>
   look (snd sample_publish) [''a''] = Some Dir"
proof -
  have run: "publish_commit sample ''a'' 7 sample_stage sample_blob 3 (blake3_hex sample [1, 2, 3]) sample_published_fs
    = (Inr (), snd sample_publish)"
    using sample_publish_ok by (simp add: sample_publish_def prod_eq_iff)
  have "look sample_published_fs [''a''] = Some Dir" by (simp add: look_def sample_published_fs_def)
  moreover have "unat (3 :: u64) < u64_max" by (simp add: u64_max_def)
  ultimately show ?thesis using publish_commit_publishes [OF run] by blast
qed

definition sample_sweep :: "(app_error + u64) \<times> fs" where
  "sample_sweep = cleanup_orphan_staging sample ''a'' {} sample_published_fs"

lemma cleanup_removes_only_orphans_witness: "look (snd sample_sweep) [''a''] = Some Dir"
proof -
  have run: "cleanup_orphan_staging sample ''a'' {} sample_published_fs = (fst sample_sweep, snd sample_sweep)"
    by (simp add: sample_sweep_def)
  have "look sample_published_fs [''a''] = Some Dir" by (simp add: look_def sample_published_fs_def)
  from cleanup_removes_only_orphans [OF run this] show ?thesis
    by (auto simp: prefix_def key_names_def)
qed


end
