(* ===== verification/Stored_Objects.thy ===== *)
theory Stored_Objects
  imports Storage_Correct
begin

text \<open>
  The contract of the blob store the rest of the server relies on: on a well-formed directory (no name
  bound to an inode number that was never given out) every operation but the reclaiming of a blob
  leaves each stored object in place, with its content; only commit stages may disappear.
\<close>

section \<open>Well-formed directories\<close>

definition fs_wf :: "fs \<Rightarrow> bool" where
  "fs_wf s \<longleftrightarrow> (\<forall>p i. (p, Reg i) \<in> set (fs_nodes s) \<longrightarrow> i < fs_next s)"

definition keeps_wf :: "fs \<Rightarrow> fs \<Rightarrow> bool" where
  "keeps_wf s t \<longleftrightarrow> (fs_wf s \<longrightarrow> fs_wf t)"

interpretation wf: run_preorder keeps_wf
  by unfold_locales (auto simp: keeps_wf_def)

named_theorems wf_intros \<open>operations that keep the directory well-formed\<close>

lemma fs_wf_look: "fs_wf s \<Longrightarrow> look s p = Some (Reg i) \<Longrightarrow> i < fs_next s"
  by (auto simp: fs_wf_def look_def dest: map_of_SomeD split: if_splits)

lemma fs_wf_simps [simp]:
  "fs_wf (s\<lparr>fs_tick := n\<rparr>) = fs_wf s" "fs_wf (set_data i bs s) = fs_wf s"
  by (simp_all add: fs_wf_def set_data_def)

lemma fs_wf_put: "fs_wf (put_node p n s) \<longleftrightarrow> fs_wf s \<and> (\<forall>i. n = Reg i \<longrightarrow> i < fs_next s)"
  by (auto simp: fs_wf_def put_node_def)

lemma fs_wf_drop: "fs_wf s \<Longrightarrow> fs_wf (drop_node p s)"
  by (auto simp: fs_wf_def drop_node_def AList.delete_eq)

lemma fs_wf_more: "fs_wf s \<Longrightarrow> fs_wf (s\<lparr>fs_next := Suc (fs_next s)\<rparr>)"
  by (auto simp: fs_wf_def less_Suc_eq)

lemma wf_quiet: "quiet s t \<Longrightarrow> keeps_wf s t"
  by (auto simp: quiet_def keeps_wf_def)

lemma wf_of_quiet: "obeys quiet m \<Longrightarrow> obeys keeps_wf m"
  by (auto simp: obeys_def intro: wf_quiet)

lemma wf_syscall: "(\<And>s. keeps_wf s (snd (f s))) \<Longrightarrow> obeys keeps_wf (syscall f)"
  by (auto simp: obeys_def syscall_def Let_def keeps_wf_def)

lemma wf_new_file: "keeps_wf s (snd (new_file p s))"
  by (auto simp: keeps_wf_def new_file_def fs_wf_def put_node_def set_data_def less_Suc_eq)

lemma wf_sys [wf_intros]:
  "obeys keeps_wf (sys_mkdir d n)" "obeys keeps_wf (sys_create_excl p)"
  "obeys keeps_wf (sys_open_rw_create p)" "obeys keeps_wf (sys_unlink p)" "obeys keeps_wf (sys_link p q)"
  unfolding sys_mkdir_def sys_create_excl_def sys_open_rw_create_def sys_unlink_def sys_link_def
  by (auto intro!: wf_syscall wf_new_file split: sum.splits node.splits option.splits)
     (auto simp: keeps_wf_def fs_wf_put fs_wf_drop fs_wf_look)

lemma wf_sys_write [wf_intros]: "obeys keeps_wf (sys_write i bs)"
  by (auto simp: obeys_def sys_write_def Let_def keeps_wf_def)

lemma wf_lift_io [wf_intros]: "obeys keeps_wf m \<Longrightarrow> obeys keeps_wf (lift_io m)"
  by (simp add: lift_io_def wf.obeys_map_err)

lemma wf_quiet_ops [wf_intros]:
  "obeys keeps_wf (validate_relative p)" "obeys keeps_wf (sys_open_dir b ns)" "obeys keeps_wf (sys_dup h)"
  "obeys keeps_wf sys_fsync" "obeys keeps_wf (sys_stat q)" "obeys keeps_wf (require_regular n)"
  "obeys keeps_wf (open_read p)" "obeys keeps_wf (sync_parent p)" "obeys keeps_wf (list_regular_files p)"
  "obeys keeps_wf (open_parent p False)" "obeys keeps_wf (existing_file_matches X p sz hash)"
  by (rule wf_of_quiet, rule quiet_intros)+

lemma wf_open_components [wf_intros]: "obeys keeps_wf (open_components d ns)"
  by (induction d ns rule: open_components.induct)
     (auto intro!: wf_intros wf.obeys_rules split: sum.splits io_kind.splits)

lemma wf_open_directory [wf_intros]: "obeys keeps_wf (open_directory p c)"
  by (auto simp: open_directory_def intro!: wf_intros wf.obeys_rules)

lemma wf_open_parent_if_any [wf_intros]: "obeys keeps_wf (open_parent_if_any p)"
  by (auto simp: open_parent_if_any_def intro!: wf_intros wf.obeys_rules)

lemma wf_rooted [wf_intros]:
  "obeys keeps_wf (ensure_dir p)" "obeys keeps_wf (create_new p)" "obeys keeps_wf (open_lock_file p)"
  unfolding ensure_dir_def create_new_def open_lock_file_def
  by (auto intro!: wf_intros wf.obeys_rules)

lemma wf_remove_file [wf_intros]: "obeys keeps_wf (remove_file p)"
  unfolding remove_file_def
  by (auto intro!: wf_intros wf.obeys_rules split: sum.splits node.splits)

lemma wf_publish_link [wf_intros]: "obeys keeps_wf (publish_link p q i)"
  unfolding publish_link_def
  by (auto intro!: wf_intros wf.obeys_rules split: sum.splits)

lemma wf_link_no_replace [wf_intros]: "obeys keeps_wf (link_no_replace p q)"
  unfolding link_no_replace_def
  by (auto intro!: wf_intros wf.obeys_rules split: node.splits)

lemma wf_temp [wf_intros]:
  "obeys keeps_wf (temp_remove p)" "obeys keeps_wf (temp_drop p)" "obeys keeps_wf (cleanup_best_effort_then_drop p)"
  unfolding cleanup_best_effort_then_drop_def temp_remove_def temp_drop_def
  by (auto intro!: wf_intros wf.obeys_rules split: sum.splits)

lemma wf_guarded [wf_intros]: "obeys keeps_wf m \<Longrightarrow> obeys keeps_wf (guarded p m)"
  unfolding guarded_def by (auto intro!: wf_intros wf.obeys_rules split: sum.splits)

lemma wf_sys_read: "obeys keeps_wf (sys_read cap rest)"
  by (rule wf_of_quiet) (rule quiet_intros)

lemmas wf_read_loop = read_loop_obeys [OF wf.run_preorder_axioms wf_sys_read]


section \<open>The operations of the store\<close>

lemma wf_write_frames [wf_intros]: "obeys keeps_wf (write_frames spec limit f body tot h)"
  by (induction spec limit f body tot h rule: write_frames.induct)
     (auto intro!: wf_intros wf.obeys_rules split: option.splits)

lemma wf_put_part: "obeys keeps_wf (put_part X rid u spec body limit)"
  unfolding put_part_def publish_part_def write_part_def Let_def existing_part_matches_def
  by (auto intro!: wf_intros wf.obeys_rules split: sum.splits option.splits bool.splits)

lemma wf_copy_body: "obeys keeps_wf (copy_body out c a)"
  by (cases a) (auto simp: copy_body_def intro!: wf_intros wf.obeys_rules split: option.splits)

lemma wf_copy_parts [wf_intros]: "obeys keeps_wf (copy_parts X u out parts acc)"
proof (induction parts arbitrary: acc)
  case (Cons part parts)
  have "obeys keeps_wf (copy_part X u out part acc)"
    by (cases acc) (auto simp: copy_part_def intro!: wf_intros wf.obeys_rules wf_read_loop wf_copy_body split: sum.splits)
  with Cons show ?case by (auto intro!: wf.obeys_rules)
qed (auto intro!: wf.obeys_rules)

lemma wf_create_stage [wf_intros]: "obeys keeps_wf (create_stage X u parts p sz hash)"
  unfolding create_stage_def fill_stage_def write_stage_def
  by (auto intro!: wf_intros wf.obeys_rules split: sum.splits)

lemma wf_inspect [wf_intros]:
  "obeys keeps_wf (inspect_object X a k sz h)" "obeys keeps_wf (inspect_commit_stage X a u k sz h)"
  unfolding inspect_object_def inspect_commit_stage_def by (auto intro!: wf_intros wf.obeys_rules)

lemma wf_cleanup_names [wf_intros]: "obeys keeps_wf (cleanup_names X d refs names n)"
  by (induction names arbitrary: n) (auto intro!: wf_intros wf.obeys_rules)

lemma wf_storage [wf_intros]:
  "obeys keeps_wf (lock_upload_commit X u)" "obeys keeps_wf (assemble_commit X a u parts k sz h)"
  "obeys keeps_wf (publish_commit X a u k fk sz h)" "obeys keeps_wf (remove_commit_stage X a u k)"
  "obeys keeps_wf (cleanup_orphan_staging X a refs)" "obeys keeps_wf (remove_blob a k)"
  unfolding lock_upload_commit_def assemble_commit_def publish_commit_def remove_commit_stage_def
    cleanup_orphan_staging_def remove_blob_def Let_def
  by (auto intro!: wf_intros wf.obeys_rules split: object_state.splits)

section \<open>Stored objects stay\<close>

text \<open>Names of commit stages, the only ones a commit or a sweep removes.\<close>

definition stage_path :: "string list \<Rightarrow> bool" where
  "stage_path ns \<longleftrightarrow> ns \<noteq> [] \<and> ends_with ''.stage'' (last ns)"

lemma stage_name_ends: "is_commit_stage_name X name \<Longrightarrow> ends_with ''.stage'' name"
  by (auto simp: is_commit_stage_name_def bind_eq_Some_conv strip_prefix_Some strip_suffix_Some ends_with_iff
      split: option.splits)

text \<open>Whatever else a name with the suffix contains, the last component of its path has the suffix.\<close>

lemma path_of_stage:
  assumes "ends_with ''.stage'' s"
  obtains p b where "path_of s = p @ [Normal b]" "ends_with ''.stage'' b"
proof -
  from assms obtain r where r: "s = r @ ''.stage''" by (auto simp: ends_with_iff)
  have normal: "component_of (v @ ''.stage'') = [Normal (v @ ''.stage'')]" for v
    by (auto simp: component_of_def append_eq_Cons_conv)
  show ?thesis
  proof (cases "CHR ''/'' \<in> set r")
    case False
    then have "path_of s = [Normal s]"
      using normal [of r] by (auto simp: path_of_def r split_on_no_sep append_eq_Cons_conv)
    then show ?thesis using assms that [of "[]" s] by simp
  next
    case True
    then obtain a v where v: "r = a @ CHR ''/'' # v" "CHR ''/'' \<notin> set v" by (meson split_list_last)
    then have "split_on (CHR ''/'') s = split_on (CHR ''/'') a @ [v @ ''.stage'']"
      by (simp add: r split_on_app split_on_no_sep)
    moreover obtain q qs where "split_on (CHR ''/'') a = q # qs" by (cases "split_on (CHR ''/'') a") auto
    ultimately obtain p where "path_of s = p @ [Normal (v @ ''.stage'')]"
      using normal [of v] by (simp add: path_of_def)
    then show ?thesis using that by (auto simp: ends_with_iff)
  qed
qed

lemma sweepable_stage: "ns \<in> sweepable X d refs \<Longrightarrow> stage_path ns"
proof -
  assume "ns \<in> sweepable X d refs"
  then obtain name where name: "is_commit_stage_name X name" "path_join d (path_of name) = map Normal ns"
    by (auto simp: sweepable_def)
  from stage_name_ends [OF name(1)] obtain p b where b: "path_of name = p @ [Normal b]" "ends_with ''.stage'' b"
    by (rule path_of_stage)
  have "\<exists>q. path_join d (p @ [Normal b]) = q @ [Normal b]"
    by (cases p) (auto simp: path_join_def split: path_component.splits)
  with name(2) b(1) obtain q where "map Normal ns = q @ [Normal b]" by auto
  then have "ns \<noteq> [] \<and> last ns = b" by (cases ns rule: rev_cases) auto
  with b(2) show ?thesis by (simp add: stage_path_def)
qed

definition keeps_objects :: "externals \<Rightarrow> fs \<Rightarrow> fs \<Rightarrow> bool" where
  "keeps_objects X s t \<longleftrightarrow> (fs_wf s \<longrightarrow> fs_wf t \<and>
     (\<forall>ns sz hash. \<not> stage_path ns \<longrightarrow> holds X s ns sz hash \<longrightarrow> holds X t ns sz hash))"

interpretation objects: run_preorder "keeps_objects X"
  by unfold_locales (auto simp: keeps_objects_def)

lemma keeps_objectsD:
  "keeps_objects X s t \<Longrightarrow> fs_wf s \<Longrightarrow> holds X s ns sz hash \<Longrightarrow> \<not> stage_path ns \<Longrightarrow> holds X t ns sz hash"
  by (simp add: keeps_objects_def)

lemma keeps_objectsI:
  assumes k: "keeps (fs_next s) P s t" and P: "\<And>ns. ns \<in> P \<Longrightarrow> stage_path ns" and wf: "keeps_wf s t"
  shows "keeps_objects X s t"
proof -
  have "holds X t ns sz hash" if "fs_wf s" "\<not> stage_path ns" "holds X s ns sz hash" for ns sz hash
  proof -
    from that(3) obtain i where i: "look s ns = Some (Reg i)"
      by (auto simp: holds_def split: option.splits node.splits)
    with that(1) have "i < fs_next s" by (rule fs_wf_look)
    moreover have "look t ns = Some (Reg i)" using keeps_look [OF k i] P that(2) by blast
    ultimately show ?thesis using that(3) i keeps_data [OF k] by (simp add: holds_def)
  qed
  with wf show ?thesis by (simp add: keeps_objects_def keeps_wf_def)
qed

lemma obeys_objectsI:
  assumes "\<And>N. obeys (keeps N P) m" "\<And>ns. ns \<in> P \<Longrightarrow> stage_path ns" "obeys keeps_wf m"
  shows "obeys (keeps_objects X) m"
  using assms by (auto intro!: obeysI keeps_objectsI dest: obeysD)

lemma objects_quiet: "obeys quiet m \<Longrightarrow> obeys (keeps_objects X) m"
  by (rule obeys_objectsI [where P = "{}"]) (auto simp: obeys_def intro: quiet_keeps wf_quiet)

lemma stage_path_key:
  assumes "commit_stage_key X a u raw = Inr key"
  shows "stage_path (key_names raw)"
proof -
  from assms obtain name where "key_names raw = key_names a @ [''staging'', name]" "is_commit_stage_name X name"
    by (rule commit_stage_key_Inr)
  then show ?thesis by (simp add: stage_path_def stage_name_ends)
qed

lemma objects_inspect:
  "obeys (keeps_objects X) (inspect_object X a k sz h)"
  "obeys (keeps_objects X) (inspect_commit_stage X a u k sz h)"
  unfolding inspect_object_def inspect_commit_stage_def
  by (auto intro!: objects_quiet quiet.obeys_rules quiet_intros)

lemma objects_lock: "obeys (keeps_objects X) (lock_upload_commit X u)"
proof (rule obeys_objectsI [where P = "{}"])
  show "obeys (keeps N {}) (lock_upload_commit X u)" for N
    unfolding lock_upload_commit_def Let_def by (auto intro!: obeys_intros keeps.obeys_rules)
qed (auto intro: wf_intros)

lemma objects_assemble: "obeys (keeps_objects X) (assemble_commit X a u parts key sz h)"
proof (rule obeysI)
  fix s r t
  assume run: "assemble_commit X a u parts key sz h s = (r, t)"
  show "keeps_objects X s t"
  proof (cases "commit_stage_key X a u key")
    case (Inl e)
    with run have "t = s" by (simp add: assemble_commit_def bindE_of_result fail_def)
    then show ?thesis by (simp add: objects.R_refl)
  next
    case (Inr k)
    show ?thesis
      by (rule keeps_objectsI [OF assemble_commit_keeps [OF run]])
         (use stage_path_key [OF Inr] run in \<open>auto intro: obeysD wf_intros\<close>)
  qed
qed

lemma objects_publish: "obeys (keeps_objects X) (publish_commit X a u k fk sz h)"
proof (rule obeys_objectsI [where P = "{}"])
  show "obeys (keeps N {}) (publish_commit X a u k fk sz h)" for N
    unfolding publish_commit_def inspect_commit_stage_def inspect_object_def
    by (intro keeps.obeys_rules lift_io_keeps rooted_keeps link_no_replace_keeps existing_keeps)
qed (auto intro: wf_intros)

lemma objects_remove_stage: "obeys (keeps_objects X) (remove_commit_stage X a u key)"
proof (cases "commit_stage_key X a u key")
  case (Inl e)
  then show ?thesis by (simp add: remove_commit_stage_def bindE_of_result objects.obeys_fail)
next
  case (Inr k)
  then have k: "k = key" "path_of key = map Normal (key_names key)"
    by (auto elim: commit_stage_key_Inr dest: key_path)
  have "obeys (keeps N {key_names key}) (remove_commit_stage X a u key)" for N
    using Inr k by (simp add: remove_commit_stage_def bindE_of_result lift_io_keeps remove_file_keeps)
  then show ?thesis
    by (rule obeys_objectsI) (use stage_path_key [OF Inr] in \<open>auto intro: wf_intros\<close>)
qed

lemma objects_put_part: "obeys (keeps_objects X) (put_part X rid u spec body limit)"
  by (auto intro!: obeysI keeps_objectsI [OF put_part_keeps] dest: obeysD [OF wf_put_part])

lemma objects_cleanup: "obeys (keeps_objects X) (cleanup_orphan_staging X a refs)"
proof (cases "key_parse a")
  case (Inl e)
  then show ?thesis by (simp add: cleanup_orphan_staging_def bindE_of_result objects.obeys_fail)
next
  case (Inr k)
  let ?dir = "path_join (path_of k) (path_of ''staging'')"
  have "obeys (keeps N (sweepable X ?dir refs)) (lift_io (list_regular_files ?dir))" for N
    by (rule lift_io_keeps)
       (auto simp: obeys_def intro!: quiet_keeps list_regular_files_quiet [unfolded obeys_def, rule_format])
  then have "obeys (keeps N (sweepable X ?dir refs)) (cleanup_orphan_staging X a refs)" for N
    unfolding cleanup_orphan_staging_def Inr bindE_of_result Let_def
    by (intro keeps.obeys_bindE cleanup_names_keeps)
  then show ?thesis by (rule obeys_objectsI) (auto intro: wf_intros sweepable_stage)
qed

end
