(* ===== verification/Commit_Frame.thy ===== *)
theory Commit_Frame
  imports Upload_Commit Stored_Objects
begin

text \<open>
  What a commit keeps, as an interface: a frame that the statements of the commit obey is obeyed by the
  whole commit.  \<open>commit_frame\<close> covers what a \<open>finalizing\<close> or \<open>committed\<close> upload still does,
  \<open>full_commit_frame\<close> the complete procedure.  \<open>K\<close> is what the invariant says of the keys of blobs.
\<close>

section \<open>Rows of the tables\<close>

lemma find_upload_in: "find_upload d i = Some u \<Longrightarrow> u \<in> set (t_uploads d) \<and> upl_id u = i"
  by (auto simp: find_upload_def dest: find_SomeD)

lemma find_account_in: "find_account d i = Some a \<Longrightarrow> a \<in> set (t_accounts d) \<and> acc_id a = i"
  by (auto simp: find_account_def dest: find_SomeD)

lemma blob_by_content_Some:
  assumes "blob_by_content a h d = Some c"
  obtains b where "b \<in> set (t_blobs d)" "blob_account_id b = a" "blob_content_blake3 b = h"
    "bc_id c = blob_id b" "bc_storage_path c = blob_storage_path b"
  using assms by (auto simp: blob_by_content_def blob_candidate_from_row_def dest!: find_SomeD)

text \<open>The keys in a candidate and in a loaded record satisfy \<open>K\<close>.\<close>

definition candidate_keys :: "(string \<Rightarrow> bool) \<Rightarrow> blob_candidate option \<Rightarrow> bool" where
  "candidate_keys K c \<longleftrightarrow> (\<forall>b. c = Some b \<longrightarrow> K (bc_storage_path b))"

definition record_keys :: "(string \<Rightarrow> bool) \<Rightarrow> commit_record \<Rightarrow> bool" where
  "record_keys K r \<longleftrightarrow> (\<forall>k. cm_final_key r = Some k \<longrightarrow> K k)"

section \<open>The last phases\<close>

locale commit_frame = server_frame I D F U for I D F U +
  fixes E :: app and K :: "string \<Rightarrow> bool"
  assumes unknown_law: "I d \<Longrightarrow> unknown_row j m now d = Some (n, d') \<Longrightarrow> I d' \<and> D d d'"
    and commit_law: "I d \<Longrightarrow> K (bc_storage_path c) \<Longrightarrow> commit_row rd c j dedup now d = Some (n, d') \<Longrightarrow> I d' \<and> D d d'"
    and blob_law: "I d \<Longrightarrow> K (blob_storage_path b) \<Longrightarrow> insert_blob b now d = Some (x, d') \<Longrightarrow> I d' \<and> D d d'"
    and resource_law: "I d \<Longrightarrow> upsert_resource_row j a bid rq now d = Some (rid, d') \<Longrightarrow> I d' \<and> D d d'"
    and change_law: "I d \<Longrightarrow> insert_change a kind j what now d = Some (x, d') \<Longrightarrow> I d' \<and> D d d'"
    and audit_law: "I d \<Longrightarrow> insert_audit_event a ak ai act ek ei now d = Some (x, d') \<Longrightarrow> I d' \<and> D d d'"
    and blob_K: "I d \<Longrightarrow> b \<in> set (t_blobs d) \<Longrightarrow> K (blob_storage_path b)"
    and inspect_law: "obeys F (inspect_object (app_externals E) p k sz h)"
    and inspect_stage_law: "obeys F (inspect_commit_stage (app_externals E) p j k sz h)"
    and publish_law: "obeys F (publish_commit (app_externals E) p j k fk sz h)"
    and remove_law: "obeys F (remove_commit_stage (app_externals E) p j k)"
begin

lemma gives_candidate: "gives I D F U (candidate_keys K) (in_tx (select (blob_by_content a h)))"
  by (rule gives_in_tx) (auto simp: candidate_keys_def blob_K elim!: blob_by_content_Some)

lemma frame_statements:
  "obeys (runs I D F U) (on_pool (unknown_row j m))"
  "obeys (runs I D F U) (in_tx (upsert_resource_row j a bid rq))"
  "obeys (runs I D F U) (in_tx (insert_change a k j m))"
  "obeys (runs I D F U) (in_tx (insert_audit_event a kind actor act ek ei))"
  by (rule obeys_on_pool obeys_in_tx, erule unknown_law resource_law change_law audit_law, assumption)+

lemma frame_commit_row: "K (bc_storage_path c) \<Longrightarrow> obeys (runs I D F U) (in_tx (commit_row rd c j dedup))"
  by (rule obeys_in_tx) (rule commit_law)

lemma frame_insert_blob: "K (blob_storage_path b) \<Longrightarrow> obeys (runs I D F U) (in_tx (insert_blob b))"
  by (rule obeys_in_tx) (rule blob_law)

lemma frame_unknown:
  "obeys (runs I D F U) (mark_unknown_message j m)" "obeys (runs I D F U) (mark_unknown r m)"
  unfolding mark_unknown_def mark_unknown_message_def
  by (auto intro!: obeys_rules frame_statements)

lemma frame_stop: "obeys (runs I D F U) (stop_at fp p)"
  by (simp add: stop_at_def obeys_ensure)

lemma frame_load:
  "obeys (runs I D F U) (load_commit E j q)" "obeys (runs I D F U) (load_blob_candidate a h)"
  "obeys (runs I D F U) (load_blob_candidate_in a h)"
  unfolding load_commit_def load_blob_candidate_def load_blob_candidate_in_def
  by (auto intro!: server_rules)

lemma frame_audit:
  "obeys (runs I D F U) (record_change a k j m)"
  "obeys (runs I D F U) (in_tx (insert_audit_event a kind actor act ek ei))"
  unfolding record_change_def by (rule frame_statements)+

lemma frame_upsert: "obeys (runs I D F U) (upsert_resource a b rq)"
  unfolding upsert_resource_def by (auto intro!: server_rules frame_statements)

lemma frame_fs:
  "obeys (runs I D F U) (on_fs (inspect_object (app_externals E) p k sz h))"
  "obeys (runs I D F U) (on_fs (inspect_commit_stage (app_externals E) p j k sz h))"
  "obeys (runs I D F U) (on_fs (publish_commit (app_externals E) p j k fk sz h))"
  "obeys (runs I D F U) (on_fs (remove_commit_stage (app_externals E) p j k))"
  by (rule obeys_on_fs, rule inspect_law inspect_stage_law publish_law remove_law)+

lemmas frame_base = frame_unknown frame_stop frame_load frame_audit frame_upsert frame_fs obeys_rules

lemma frame_validate: "obeys (runs I D F U) (validate_blob_candidate E rd c)"
  unfolding validate_blob_candidate_def
  by (auto intro!: frame_base split: sum.splits object_state.splits)

lemma frame_finish_metadata: "K (bc_storage_path c) \<Longrightarrow> obeys (runs I D F U) (finish_metadata rd c)"
  unfolding finish_metadata_def Let_def
  by (auto intro!: frame_base frame_commit_row)

lemma frame_commit_metadata:
  assumes rd: "K (rd_final_key rd)"
  shows "obeys (runs I D F U) (commit_metadata E rd c)"
proof -
  let ?approve = "\<lambda>row. bindE (of_result (ok_or (conflict ''blob metadata insert did not persist'') row)) (\<lambda>actual.
     if \<not> approved rd c actual then ret (Rollback (Validate_Candidate actual)) else finish_metadata rd actual)"
  have "obeys (runs I D F U) (?approve row)" if "candidate_keys K row" for row
    using that by (cases row) (auto simp: bindE_of_result candidate_keys_def intro!: obeys_rules frame_finish_metadata)
  then have load: "obeys (runs I D F U) (bindE (load_blob_candidate_in a h) ?approve)" for a h
    unfolding load_blob_candidate_in_def
    by (rule obeys_bind_gives [OF obeys_select(2) gives_candidate])
  show ?thesis
    unfolding commit_metadata_def metadata_body_def using rd
    by (auto intro!: obeys_transaction obeys_bindE [OF obeys_select(2)]
        obeys_bindE [OF obeys_of_result] obeys_bindE [OF frame_insert_blob] obeys_ret load)
qed

lemma frame_race_retry: "K (rd_final_key rd) \<Longrightarrow> obeys (runs I D F U) (race_retry E rd n c)"
  by (induction n arbitrary: c)
     (auto intro!: frame_base frame_validate frame_commit_metadata split: option.splits metadata_result.splits)

lemma frame_publish_content: "obeys (runs I D F U) (publish_content E r rd fp)"
  unfolding publish_content_def inspect_final_def
  by (auto intro!: frame_base split: sum.splits object_state.splits option.splits)

lemma frame_finish: "K (rd_final_key rd) \<Longrightarrow> obeys (runs I D F U) (finish_commit E rd fp)"
  unfolding finish_commit_def commit_metadata_with_race_retry_def
  by (auto intro!: frame_base frame_race_retry split: option.splits)

lemma frame_validate_committed: "obeys (runs I D F U) (validate_committed E r)"
  unfolding validate_committed_def
  by (auto intro!: frame_base obeys_select split: sum.splits option.splits object_state.splits)

lemma frame_drive_finalizing:
  assumes st: "cm_commit_state r \<noteq> COMMIT_STARTED" and K: "\<And>k. cm_final_key r = Some k \<Longrightarrow> K k"
  shows "obeys (runs I D F U) (drive_commit E r fp)"
proof (cases "ready_commit r")
  case (Inl m)
  then show ?thesis by (simp add: drive_commit_def frame_unknown)
next
  case (Inr rd)
  then have "K (rd_final_key rd)" by (intro K) (auto simp: ready_commit_def split: option.splits if_splits)
  with Inr st show ?thesis
    by (auto simp: drive_commit_def intro!: obeys_rules frame_publish_content frame_finish)
qed

end

section \<open>The complete procedure\<close>

locale full_commit_frame = commit_frame I D F U E K for I D F U E K +
  assumes failed_law: "I d \<Longrightarrow> failed_row j m now d = Some (n, d') \<Longrightarrow> I d' \<and> D d d'"
    and finalizing_law: "I d \<Longrightarrow> finalizing_row j now d = Some (n, d') \<Longrightarrow> I d' \<and> D d d'"
    and start_law: "I d \<Longrightarrow> K (ck_final_blob ks) \<Longrightarrow> st = COMMIT_STARTED \<or> st = FINALIZING \<Longrightarrow>
      start_row r ap st ks width j now d = Some (n, d') \<Longrightarrow> I d' \<and> D d d'"
    and upload_K: "I d \<Longrightarrow> u \<in> set (t_uploads d) \<Longrightarrow> upl_commit_final_key u = Some k \<Longrightarrow> K k"
    and keys_K: "commit_keys (app_externals E) v ap i h = Inr ks \<Longrightarrow> K (ck_final_blob ks)"
    and lock_law: "obeys F (lock_upload_commit (app_externals E) j)"
    and assemble_law: "obeys F (assemble_commit (app_externals E) p j parts k sz h)"
begin

lemma load_gives_row: "gives I D F U (\<lambda>row. \<forall>u p k. row = Some (u, p) \<longrightarrow> upl_commit_final_key u = Some k \<longrightarrow> K k)
   (on_pool (select (\<lambda>d. case find_upload d j of
         None \<Rightarrow> None
       | Some u \<Rightarrow> if q = None \<or> q = Some (upl_account_id u)
           then map_option (\<lambda>a. (u, acc_storage_path a)) (find_account d (upl_account_id u)) else None)))"
  by (rule gives_on_pool) (auto split: option.splits if_splits dest!: find_upload_in intro: upload_K)

lemma load_gives: "gives I D F U (record_keys K) (load_commit E j q)"
  unfolding load_commit_def
  by (rule gives_bind [OF obeys_select(1) load_gives_row])
     (auto simp: gives_def bindE_Inr_iff of_result_Inr ret_def record_keys_def)

lemma frame_marking:
  "obeys (runs I D F U) (on_pool (failed_row j m))" "obeys (runs I D F U) (on_pool (finalizing_row j))"
  by (rule obeys_on_pool, erule failed_law finalizing_law, assumption)+

lemma frame_start_row:
  "K (ck_final_blob ks) \<Longrightarrow> st = COMMIT_STARTED \<or> st = FINALIZING \<Longrightarrow>
    obeys (runs I D F U) (in_tx (start_row r ap st ks width j))"
  by (rule obeys_in_tx) (rule start_law)

lemma frame_marks:
  "obeys (runs I D F U) (mark_failed_message j m)" "obeys (runs I D F U) (mark_failed r m)"
  "obeys (runs I D F U) (transition_to_finalizing j)"
  unfolding mark_failed_def mark_failed_message_def transition_to_finalizing_def
  by (auto intro!: obeys_rules frame_marking)

lemma frame_stores:
  "obeys (runs I D F U) (on_fs (lock_upload_commit (app_externals E) j))"
  "obeys (runs I D F U) (on_fs (assemble_commit (app_externals E) p j parts k sz h))"
  by (rule obeys_on_fs, rule lock_law assemble_law)+

lemma choose_gives:
  assumes "candidate_keys K c"
  shows "gives I D F U (\<lambda>(st, ks, j). K (ck_final_blob ks) \<and> (st = COMMIT_STARTED \<or> st = FINALIZING))
    (choose_blob E r ap q c)"
  using assms
  by (auto simp: gives_def choose_blob_def candidate_keys_def bindE_Inr_iff of_result_Inr ret_def
      dest: keys_K split: option.splits)

lemma frame_choose: "obeys (runs I D F U) (choose_blob E r ap q c)"
  unfolding choose_blob_def ensure_commit_quota_def
  by (auto intro!: server_rules split: option.splits)

lemma frame_choose_bind:
  assumes "candidate_keys K c"
    and "\<And>st ks j. K (ck_final_blob ks) \<Longrightarrow> st = COMMIT_STARTED \<or> st = FINALIZING \<Longrightarrow>
      obeys (runs I D F U) (f (st, ks, j))"
  shows "obeys (runs I D F U) (bindE (choose_blob E r ap q c) f)"
  by (rule obeys_bind_gives [OF frame_choose choose_gives [OF assms(1)]]) (use assms(2) in auto)

lemma frame_begin_transaction: "obeys (runs I D F U) (begin_transaction E r)"
  unfolding begin_transaction_def load_blob_candidate_in_def
  by (rule obeys_bindE [OF obeys_select(2)] obeys_bindE [OF obeys_of_result]
        obeys_bindE [OF obeys_ensure] obeys_bind_gives [OF obeys_select(2) gives_candidate]
        frame_choose_bind | assumption)+
     (auto intro!: obeys_rules frame_start_row)

lemma frame_begin: "obeys (runs I D F U) (begin_commit E r)"
  unfolding begin_commit_def
  by (auto intro!: frame_base frame_marks frame_begin_transaction server_rules)

lemma begin_gives: "gives I D F U (record_keys K) (begin_commit E r)"
  unfolding begin_commit_def mark_failed_def mark_failed_message_def
  by (intro gives_bind [OF obeys_of_result gives_any] gives_if
      gives_no_result gives_bind [OF obeys_select(1) gives_any]
      gives_bind [OF obeys_ensure gives_any]
      gives_bind [OF obeys_transaction [OF frame_begin_transaction] gives_any]
      load_gives)

lemma frame_stage_content: "obeys (runs I D F U) (stage_content E r rd fp)"
  unfolding stage_content_def inspect_final_def
  by (auto intro!: frame_base frame_marks frame_stores split: sum.splits object_state.splits option.splits)

lemma ready_K: "record_keys K r \<Longrightarrow> ready_commit r = Inr rd \<Longrightarrow> K (rd_final_key rd)"
  by (auto simp: record_keys_def ready_commit_def split: option.splits if_splits)

lemma frame_drive: "record_keys K r \<Longrightarrow> obeys (runs I D F U) (drive_commit E r fp)"
  unfolding drive_commit_def
  by (auto intro!: frame_base frame_marks frame_stage_content frame_publish_content frame_finish dest: ready_K
      split: sum.splits)

lemma frame_complete: "obeys (runs I D F U) (complete_inner E j q fp)"
  unfolding complete_inner_def
  by (auto intro!: frame_base frame_validate_committed frame_drive obeys_bindE [OF frame_stores(1)]
      obeys_bind_gives [OF frame_load(1) load_gives]
      obeys_bind_gives [OF frame_begin begin_gives])

end

end
