(* ===== verification/Upload_Commit_Correct.thy ===== *)
theory Upload_Commit_Correct
  imports Commit_Frame
begin

text \<open>
  Correctness of the upload commit, whatever fails and whatever the other requests do between its
  statements: a commit that reports success has stored the declared content and its metadata, and the
  commit state of an upload only moves along the edges of the protocol.
\<close>

section \<open>Updates of the upload rows\<close>

lemma update_uploads_Some:
  "update_uploads P f d = Some (n, d') \<longleftrightarrow> n = length (filter P (t_uploads d)) \<and>
     d' = d\<lparr>t_uploads := map (\<lambda>u. if P u then f u else u) (t_uploads d)\<rparr>"
  by (auto simp: update_uploads_def update_rows_def)

lemma find_upload_update:
  assumes "update_uploads P f d = Some (n, d')" "\<And>u. upl_id (f u) = upl_id u"
  shows "find_upload d' i = map_option (\<lambda>u. if P u then f u else u) (find_upload d i)"
  using assms by (auto simp: update_uploads_Some find_upload_def intro!: find_map_same)

lemma update_uploads_hit: "update_uploads P f d = Some (n, d') \<Longrightarrow> n \<noteq> 0 \<Longrightarrow> \<exists>u \<in> set (t_uploads d). P u"
  by (auto simp: update_uploads_Some filter_empty_conv)

text \<open>The columns of an upload no request changes.\<close>

definition upload_identity :: "upload \<Rightarrow> uuid \<times> uuid \<times> uuid \<times> string \<times> string \<times> json" where
  "upload_identity u = (upl_account_id u, upl_device_id u, upl_asset_id u, upl_source_resource_id u,
     upl_content_blake3 u, upl_request u)"

definition same_upload :: "uuid \<Rightarrow> tables \<Rightarrow> tables \<Rightarrow> bool" where
  "same_upload i d d' \<longleftrightarrow> (case find_upload d i of
     None \<Rightarrow> find_upload d' i = None
   | Some u \<Rightarrow> (case find_upload d' i of None \<Rightarrow> True | Some v \<Rightarrow> upload_identity v = upload_identity u))"

text \<open>
  The primary key of \<open>uploads\<close>; and no blob, nor a blob about to be made, lies where the sweep of the
  stages looks.
\<close>

definition commit_tables :: "tables \<Rightarrow> bool" where
  "commit_tables d \<longleftrightarrow> distinct (map upl_id (t_uploads d)) \<and> (\<forall>b \<in> set (t_blobs d). \<not> stage_path (key_names (blob_storage_path b))) \<and>
     (\<forall>u \<in> set (t_uploads d). \<forall>k. upl_commit_final_key u = Some k \<longrightarrow> \<not> stage_path (key_names k))"

abbreviation clear_key :: "string \<Rightarrow> bool" where
  "clear_key k \<equiv> \<not> stage_path (key_names k)"

lemma update_keeps:
  assumes I: "commit_tables d" and up: "update_uploads P f d = Some (n, d')"
    and f: "\<And>u. upl_id (f u) = upl_id u \<and> upload_identity (f u) = upload_identity u"
    and key: "\<And>u k. upl_commit_final_key (f u) = Some k \<Longrightarrow> upl_commit_final_key u = Some k \<or> clear_key k"
  shows "commit_tables d' \<and> same_upload i d d'"
proof
  show "same_upload i d d'"
    using f by (auto simp: same_upload_def find_upload_update [OF up] split: option.splits)
  show "commit_tables d'"
    using I up f by (auto simp: commit_tables_def update_uploads_Some comp_def if_distrib cong: if_cong) (metis key)
qed

lemma same_uploads:
  "commit_tables d \<Longrightarrow> t_uploads d' = t_uploads d \<Longrightarrow> t_blobs d' = t_blobs d \<Longrightarrow> commit_tables d' \<and> same_upload i d d'"
  by (simp add: commit_tables_def same_upload_def find_upload_def split: option.splits)

lemma commit_keys_clear:
  assumes "commit_keys X v account u hash = Inr ks"
  shows "clear_key (ck_final_blob ks)"
proof -
  have "list_all is_ascii_hexdigit (to_ascii_lowercase hash)"
    by (rule hex_lower) (rule commit_keys_final [OF assms])
  moreover have "\<not> is_ascii_hexdigit (CHR ''.'')" by (simp add: is_ascii_hexdigit_def is_ascii_digit_def code_def)
  ultimately show ?thesis
    by (auto simp: stage_path_def commit_keys_final [OF assms] ends_with_iff)
qed

lemma insert_blob_keeps:
  "commit_tables d \<Longrightarrow> clear_key (blob_storage_path b) \<Longrightarrow> insert_blob b now d = Some (x, d') \<Longrightarrow>
    commit_tables d' \<and> same_upload i d d'"
  by (auto simp: insert_blob_def commit_tables_def same_upload_def find_upload_def split: if_splits option.splits)

interpretation commit: full_commit_frame commit_tables "same_upload i" "keeps_objects (app_externals E)" "{}" E clear_key
proof unfold_locales
  show "commit_tables d \<Longrightarrow> unknown_row j m now d = Some (n, d') \<Longrightarrow> commit_tables d' \<and> same_upload i d d'" for d j m now n d'
    unfolding unknown_row_def by (rule update_keeps, assumption, assumption) (auto simp: upload_identity_def split: if_splits)
  show "commit_tables d \<Longrightarrow> failed_row j m now d = Some (n, d') \<Longrightarrow> commit_tables d' \<and> same_upload i d d'" for d j m now n d'
    unfolding failed_row_def by (rule update_keeps, assumption, assumption) (auto simp: upload_identity_def split: if_splits)
  show "commit_tables d \<Longrightarrow> finalizing_row j now d = Some (n, d') \<Longrightarrow> commit_tables d' \<and> same_upload i d d'" for d j now n d'
    unfolding finalizing_row_def by (rule update_keeps, assumption, assumption) (auto simp: upload_identity_def split: if_splits)
  show "commit_tables d \<Longrightarrow> clear_key (bc_storage_path c) \<Longrightarrow> commit_row rd c j q now d = Some (n, d') \<Longrightarrow>
      commit_tables d' \<and> same_upload i d d'" for d c rd j q now n d'
    unfolding commit_row_def by (rule update_keeps, assumption, assumption) (auto simp: upload_identity_def split: if_splits)
  show "commit_tables d \<Longrightarrow> clear_key (ck_final_blob ks) \<Longrightarrow> st = COMMIT_STARTED \<or> st = FINALIZING \<Longrightarrow>
      start_row r ap st ks sz j now d = Some (n, d') \<Longrightarrow> commit_tables d' \<and> same_upload i d d'"
    for d ks st r ap sz j now n d'
    unfolding start_row_def by (rule update_keeps, assumption, assumption) (auto simp: upload_identity_def split: if_splits)
qed (auto simp: insert_blob_keeps commit_keys_clear upsert_resource_row_def insert_change_def insert_audit_event_def
    objects_inspect objects_publish objects_remove_stage objects_lock objects_assemble
    intro!: same_uploads split: if_splits option.splits,
  auto simp: commit_tables_def same_upload_def find_upload_def keeps_objects_def split: option.splits)

abbreviation commit_rely :: "app \<Rightarrow> uuid \<Rightarrow> server \<Rightarrow> bool" where
  "commit_rely E i \<equiv> rely commit_tables (same_upload i) (keeps_objects (app_externals E)) {}"

abbreviation commit_runs :: "app \<Rightarrow> uuid \<Rightarrow> server \<Rightarrow> server \<Rightarrow> bool" where
  "commit_runs E i \<equiv> runs commit_tables (same_upload i) (keeps_objects (app_externals E)) {}"

lemmas commit_intros = commit.frame_base commit.frame_validate commit.frame_race_retry commit.frame_publish_content
  commit.frame_finish commit.frame_validate_committed commit.frame_marks commit.frame_stores commit.frame_begin
  commit.frame_stage_content commit.frame_drive

lemma ready_commit_Inr:
  assumes "ready_commit r = Inr rd"
  shows "rd_upload_id rd = cm_upload_id r" "rd_account_id rd = cm_account_id r"
    "rd_asset_id rd = cm_asset_id r" "rd_request rd = cm_request r" "rd_staged_key rd = cm_staged_key r"
    "cm_final_key r = Some (rd_final_key rd)" "cm_blob_id r = Some (rd_proposed_blob_id rd)"
    "rd_expected_size rd = cu_content_size (cm_request r)"
    "rd_expected_blake3 rd = cu_content_blake3 (cm_request r)"
    "unat (rd_expected_size rd) < u64_max" "rd_account_path rd = cm_current_account_path r"
    "cm_commit_account_path r = Some (rd_account_path rd)" "cm_expected_blake3 r = Some (rd_expected_blake3 rd)"
proof -
  from assms obtain ap n h k p where
    *: "cm_commit_account_path r = Some ap" "ap = cm_current_account_path r"
      "Option.bind (cm_expected_size r) u64_of_i64 = Some n" "cm_expected_blake3 r = Some h"
      "n = cu_content_size (cm_request r)" "h = cu_content_blake3 (cm_request r)"
      "cm_final_key r = Some k" "cm_blob_id r = Some p"
      "rd = \<lparr>rd_upload_id = cm_upload_id r, rd_account_id = cm_account_id r, rd_asset_id = cm_asset_id r,
          rd_request = cm_request r, rd_staged_key = cm_staged_key r, rd_final_key = k,
          rd_account_path = ap, rd_expected_size = n, rd_expected_blake3 = h, rd_proposed_blob_id = p\<rparr>"
    by (auto simp: ready_commit_def split: option.splits if_splits)
  from *(3) obtain z where "u64_of_i64 z = Some n" by (auto simp: bind_eq_Some_conv)
  then have "unat n < u64_max"
    by (auto simp: u64_of_i64_def i64_max_def u64_max_def unsigned_of_int take_bit_int_eq_self split: if_splits)
  with * show "rd_upload_id rd = cm_upload_id r" "rd_account_id rd = cm_account_id r"
    "rd_asset_id rd = cm_asset_id r" "rd_request rd = cm_request r" "rd_staged_key rd = cm_staged_key r"
    "cm_final_key r = Some (rd_final_key rd)" "cm_blob_id r = Some (rd_proposed_blob_id rd)"
    "rd_expected_size rd = cu_content_size (cm_request r)"
    "rd_expected_blake3 rd = cu_content_blake3 (cm_request r)"
    "unat (rd_expected_size rd) < u64_max" "rd_account_path rd = cm_current_account_path r"
    "cm_commit_account_path r = Some (rd_account_path rd)" "cm_expected_blake3 r = Some (rd_expected_blake3 rd)"
    by simp_all
qed

section \<open>What a committed upload has\<close>

text \<open>
  The account owns a blob row with the content hash of the request, the resource refers to it, and the
  object under the blob's key has the size and the hash the request declared.
\<close>

definition backed_up :: "app \<Rightarrow> server \<Rightarrow> uuid \<Rightarrow> uuid \<Rightarrow> create_upload_request \<Rightarrow> uuid \<Rightarrow> bool" where
  "backed_up E s account asset_id request resource_id \<longleftrightarrow>
     (\<exists>r \<in> set (t_resources (srv_db s)). \<exists>b \<in> set (t_blobs (srv_db s)).
        res_id r = resource_id \<and> res_asset_id r = asset_id \<and> res_blob_id r = blob_id b \<and>
        blob_account_id b = account \<and> blob_content_blake3 b = cu_content_blake3 request \<and>
        holds (app_externals E) (srv_fs s) (key_names (blob_storage_path b))
          (cu_content_size request) (cu_content_blake3 request))"

lemma upsert_resource_row_Some:
  assumes "upsert_resource_row j a b rq now d = Some (rid, d')"
  shows "(\<exists>r \<in> set (t_resources d'). res_id r = rid \<and> res_asset_id r = a \<and> res_blob_id r = b) \<and>
    t_blobs d' = t_blobs d \<and> t_uploads d' = t_uploads d"
proof (cases "find (\<lambda>r. res_asset_id r = a \<and> res_source_resource_id r = cu_source_resource_id rq) (t_resources d)")
  case None
  with assms show ?thesis by (auto simp: upsert_resource_row_def split: if_splits)
next
  case (Some r)
  let ?f = "\<lambda>q. if res_asset_id q = a \<and> res_source_resource_id q = cu_source_resource_id rq
            then q\<lparr>res_blob_id := b, res_role := cu_role rq, res_filename := cu_filename rq,
                   res_mime_type := cu_mime_type rq, res_metadata := cu_metadata rq\<rparr> else q"
  from find_SomeD [OF Some] have "?f r \<in> set (map ?f (t_resources d))"
    "res_id (?f r) = res_id r \<and> res_asset_id (?f r) = a \<and> res_blob_id (?f r) = b" by auto
  moreover have "d' = d\<lparr>t_resources := map ?f (t_resources d)\<rparr>" "rid = res_id r"
    using assms Some by (auto simp: upsert_resource_row_def split: if_splits)
  ultimately show ?thesis by (auto simp del: set_map)
qed

lemma finish_metadata_Inr:
  assumes "finish_metadata rd c s = (Inr m, t)"
  obtains out where "m = Commit (Metadata_Committed out)" "out_asset_id out = rd_asset_id rd"
    "\<exists>r \<in> set (t_resources (srv_db t)). res_id r = out_resource_id out \<and> res_asset_id r = rd_asset_id rd
       \<and> res_blob_id r = bc_id c"
    "t_blobs (srv_db t) = t_blobs (srv_db s)" "srv_fs t = srv_fs s"
  using assms
  by (auto simp: finish_metadata_def Let_def bindE_Inr_iff upsert_resource_def fresh_uuid_def in_tx_Inr
      record_change_def insert_change_def insert_audit_event_def ensure_run commit_row_def update_uploads_Some ret_def
      split: if_splits dest!: upsert_resource_row_Some) blast

lemma metadata_body_Inr:
  assumes "metadata_body E rd c u = (Inr (Commit m), v)"
  shows "\<exists>w actual. finish_metadata rd actual w = (Inr (Commit m), v) \<and> approved rd c actual \<and>
    blob_by_content (rd_account_id rd) (rd_expected_blake3 rd) (srv_db w) = Some actual \<and> srv_fs w = srv_fs u"
  using assms
  apply (auto simp: metadata_body_def bindE_Inr_iff in_tx_Inr select_def ret_def of_result_Inr
      load_blob_candidate_in_def split: if_splits)
  apply (intro exI conjI)
     apply assumption+
   apply simp_all
  done

text \<open>The transaction of \<open>commit_metadata\<close>, when it commits.\<close>

lemma commit_metadata_Inr:
  assumes run: "commit_metadata E rd c s = (Inr (Metadata_Committed out), t)"
  obtains b actual where "approved rd c actual" "b \<in> set (t_blobs (srv_db t))"
    "bc_id actual = blob_id b" "bc_storage_path actual = blob_storage_path b"
    "blob_account_id b = rd_account_id rd" "blob_content_blake3 b = rd_expected_blake3 rd"
    "out_asset_id out = rd_asset_id rd"
    "\<exists>r \<in> set (t_resources (srv_db t)). res_id r = out_resource_id out \<and> res_asset_id r = rd_asset_id rd
       \<and> res_blob_id r = blob_id b"
    "srv_fs t = srv_fs (run_others s)"
proof -
  from run [unfolded commit_metadata_def] show thesis
  proof (cases rule: transaction_Inr)
    case (commit u v)
    from metadata_body_Inr [OF commit(2)] obtain w actual where
      w: "srv_fs w = srv_fs u" "blob_by_content (rd_account_id rd) (rd_expected_blake3 rd) (srv_db w) = Some actual"
        "approved rd c actual" "finish_metadata rd actual w = (Inr (Commit (Metadata_Committed out)), v)"
      by blast
    from w(2) obtain b where b: "b \<in> set (t_blobs (srv_db w))" "blob_account_id b = rd_account_id rd"
      "blob_content_blake3 b = rd_expected_blake3 rd" "bc_id actual = blob_id b"
      "bc_storage_path actual = blob_storage_path b" by (rule blob_by_content_Some)
    from w(4) obtain o' where "Commit (Metadata_Committed out) = Commit (Metadata_Committed o')"
      and o: "out_asset_id o' = rd_asset_id rd"
        "\<exists>r \<in> set (t_resources (srv_db v)). res_id r = out_resource_id o' \<and> res_asset_id r = rd_asset_id rd
           \<and> res_blob_id r = bc_id actual"
        "t_blobs (srv_db v) = t_blobs (srv_db w)" "srv_fs v = srv_fs w"
      by (rule finish_metadata_Inr)
    then have "o' = out" by simp
    with that [OF w(3), of b] b o w(1) commit(1,3) show thesis by simp
  next
    case (rollback u v)
    then show thesis
      by (auto simp: metadata_body_def bindE_Inr_iff ret_def of_result_Inr elim: finish_metadata_Inr split: if_splits)
  qed
qed

lemma marks_never_return:
  "mark_unknown_message j m s \<noteq> (Inr x, t)" "mark_failed_message j m s \<noteq> (Inr x, t)"
  "mark_unknown r m s \<noteq> (Inr x, t)" "mark_failed r m s \<noteq> (Inr x, t)"
  by (auto simp: mark_unknown_def mark_failed_def mark_unknown_message_def mark_failed_message_def
      bindE_Inr_iff fail_def)

text \<open>Inversion of a run that returned, where the other branches cannot.\<close>

lemma returns_simps:
  "(\<And>e. f e s \<noteq> (Inr y, t)) \<Longrightarrow> case_sum f g x s = (Inr y, t) \<longleftrightarrow> (\<exists>v. x = Inr v \<and> g v s = (Inr y, t))"
  "m s \<noteq> (Inr y, t) \<Longrightarrow> case_option m h z s = (Inr y, t) \<longleftrightarrow> (\<exists>v. z = Some v \<and> h v s = (Inr y, t))"
  "m' s \<noteq> (Inr y, t) \<Longrightarrow> case_object_state m n m' st s = (Inr y, t) \<longleftrightarrow>
     st = Missing \<and> m s = (Inr y, t) \<or> st = Matches \<and> n s = (Inr y, t)"
  by (auto split: sum.splits option.splits object_state.splits)

lemmas inversion_simps = bindE_Inr_iff attempt_Inr on_fs_Inr of_result_Inr ensure_run marks_never_return
  returns_simps

lemma validate_blob_candidate_Inr:
  assumes "validate_blob_candidate E rd c s = (Inr (), t)" "unat (rd_expected_size rd) < u64_max"
  shows "holds (app_externals E) (srv_fs t) (key_names (bc_storage_path c)) (rd_expected_size rd) (rd_expected_blake3 rd)"
  using assms(1)
  by (auto simp: validate_blob_candidate_def inversion_simps ret_def split: if_splits
      dest!: inspect_object_Matches [OF _ assms(2)])

section \<open>A commit that succeeds has a backup\<close>

text \<open>The assumptions on a state, and how they travel along a run.\<close>

definition commit_ok :: "app \<Rightarrow> uuid \<Rightarrow> server \<Rightarrow> bool" where
  "commit_ok E i s \<longleftrightarrow> commit_rely E i s \<and> commit_tables (srv_db s) \<and> fs_wf (srv_fs s)"

lemma commit_ok_runs: "commit_ok E i s \<Longrightarrow> commit_runs E i s t \<Longrightarrow> commit_ok E i t"
  by (auto simp: commit_ok_def runs_def keeps_objects_def intro: rely_same_world)

lemma commit_ok_step: "obeys (commit_runs E i) m \<Longrightarrow> m s = (r, t) \<Longrightarrow> commit_ok E i s \<Longrightarrow> commit_ok E i t"
  by (blast intro: commit_ok_runs dest: obeysD)

lemma commit_ok_holds:
  assumes "commit_ok E i s" "commit_runs E i s t" "holds (app_externals E) (srv_fs s) ns sz h" "\<not> stage_path ns"
  shows "holds (app_externals E) (srv_fs t) ns sz h"
  using assms by (auto simp: commit_ok_def runs_def dest: keeps_objectsD)

abbreviation held :: "app \<Rightarrow> ready_commit_record \<Rightarrow> server \<Rightarrow> string \<Rightarrow> bool" where
  "held E rd s path \<equiv> holds (app_externals E) (srv_fs s) (key_names path) (rd_expected_size rd) (rd_expected_blake3 rd)"

definition ready_ok :: "ready_commit_record \<Rightarrow> bool" where
  "ready_ok rd \<longleftrightarrow> clear_key (rd_final_key rd) \<and> unat (rd_expected_size rd) < u64_max \<and>
     rd_expected_size rd = cu_content_size (rd_request rd) \<and> rd_expected_blake3 rd = cu_content_blake3 (rd_request rd)"

lemma ready_okI: "record_keys clear_key r \<Longrightarrow> ready_commit r = Inr rd \<Longrightarrow> ready_ok rd"
  using ready_commit_Inr [of r rd] commit.ready_K [of r rd] by (simp add: ready_ok_def)

definition candidate_held :: "app \<Rightarrow> ready_commit_record \<Rightarrow> server \<Rightarrow> blob_candidate option \<Rightarrow> bool" where
  "candidate_held E rd s c \<longleftrightarrow> (\<forall>b. c = Some b \<longrightarrow>
     \<not> stage_path (key_names (bc_storage_path b)) \<longrightarrow> held E rd s (bc_storage_path b))"

lemma candidate_held_runs:
  "commit_ok E i s \<Longrightarrow> commit_runs E i s t \<Longrightarrow> candidate_held E rd s c \<Longrightarrow> candidate_held E rd t c"
  by (auto simp: candidate_held_def intro: commit_ok_holds)

lemma commit_metadata_backed_up:
  assumes run: "commit_metadata E rd c s = (Inr (Metadata_Committed out), t)"
    and ok: "commit_ok E i s" "ready_ok rd" and final_key: "held E rd s (rd_final_key rd)"
    and c: "candidate_held E rd s c"
  shows "backed_up E t (rd_account_id rd) (rd_asset_id rd) (rd_request rd) (out_resource_id out) \<and>
    out_asset_id out = rd_asset_id rd"
proof -
  from run obtain b actual where b: "approved rd c actual" "b \<in> set (t_blobs (srv_db t))"
    "bc_id actual = blob_id b" "bc_storage_path actual = blob_storage_path b"
    "blob_account_id b = rd_account_id rd" "blob_content_blake3 b = rd_expected_blake3 rd"
    "out_asset_id out = rd_asset_id rd"
    "\<exists>r \<in> set (t_resources (srv_db t)). res_id r = out_resource_id out \<and> res_asset_id r = rd_asset_id rd
       \<and> res_blob_id r = blob_id b" by (rule commit_metadata_Inr)
  have st: "commit_runs E i s t"
    by (rule obeysD [OF commit.frame_commit_metadata run]) (use ok(2) in \<open>simp add: ready_ok_def\<close>)
  have "commit_tables (srv_db t)" using commit_ok_runs [OF ok(1) st] by (simp add: commit_ok_def)
  with b(2) have clear: "\<not> stage_path (key_names (blob_storage_path b))" by (simp add: commit_tables_def)
  from b(1) have "held E rd s (blob_storage_path b)"
    using final_key c b(4) clear by (auto simp: approved_def candidate_held_def split: option.splits)
  from commit_ok_holds [OF ok(1) st this clear] have "held E rd t (blob_storage_path b)" .
  with b ok(2) show ?thesis by (auto simp: backed_up_def ready_ok_def)
qed

lemma race_retry_backed_up:
  assumes "race_retry E rd n c s = (Inr out, t)" "commit_ok E i s" "ready_ok rd"
    "held E rd s (rd_final_key rd)" "candidate_held E rd s c"
  shows "backed_up E t (rd_account_id rd) (rd_asset_id rd) (rd_request rd) (out_resource_id out) \<and>
    out_asset_id out = rd_asset_id rd"
  using assms
proof (induction n arbitrary: c s)
  case 0
  then show ?case by (simp add: fail_def)
next
  case (Suc n)
  have rd: "clear_key (rd_final_key rd)" "unat (rd_expected_size rd) < u64_max"
    using Suc.prems(3) by (auto simp: ready_ok_def)
  from Suc.prems(1) obtain row s1 c' s2 m s3 where
    s1: "load_blob_candidate (rd_account_id rd) (rd_expected_blake3 rd) s = (Inr row, s1)" and
    s2: "(case row of None \<Rightarrow> ret c | Some b \<Rightarrow> bindE (validate_blob_candidate E rd b) (\<lambda>_. ret (Some b))) s1 = (Inr c', s2)" and
    s3: "commit_metadata E rd c' s2 = (Inr m, s3)" and
    rest: "(case m of Metadata_Committed out \<Rightarrow> ret out
       | Validate_Candidate c \<Rightarrow> bindE (validate_blob_candidate E rd c) (\<lambda>_. race_retry E rd n (Some c))
       | Account_Path_Changed \<Rightarrow> mark_unknown_message (rd_upload_id rd)
           ''account storage path changed during upload commit'') s3 = (Inr out, t)"
    by (simp only: race_retry.simps bindE_Inr_iff) blast
  have r1: "commit_runs E i s s1" by (rule obeysD [OF commit.frame_load(2) s1])
  have r2: "commit_runs E i s1 s2"
    using s2 by (rule obeysD [rotated]) (auto intro!: commit_intros commit.obeys_rules split: option.splits)
  have r3: "commit_runs E i s2 s3" by (rule obeysD [OF commit.frame_commit_metadata [OF rd(1)] s3])
  have r12: "commit_runs E i s s2" using r1 r2 by (rule commit.runs_trans)
  have r13: "commit_runs E i s s3" using r12 r3 by (rule commit.runs_trans)
  note ok2 = commit_ok_runs [OF Suc.prems(2) r12] and ok3 = commit_ok_runs [OF Suc.prems(2) r13]
  have h2: "held E rd s2 (rd_final_key rd)" and h3: "held E rd s3 (rd_final_key rd)"
    using commit_ok_holds [OF Suc.prems(2) _ Suc.prems(4) rd(1)] r12 r13 by auto
  have c2: "candidate_held E rd s2 c'"
  proof (cases row)
    case None
    with s2 candidate_held_runs [OF Suc.prems(2) r12 Suc.prems(5)] show ?thesis by (simp add: ret_def)
  next
    case (Some b)
    with s2 have "c' = Some b" "validate_blob_candidate E rd b s1 = (Inr (), s2)"
      by (auto simp: bindE_Inr_iff ret_def)
    with validate_blob_candidate_Inr [OF _ rd(2)] show ?thesis by (auto simp: candidate_held_def)
  qed
  show ?case
  proof (cases m)
    case (Metadata_Committed o')
    with rest have "o' = out" "t = s3" by (auto simp: ret_def)
    with commit_metadata_backed_up [OF _ ok2 Suc.prems(3) h2 c2] s3 Metadata_Committed show ?thesis by simp
  next
    case (Validate_Candidate b)
    with rest obtain s4 where s4: "validate_blob_candidate E rd b s3 = (Inr (), s4)"
      and go: "race_retry E rd n (Some b) s4 = (Inr out, t)" by (auto simp: bindE_Inr_iff)
    have r4: "commit_runs E i s3 s4" by (rule obeysD [OF commit.frame_validate s4])
    show ?thesis
      by (rule Suc.IH [OF go commit_ok_runs [OF ok3 r4] Suc.prems(3) commit_ok_holds [OF ok3 r4 h3 rd(1)]])
         (use validate_blob_candidate_Inr [OF s4 rd(2)] in \<open>simp add: candidate_held_def\<close>)
  next
    case Account_Path_Changed
    with rest show ?thesis by (simp add: marks_never_return)
  qed
qed

text \<open>The lock file of an upload: nobody else moves its commit state (its row may be deleted).\<close>

definition same_state :: "uuid \<Rightarrow> tables \<Rightarrow> tables \<Rightarrow> bool" where
  "same_state i d d' \<longleftrightarrow> (case find_upload d i of
     None \<Rightarrow> find_upload d' i = None
   | Some u \<Rightarrow> (case find_upload d' i of None \<Rightarrow> True | Some v \<Rightarrow> upl_commit_state v = upl_commit_state u))"

definition locked :: "uuid \<Rightarrow> server \<Rightarrow> bool" where
  "locked i s \<longleftrightarrow> (\<forall>n d f. same_state i d (fst (srv_others s n (d, f))))"

lemma locked_others:
  assumes "locked i s" "find_upload (srv_db (run_others s)) i = Some v"
  obtains u where "find_upload (srv_db s) i = Some u" "upl_commit_state v = upl_commit_state u"
  using assms(1)[unfolded locked_def, rule_format, of "srv_db s" "srv_tick s" "srv_fs s"] assms(2)
  by (auto simp: same_state_def run_others_sel split: option.splits)

lemma locked_runs: "locked i s \<Longrightarrow> commit_ok E i s \<Longrightarrow> commit_runs E i s t \<Longrightarrow> locked i t"
  by (simp add: locked_def commit_ok_def runs_def same_world_def)

text \<open>The loaded record is the row of the upload.\<close>

definition record_of :: "app \<Rightarrow> upload \<Rightarrow> commit_record \<Rightarrow> bool" where
  "record_of E u r \<longleftrightarrow> app_request_from_value E (upl_request u) = Inr (cm_request r) \<and>
     cm_upload_id r = upl_id u \<and> cm_account_id r = upl_account_id u \<and> cm_asset_id r = upl_asset_id u"

lemma load_commit_Inr:
  assumes "load_commit E i q s = (Inr r, t)"
  obtains u where "find_upload (srv_db t) i = Some u" "record_of E u r"
    "cm_commit_state r = upl_commit_state u" "srv_db t = srv_db (run_others s)"
    "q = None \<or> q = Some (upl_account_id u)"
proof -
  from assms have "\<exists>u. find_upload (srv_db t) i = Some u \<and> record_of E u r \<and>
      cm_commit_state r = upl_commit_state u \<and> srv_db t = srv_db (run_others s) \<and>
      (q = None \<or> q = Some (upl_account_id u))"
    by (auto simp: load_commit_def bindE_Inr_iff on_pool_def in_tx_Inr select_def of_result_Inr
        ret_def record_of_def split: option.splits if_splits)
  with that show thesis by blast
qed

lemma find_upload_unique:
  assumes "distinct (map upl_id (t_uploads d))" "u \<in> set (t_uploads d)"
  shows "find_upload d (upl_id u) = Some u"
proof -
  obtain v where "find_upload d (upl_id u) = Some v"
    using find_Some_ex [OF assms(2), of "\<lambda>x. upl_id x = upl_id u"] by (auto simp: find_upload_def)
  moreover from find_upload_in [OF this] have "v = u" using assms by (auto simp: distinct_map dest: inj_onD)
  ultimately show ?thesis by simp
qed

lemma choose_blob_Inr:
  assumes "choose_blob E r ap q c s = (Inr (st, ks, j), t)"
  shows "srv_db t = srv_db s \<and> st \<in> {COMMIT_STARTED, FINALIZING}"
  using assms
  by (auto simp: choose_blob_def ensure_commit_quota_def bindE_Inr_iff of_result_Inr ret_def fresh_uuid_def
      in_tx_Inr select_def fetch_one_def ensure_run split: option.splits if_splits)

lemma begin_transaction_Inr:
  assumes "begin_transaction E r s = (Inr e, t)"
  shows "\<exists>ap st ks sz j now. start_row r ap st ks sz j now (srv_db s) = Some (1, srv_db t) \<and>
    st \<in> {COMMIT_STARTED, FINALIZING}"
  using assms
  by (auto simp: begin_transaction_def bindE_Inr_iff in_tx_Inr select_def of_result_Inr load_blob_candidate_in_def
      ensure_run ret_def split: if_splits prod.splits dest!: choose_blob_Inr) blast+

lemma begin_transaction_state:
  assumes run: "transaction (begin_transaction E r) s = (Inr (), t)" and ok: "commit_ok E i s"
    and i: "cm_upload_id r = i"
  shows "\<exists>u. find_upload (srv_db t) i = Some u \<and> upl_commit_state u \<in> {COMMIT_STARTED, FINALIZING}"
  using run
proof (cases rule: transaction_Inr)
  case (commit u v)
  from begin_transaction_Inr [OF commit(2)] obtain ap st ks sz j now where
    up: "start_row r ap st ks sz j now (srv_db u) = Some (1, srv_db v)" "st \<in> {COMMIT_STARTED, FINALIZING}" by blast
  have "commit_runs E i s (run_others s)" by (rule commit.runs_others)
  from commit_ok_runs [OF ok this] commit(1) have d: "distinct (map upl_id (t_uploads (srv_db u)))"
    by (simp add: commit_ok_def commit_tables_def)
  from up(1) obtain w where w: "w \<in> set (t_uploads (srv_db u))" "upl_id w = i" "upl_commit_state w = ''receiving''"
    using i update_uploads_hit [OF up(1) [unfolded start_row_def]] by auto
  from find_upload_unique [OF d w(1)] w(2) have "find_upload (srv_db u) i = Some w" by simp
  with up w i have "\<exists>x. find_upload (srv_db v) i = Some x \<and> upl_commit_state x = st"
    by (auto simp: start_row_def find_upload_update [OF up(1) [unfolded start_row_def]])
  with up(2) commit(3) show ?thesis by auto
next
  case (rollback u v)
  then show ?thesis
    by (auto simp: begin_transaction_def bindE_Inr_iff ret_def)
qed

lemma begin_commit_Inr:
  assumes run: "begin_commit E r s = (Inr r', t)" and ok: "commit_ok E i s" "locked i s"
    and i: "cm_upload_id r = i"
  obtains u where "find_upload (srv_db t) i = Some u" "record_of E u r'" "record_keys clear_key r'"
    "cm_commit_state r' \<in> {COMMIT_STARTED, FINALIZING}"
proof -
  let ?parts = "on_pool (select (\<lambda>d. length (filter (\<lambda>p. upt_upload_id p = cm_upload_id r
         \<and> upt_received_at p = None) (t_upload_parts d))))"
  from run obtain n s1 s2 where s1: "?parts s = (Inr n, s1)"
    and s2: "transaction (begin_transaction E r) s1 = (Inr (), s2)"
    and l: "load_commit E i (Some (cm_account_id r)) s2 = (Inr r', t)"
    using i by (auto simp: begin_commit_def bindE_Inr_iff of_result_Inr ensure_run marks_never_return split: if_splits)
  have r1: "commit_runs E i s s1" by (rule obeysD [OF commit.obeys_select(1) s1])
  note ok1 = commit_ok_runs [OF ok(1) r1]
  have r2: "commit_runs E i s1 s2" by (rule obeysD [OF commit.obeys_transaction [OF commit.frame_begin_transaction] s2])
  note ok2 = commit_ok_runs [OF ok1 r2]
  have lock: "locked i s2" by (rule locked_runs [OF locked_runs [OF ok(2,1) r1] ok1 r2])
  from begin_transaction_state [OF s2 ok1 i] obtain u0 where u0: "find_upload (srv_db s2) i = Some u0"
    "upl_commit_state u0 \<in> {COMMIT_STARTED, FINALIZING}" by blast
  from l obtain u where u: "find_upload (srv_db t) i = Some u" "record_of E u r'"
    "cm_commit_state r' = upl_commit_state u" "srv_db t = srv_db (run_others s2)" by (rule load_commit_Inr)
  from locked_others [OF lock] u(1,4) u0(1) have "upl_commit_state u = upl_commit_state u0"
    by (metis option.inject)
  moreover have "record_keys clear_key r'"
    using commit.load_gives [where E = E and i = i and j = i and q = "Some (cm_account_id r)"] l ok2 by (auto simp: gives_def commit_ok_def)
  ultimately show thesis using that u u0(2) by simp
qed

lemma publish_content_held:
  assumes run: "publish_content E r rd fp s = (Inr (), t)" and size: "unat (rd_expected_size rd) < u64_max"
  shows "held E rd t (rd_final_key rd)"
proof -
  from run obtain st s1 where i: "inspect_final E rd s = (Inr st, s1)" and
    rest: "st = Matches \<and> t = s1 \<or> (\<exists>k s2 f. publish_commit (app_externals E) (rd_account_path rd)
        (rd_upload_id rd) k (rd_final_key rd) (rd_expected_size rd) (rd_expected_blake3 rd) s2 = (Inr (), f) \<and>
        srv_fs t = f)"
    unfolding publish_content_def bindE_Inr_iff attempt_Inr
    by (auto simp: inversion_simps ret_def stop_at_def split: if_splits) blast+
  from rest show ?thesis
  proof
    assume "st = Matches \<and> t = s1"
    with i show ?thesis
      by (auto simp: inspect_final_def on_fs_Inr dest!: inspect_object_Matches [OF _ size])
  next
    assume "\<exists>k s2 f. publish_commit (app_externals E) (rd_account_path rd)
        (rd_upload_id rd) k (rd_final_key rd) (rd_expected_size rd) (rd_expected_blake3 rd) s2 = (Inr (), f) \<and>
        srv_fs t = f"
    with publish_commit_publishes [OF _ size] show ?thesis by blast
  qed
qed

lemma backed_up_runs:
  assumes "backed_up E s a j rq rid" "commit_ok E i s" "commit_runs E i s t" "srv_db t = srv_db s"
  shows "backed_up E t a j rq rid"
  using assms commit_ok_holds [OF assms(2,3)]
  by (fastforce simp: backed_up_def commit_ok_def commit_tables_def)

lemma finish_commit_backed_up:
  assumes run: "finish_commit E rd fp s = (Inr out, t)" and ok: "commit_ok E i s" "ready_ok rd"
    and final_key: "held E rd s (rd_final_key rd)"
  shows "backed_up E t (rd_account_id rd) (rd_asset_id rd) (rd_request rd) (out_resource_id out) \<and>
    out_asset_id out = rd_asset_id rd"
proof -
  let ?sweep = "(case rd_staged_key rd of
         None \<Rightarrow> ret (Inr True)
       | Some staged_key \<Rightarrow> attempt (on_fs (remove_commit_stage (app_externals E) (rd_account_path rd)
           (rd_upload_id rd) staged_key))) :: (app_error + bool) srv"
  from run obtain s1 q where s1: "race_retry E rd 3 None s = (Inr out, s1)" and s2: "?sweep s1 = (Inr q, t)"
    by (auto simp: finish_commit_def commit_metadata_with_race_retry_def inversion_simps stop_at_def ret_def
        split: if_splits)
  have r1: "commit_runs E i s s1"
    by (rule obeysD [OF commit.frame_race_retry s1]) (use ok(2) in \<open>simp add: ready_ok_def\<close>)
  have "obeys (commit_runs E i) ?sweep"
    by (auto intro!: commit_intros commit.obeys_rules split: option.splits)
  then have r2: "commit_runs E i s1 t" using s2 by (rule obeysD)
  have db: "srv_db t = srv_db s1" using s2 by (auto simp: ret_def attempt_Inr on_fs_Inr split: option.splits)
  from race_retry_backed_up [OF s1 ok final_key] have
    "backed_up E s1 (rd_account_id rd) (rd_asset_id rd) (rd_request rd) (out_resource_id out) \<and>
      out_asset_id out = rd_asset_id rd" by (simp add: candidate_held_def)
  with backed_up_runs [OF _ commit_ok_runs [OF ok(1) r1] r2 db] show ?thesis by blast
qed

lemma drive_commit_backed_up:
  assumes run: "drive_commit E r fp s = (Inr out, t)" and ok: "commit_ok E i s" "record_keys clear_key r"
    and st: "cm_commit_state r \<in> {COMMIT_STARTED, FINALIZING}"
  shows "backed_up E t (cm_account_id r) (cm_asset_id r) (cm_request r) (out_resource_id out) \<and>
    out_asset_id out = cm_asset_id r"
proof -
  let ?advance = "\<lambda>rd. if cm_commit_state r = COMMIT_STARTED
         then bindE (stage_content E r rd fp) (\<lambda>_.
              bindE (transition_to_finalizing (cm_upload_id r)) (\<lambda>_.
              bindE (stop_at fp Finalizing) (\<lambda>_. ret (r\<lparr>cm_commit_state := FINALIZING\<rparr>))))
         else ret r"
  from run obtain rd where rd: "ready_commit r = Inr rd"
    by (auto simp: drive_commit_def marks_never_return split: sum.splits)
  with run obtain r' s1 where s1: "?advance rd s = (Inr r', s1)" and rest: "bindE (if cm_commit_state r' = FINALIZING
      then publish_content E r' rd fp else ret ()) (\<lambda>_. finish_commit E rd fp) s1 = (Inr out, t)"
    by (auto simp: drive_commit_def bindE_Inr_iff [of "if _ then _ else _"])
  from s1 st have "cm_commit_state r' = FINALIZING"
    by (auto simp: bindE_Inr_iff ret_def split: if_splits)
  with rest obtain s2 where s2: "publish_content E r' rd fp s1 = (Inr (), s2)"
    and s3: "finish_commit E rd fp s2 = (Inr out, t)" by (auto simp: bindE_Inr_iff)
  have "obeys (commit_runs E i) (?advance rd)"
    by (auto intro!: commit_intros commit.obeys_rules)
  then have r1: "commit_runs E i s s1" using s1 by (rule obeysD)
  have r2: "commit_runs E i s1 s2" by (rule obeysD [OF commit.frame_publish_content s2])
  note ok2 = commit_ok_runs [OF commit_ok_runs [OF ok(1) r1] r2]
  have rdok: "ready_ok rd" using ok(2) rd by (rule ready_okI)
  note publish_content_held [OF s2 ready_commit_Inr(10) [OF rd]]
  from finish_commit_backed_up [OF s3 ok2 rdok this] ready_commit_Inr [OF rd] show ?thesis by simp
qed

lemma validate_committed_backed_up:
  assumes run: "validate_committed E r s = (Inr out, t)" and ok: "commit_ok E i s"
  shows "backed_up E t (cm_account_id r) (cm_asset_id r) (cm_request r) (out_resource_id out) \<and>
    out_asset_id out = cm_asset_id r"
proof -
  from run obtain rd where rd: "ready_commit r = Inr rd"
    by (auto simp: validate_committed_def marks_never_return split: sum.splits)
  note eqs = ready_commit_Inr [OF rd]
  let ?sweep = "case rd_staged_key rd of None \<Rightarrow> ret True
           | Some staged_key \<Rightarrow> on_fs (remove_commit_stage (app_externals E) (rd_account_path rd)
               (rd_upload_id rd) staged_key)"
  let ?row = "\<lambda>j. on_pool (select (committed_blob j (rd_asset_id rd) (rd_proposed_blob_id rd) (rd_account_id rd)))"
  let ?look = "on_fs (inspect_object (app_externals E) (rd_account_path rd) (rd_final_key rd)
         (rd_expected_size rd) (rd_expected_blake3 rd))"
  have "\<exists>j b s1 s2 q. ?row j s = (Inr (Some b), s1) \<and> ?look s1 = (Inr Matches, s2) \<and> ?sweep s2 = (Inr q, t) \<and>
      blob_storage_path b = rd_final_key rd \<and> blob_content_blake3 b = rd_expected_blake3 rd \<and>
      out_resource_id out = j \<and> out_asset_id out = rd_asset_id rd"
    using run rd
    by (simp add: validate_committed_def bindE_Inr_iff attempt_Inr marks_never_return returns_simps ret_def
        split: if_splits) (elim exE conjE, intro exI conjI, assumption+, auto)
  then obtain j b s1 s2 q where
    s1: "?row j s = (Inr (Some b), s1)" and s2: "?look s1 = (Inr Matches, s2)" and s3: "?sweep s2 = (Inr q, t)"
    and b: "blob_storage_path b = rd_final_key rd" "blob_content_blake3 b = rd_expected_blake3 rd"
    and out: "out_resource_id out = j" "out_asset_id out = rd_asset_id rd" by blast
  from s1 have j: "committed_blob j (rd_asset_id rd) (rd_proposed_blob_id rd) (rd_account_id rd) (srv_db s1) = Some b"
    by (auto simp: on_pool_def in_tx_Inr select_def)
  then obtain r' where r': "r' \<in> set (t_resources (srv_db s1))" "res_id r' = j" "res_asset_id r' = rd_asset_id rd"
      "res_blob_id r' = rd_proposed_blob_id rd" and b': "b \<in> set (t_blobs (srv_db s1))"
      "blob_id b = rd_proposed_blob_id rd" "blob_account_id b = rd_account_id rd"
    by (auto simp: committed_blob_def find_resource_def find_blob_def dest!: find_SomeD split: option.splits if_splits)
  have db: "srv_db s2 = srv_db s1" "srv_db t = srv_db s2"
    using s2 s3 by (auto simp: ret_def on_fs_Inr split: option.splits)
  have "held E rd s2 (rd_final_key rd)"
    using s2 eqs(10) by (auto simp: on_fs_Inr dest!: inspect_object_Matches)
  with r' b' b db eqs have "backed_up E s2 (cm_account_id r) (cm_asset_id r) (cm_request r) j"
    by (auto simp: backed_up_def intro!: bexI [of _ r'] bexI [of _ b])
  moreover have "commit_runs E i s s1" by (rule obeysD [OF commit.obeys_select(1) s1])
  then have ok1: "commit_ok E i s1" using ok by (blast intro: commit_ok_runs)
  have ok2: "commit_ok E i s2" by (rule commit_ok_step [OF commit.frame_fs(1) s2 ok1])
  have "obeys (commit_runs E i) ?sweep" by (auto intro!: commit_intros commit.obeys_rules split: option.splits)
  then have "commit_runs E i s2 t" using s3 by (rule obeysD)
  ultimately show ?thesis using backed_up_runs [OF _ ok2] db(2) out eqs by simp
qed

text \<open>
  C1. A completion that reports success has backed the upload up: the account owns a blob row with the
  content hash of the request, the reported resource of the upload's asset refers to it, and the object
  at the blob's key has exactly the declared size and hash.  This holds for every persisted commit
  state, every pattern of failing statements and system calls, and any activity of the other requests
  that respects the lock of the upload, the immutable columns of its row and the stored objects.
\<close>

theorem complete_backed_up:
  assumes run: "complete_inner E i q fp s = (Inr out, t)"
    and rely: "commit_rely E i s" "locked i s"
    and tables: "commit_tables (srv_db s)" and wf: "fs_wf (srv_fs s)"
  shows "\<exists>u request. find_upload (srv_db s) i = Some u \<and> app_request_from_value E (upl_request u) = Inr request \<and>
    out_asset_id out = upl_asset_id u \<and>
    backed_up E t (upl_account_id u) (upl_asset_id u) request (out_resource_id out)"
proof -
  have ok: "commit_ok E i s" using rely(1) tables wf by (simp add: commit_ok_def)
  from run obtain l s1 r s2 where s1: "on_fs (lock_upload_commit (app_externals E) i) s = (Inr l, s1)"
    and s2: "load_commit E i q s1 = (Inr r, s2)" and rest: "(if cm_commit_state r = COMMITTED then validate_committed E r
     else if cm_commit_state r = UNKNOWN then fail (conflict ''upload commit state is unknown'')
     else if cm_commit_state r = FAILED then fail (conflict ''upload commit has failed'')
     else if cm_commit_state r = RECEIVING then
       bindE (begin_commit E r) (\<lambda>r.
       bindE (stop_at fp CommitStarted) (\<lambda>_. drive_commit E r fp))
     else if cm_commit_state r = COMMIT_STARTED \<or> cm_commit_state r = FINALIZING then
       drive_commit E r fp
     else mark_unknown r ''invalid persisted commit state'') s2 = (Inr out, t)"
    by (auto simp: complete_inner_def bindE_Inr_iff)
  have r1: "commit_runs E i s s1" by (rule obeysD [OF commit.frame_stores(1) s1])
  have r2: "commit_runs E i s1 s2" by (rule obeysD [OF commit.frame_load(1) s2])
  have r12: "commit_runs E i s s2" using r1 r2 by (rule commit.runs_trans)
  note ok2 = commit_ok_runs [OF ok r12] and lock2 = locked_runs [OF rely(2) ok r12]
  from s2 obtain v where v: "find_upload (srv_db s2) i = Some v" "record_of E v r"
    "cm_commit_state r = upl_commit_state v" by (rule load_commit_Inr)
  have clear: "record_keys clear_key r"
    using commit.load_gives [where E = E and i = i and j = i and q = q] s2 commit_ok_runs [OF ok r1]
    by (auto simp: gives_def commit_ok_def)
  have "\<exists>t' w r'. find_upload (srv_db t') i = Some w \<and> commit_runs E i s t' \<and> record_of E w r' \<and>
      backed_up E t (cm_account_id r') (cm_asset_id r') (cm_request r') (out_resource_id out) \<and>
      out_asset_id out = cm_asset_id r'"
  proof (cases "cm_commit_state r = RECEIVING")
    case True
    with rest obtain r' s3 where s3: "begin_commit E r s2 = (Inr r', s3)"
      and drive: "drive_commit E r' fp s3 = (Inr out, t)"
      by (auto simp: bindE_Inr_iff stop_at_def ensure_run commit_state_defs split: if_splits)
    have i: "cm_upload_id r = i" using v by (auto simp: record_of_def dest: find_upload_in)
    from begin_commit_Inr [OF s3 ok2 lock2 i] obtain w where w: "find_upload (srv_db s3) i = Some w"
      "record_of E w r'" "record_keys clear_key r'" "cm_commit_state r' \<in> {COMMIT_STARTED, FINALIZING}" by blast
    have r3: "commit_runs E i s2 s3" by (rule obeysD [OF commit.frame_begin s3])
    from drive_commit_backed_up [OF drive commit_ok_runs [OF ok2 r3] w(3,4)] w(1,2)
      commit.runs_trans [OF r12 r3] show ?thesis by blast
  next
    case False
    have "backed_up E t (cm_account_id r) (cm_asset_id r) (cm_request r) (out_resource_id out) \<and>
        out_asset_id out = cm_asset_id r"
      using rest False validate_committed_backed_up [OF _ ok2] drive_commit_backed_up [OF _ ok2 clear]
      by (auto simp: fail_def marks_never_return split: if_splits)
    with v r12 show ?thesis by blast
  qed
  then obtain t' w r' where w: "find_upload (srv_db t') i = Some w" "commit_runs E i s t'" "record_of E w r'"
    and b: "backed_up E t (cm_account_id r') (cm_asset_id r') (cm_request r') (out_resource_id out)"
      "out_asset_id out = cm_asset_id r'" by blast
  from w(2) ok have "same_upload i (srv_db s) (srv_db t')" by (simp add: runs_def commit_ok_def)
  with w(1) obtain u where u: "find_upload (srv_db s) i = Some u" "upload_identity w = upload_identity u"
    by (auto simp: same_upload_def split: option.splits)
  with w(3) b show ?thesis by (auto simp: record_of_def upload_identity_def)
qed

end
