(* ===== verification/Commit_Lifecycle.thy ===== *)
theory Commit_Lifecycle
  imports Upload_Commit_Correct
begin

text \<open>
  The life of an upload as an abstract machine, and the proof that a completion refines it: whatever
  fails, the persisted \<open>commit_state\<close> only moves along the edges of \<open>commit_move\<close>.  \<open>guided\<close> is a
  small Hoare logic: what a computation does to the state of the upload whose lock it holds.
\<close>

section \<open>The abstract machine\<close>

datatype phase = Ph_Receiving | Ph_Started | Ph_Finalizing | Ph_Committed | Ph_Unknown | Ph_Failed | Ph_Invalid

definition phase_of :: "string \<Rightarrow> phase" where
  "phase_of c = (if c = RECEIVING then Ph_Receiving else if c = COMMIT_STARTED then Ph_Started
     else if c = FINALIZING then Ph_Finalizing else if c = COMMITTED then Ph_Committed
     else if c = UNKNOWN then Ph_Unknown else if c = FAILED then Ph_Failed else Ph_Invalid)"

inductive commit_move :: "phase \<Rightarrow> phase \<Rightarrow> bool" where
  start: "commit_move Ph_Receiving Ph_Started"
| reuse: "commit_move Ph_Receiving Ph_Finalizing"
| staged: "commit_move Ph_Started Ph_Finalizing"
| metadata: "commit_move Ph_Finalizing Ph_Committed"
| reject: "p \<in> {Ph_Receiving, Ph_Started} \<Longrightarrow> commit_move p Ph_Failed"
| doubt: "p \<in> {Ph_Started, Ph_Finalizing, Ph_Committed, Ph_Invalid} \<Longrightarrow> commit_move p Ph_Unknown"

inductive_cases settled_moves: "commit_move Ph_Unknown q" "commit_move Ph_Failed q"

definition phase_at :: "uuid \<Rightarrow> phase set \<Rightarrow> tables \<Rightarrow> bool" where
  "phase_at i S d \<longleftrightarrow> (\<forall>u. find_upload d i = Some u \<longrightarrow> phase_of (upl_commit_state u) \<in> S)"

text \<open>The upload moved along the edges, or its row is gone.\<close>

definition moved :: "uuid \<Rightarrow> tables \<Rightarrow> tables \<Rightarrow> bool" where
  "moved i d d' \<longleftrightarrow> (\<forall>v. find_upload d' i = Some v \<longrightarrow> (\<exists>u. find_upload d i = Some u \<and>
     commit_move\<^sup>*\<^sup>* (phase_of (upl_commit_state u)) (phase_of (upl_commit_state v))))"

definition unique_uploads :: "tables \<Rightarrow> bool" where
  "unique_uploads d \<longleftrightarrow> distinct (map upl_id (t_uploads d))"

interpretation still: server_frame unique_uploads "same_state i" "\<lambda>_ _. True" "{}" for i
  by unfold_locales (auto simp: same_state_def split: option.splits)

abbreviation state_rely :: "uuid \<Rightarrow> server \<Rightarrow> bool" where
  "state_rely i \<equiv> rely unique_uploads (same_state i) (\<lambda>_ _. True) {}"

abbreviation steady :: "uuid \<Rightarrow> 'a srv \<Rightarrow> bool" where
  "steady i \<equiv> obeys (runs unique_uploads (same_state i) (\<lambda>_ _. True) {})"

section \<open>A logic of phases\<close>

definition guided :: "uuid \<Rightarrow> (tables \<Rightarrow> bool) \<Rightarrow> ('a \<Rightarrow> tables \<Rightarrow> bool) \<Rightarrow> 'a srv \<Rightarrow> bool" where
  "guided i A B m \<longleftrightarrow> (\<forall>s r t. state_rely i s \<longrightarrow> unique_uploads (srv_db s) \<longrightarrow> A (srv_db s) \<longrightarrow> m s = (r, t) \<longrightarrow>
     same_world s t \<and> unique_uploads (srv_db t) \<and> moved i (srv_db s) (srv_db t) \<and>
     (\<forall>x. r = Inr x \<longrightarrow> B x (srv_db t)))"

lemma moved_refl: "moved i d d"
  by (simp add: moved_def)

lemma moved_trans: "moved i a b \<Longrightarrow> moved i b c \<Longrightarrow> moved i a c"
  unfolding moved_def by (metis (no_types, lifting) rtranclp_trans)

lemma same_state_moved: "same_state i d d' \<Longrightarrow> moved i d d'"
  by (auto simp: same_state_def moved_def split: option.splits)

lemma phase_at_same: "same_state i d d' \<Longrightarrow> phase_at i S d \<Longrightarrow> phase_at i S d'"
  by (auto simp: same_state_def phase_at_def split: option.splits)

lemma guided_steady:
  assumes "steady i m" "\<And>s x t. m s = (Inr x, t) \<Longrightarrow> phase_at i S (srv_db t) \<Longrightarrow> B x (srv_db t)"
  shows "guided i (phase_at i S) B m"
  using assms obeysD [OF assms(1)]
  by (fastforce simp: guided_def runs_def intro: same_state_moved phase_at_same)

lemma guided_still: "steady i m \<Longrightarrow> guided i (phase_at i S) (\<lambda>_. phase_at i S) m"
  by (rule guided_steady)

lemma guided_bind:
  assumes m: "guided i A B m" and f: "\<And>x. guided i (B x) C (f x)"
  shows "guided i A C (bindE m f)"
  unfolding guided_def
proof (intro allI impI)
  fix s r u
  assume s: "state_rely i s" "unique_uploads (srv_db s)" "A (srv_db s)" and run: "bindE m f s = (r, u)"
  obtain q t where q: "m s = (q, t)" by fastforce
  with m s have t: "same_world s t" "unique_uploads (srv_db t)" "moved i (srv_db s) (srv_db t)"
    "\<And>x. q = Inr x \<Longrightarrow> B x (srv_db t)" unfolding guided_def by blast+
  show "same_world s u \<and> unique_uploads (srv_db u) \<and> moved i (srv_db s) (srv_db u) \<and> (\<forall>x. r = Inr x \<longrightarrow> C x (srv_db u))"
  proof (cases q)
    case (Inl e)
    with run q t show ?thesis by (auto simp: bindE_def)
  next
    case (Inr x)
    with run q have "f x t = (r, u)" by (simp add: bindE_def)
    with f [of x] t(2,4) Inr rely_same_world [OF t(1) s(1)] have "same_world t u \<and> unique_uploads (srv_db u) \<and>
        moved i (srv_db t) (srv_db u) \<and> (\<forall>x. r = Inr x \<longrightarrow> C x (srv_db u))" unfolding guided_def by blast
    with t moved_trans show ?thesis by (auto simp: same_world_def)
  qed
qed

lemma guided_after:
  "steady i m \<Longrightarrow> (\<And>x. guided i (phase_at i S) C (f x)) \<Longrightarrow> guided i (phase_at i S) C (bindE m f)"
  by (rule guided_bind [OF guided_still])

lemma guided_weaken:
  "guided i A B m \<Longrightarrow> (\<And>d. A' d \<Longrightarrow> A d) \<Longrightarrow> (\<And>x d. B x d \<Longrightarrow> B' x d) \<Longrightarrow> guided i A' B' m"
  unfolding guided_def by blast

lemma guided_pure: "(C \<Longrightarrow> guided i A B m) \<Longrightarrow> guided i (\<lambda>d. C \<and> A d) B m"
  unfolding guided_def by blast

lemma guided_fail: "guided i A B (fail e)"
  by (simp add: guided_def fail_def moved_refl same_world_def)

lemma guided_ret: "(\<And>d. A d \<Longrightarrow> B x d) \<Longrightarrow> guided i A B (ret x)"
  by (simp add: guided_def ret_def moved_refl same_world_def)

lemma guided_of_result: "(\<And>x d. v = Inr x \<Longrightarrow> A d \<Longrightarrow> B x d) \<Longrightarrow> guided i A B (of_result v)"
  by (simp add: guided_def of_result_def moved_refl same_world_def)

lemma guided_ensure: "(\<And>d. b \<Longrightarrow> A d \<Longrightarrow> B d) \<Longrightarrow> guided i A (\<lambda>_. B) (ensure b e)"
  by (simp add: guided_def ensure_run moved_refl same_world_def)

text \<open>A statement on the pool, after whatever the others did.\<close>

lemma guided_in_tx:
  assumes "\<And>now d n d'. unique_uploads d \<Longrightarrow> A d \<Longrightarrow> q now d = Some (n, d') \<Longrightarrow>
      unique_uploads d' \<and> moved i d d' \<and> B n d'"
  shows "guided i A B (in_tx q)"
  using assms by (fastforce simp: guided_def in_tx_def Let_def same_world_def moved_refl split: option.splits if_splits)

lemma guided_on_pool:
  assumes "\<And>now d n d'. unique_uploads d \<Longrightarrow> phase_at i S d \<Longrightarrow> q now d = Some (n, d') \<Longrightarrow>
      unique_uploads d' \<and> moved i d d' \<and> B n d'"
  shows "guided i (phase_at i S) B (on_pool q)"
  unfolding guided_def
proof (intro allI impI)
  fix s r t
  assume s: "state_rely i s" "unique_uploads (srv_db s)" "phase_at i S (srv_db s)" and run: "on_pool q s = (r, t)"
  let ?u = "run_others s"
  have u: "same_state i (srv_db s) (srv_db ?u)" "unique_uploads (srv_db ?u)" "same_world s ?u"
    using s by (auto simp: rely_def run_others_sel same_world_def)
  note rely = rely_same_world [OF u(3) s(1)]
  have "guided i (phase_at i S) B (in_tx q)" by (rule guided_in_tx) (rule assms)
  moreover from run have "in_tx q ?u = (r, t)" by (simp add: on_pool_def)
  ultimately have "same_world ?u t \<and> unique_uploads (srv_db t) \<and> moved i (srv_db ?u) (srv_db t) \<and> (\<forall>x. r = Inr x \<longrightarrow> B x (srv_db t))"
    using rely u(2) phase_at_same [OF u(1) s(3)] unfolding guided_def by blast
  with u same_state_moved [OF u(1)] show "same_world s t \<and> unique_uploads (srv_db t) \<and> moved i (srv_db s) (srv_db t) \<and>
      (\<forall>x. r = Inr x \<longrightarrow> B x (srv_db t))"
    by (auto simp: same_world_def intro: moved_trans)
qed

text \<open>A transaction: what it leaves when it commits, and when it is rolled back.\<close>

lemma guided_transaction:
  assumes body: "guided i (phase_at i S) (\<lambda>e d. case e of Commit x \<Rightarrow> B x d | Rollback x \<Rightarrow> True) body"
    and undone: "\<And>s x t d. body s = (Inr (Rollback x), t) \<Longrightarrow> phase_at i S d \<Longrightarrow> B x d"
  shows "guided i (phase_at i S) B (transaction body)"
  unfolding guided_def
proof (intro allI impI)
  fix s r w
  assume s: "state_rely i s" "unique_uploads (srv_db s)" "phase_at i S (srv_db s)" and run: "transaction body s = (r, w)"
  let ?t = "run_others s"
  let ?u = "?t\<lparr>srv_tick := Suc (srv_tick ?t)\<rparr>"
  obtain q v where v: "body ?u = (q, v)" by fastforce
  have t: "same_state i (srv_db s) (srv_db ?t)" "unique_uploads (srv_db ?t)" "same_world s ?u"
    using s by (auto simp: rely_def run_others_sel same_world_def)
  note before = phase_at_same [OF t(1) s(3)] same_state_moved [OF t(1)]
  have ran: "same_world ?u v \<and> unique_uploads (srv_db v) \<and> moved i (srv_db ?u) (srv_db v) \<and>
      (\<forall>e. q = Inr e \<longrightarrow> (case e of Commit x \<Rightarrow> B x (srv_db v) | Rollback x \<Rightarrow> True))"
    using body rely_same_world [OF t(3) s(1)] t(2) before(1) v by (auto simp: guided_def)
  have over: "moved i (srv_db s) (srv_db v)" using ran before(2) by (auto intro: moved_trans)
  have world: "same_world s v" using t(3) ran by (simp add: same_world_def)
  show "same_world s w \<and> unique_uploads (srv_db w) \<and> moved i (srv_db s) (srv_db w) \<and> (\<forall>x. r = Inr x \<longrightarrow> B x (srv_db w))"
    using run v ran over world t before(2) undone before(1)
    by (auto simp: transaction_def end_transaction_def Let_def same_world_def split: if_splits sum.splits ending.splits)
qed

section \<open>The statements that write the state\<close>

text \<open>An update of upload rows whose guard and new state form an edge, or leave the state alone.\<close>

lemma update_moves:
  assumes "update_uploads P f d = Some (n, d')" "unique_uploads d" "phase_at i S d"
    and f: "\<And>u. upl_id (f u) = upl_id u"
    and edge: "\<And>u. P u \<Longrightarrow> phase_of (upl_commit_state u) \<in> S \<Longrightarrow>
      commit_move\<^sup>*\<^sup>* (phase_of (upl_commit_state u)) (phase_of (upl_commit_state (f u)))"
  shows "unique_uploads d' \<and> moved i d d'"
proof
  show "unique_uploads d'"
    using assms(1,2) f by (auto simp: unique_uploads_def update_uploads_Some comp_def if_distrib cong: if_cong)
  show "moved i d d'"
    using assms(3) edge by (auto simp: moved_def phase_at_def find_upload_update [OF assms(1) f])
qed

text \<open>Where exactly one row with the id is hit, it is the row of the upload.\<close>

lemma update_reaches:
  assumes up: "update_uploads P f d = Some (Suc 0, d')" and f: "\<And>u. upl_id (f u) = upl_id u"
    and P: "\<And>u. P u \<Longrightarrow> upl_id u = i \<and> phase_of (upl_commit_state (f u)) \<in> S" and unique: "unique_uploads d"
  shows "phase_at i S d'"
proof -
  from update_uploads_hit [OF up] obtain u where u: "u \<in> set (t_uploads d)" "P u" by auto
  with find_upload_unique [of d u] unique P have "find_upload d i = Some u" by (auto simp: unique_uploads_def)
  with u P show ?thesis by (auto simp: phase_at_def find_upload_update [OF up f])
qed

lemma move_edge: "commit_move p q \<Longrightarrow> commit_move\<^sup>*\<^sup>* p q"
  by (rule r_into_rtranclp)

lemma phase_of_simps:
  "phase_of ''receiving'' = Ph_Receiving" "phase_of ''commit_started'' = Ph_Started"
  "phase_of ''finalizing'' = Ph_Finalizing" "phase_of ''committed'' = Ph_Committed"
  "phase_of ''unknown'' = Ph_Unknown" "phase_of ''failed'' = Ph_Failed"
  by (simp_all add: phase_of_def commit_state_defs)

lemma guided_unknown:
  assumes "S \<subseteq> {Ph_Started, Ph_Finalizing, Ph_Committed, Ph_Invalid}"
  shows "guided i (phase_at i S) B (mark_unknown_message j m)"
  unfolding mark_unknown_message_def
proof (rule guided_bind [OF guided_on_pool guided_fail])
  fix now d n d'
  assume d: "unique_uploads d" "phase_at i S d" "unknown_row j m now d = Some (n, d')"
  have "unique_uploads d' \<and> moved i d d'"
    by (rule update_moves [OF d(3) [unfolded unknown_row_def] d(1,2)])
       (use assms in \<open>auto simp: phase_of_simps intro!: move_edge commit_move.doubt\<close>)
  then show "unique_uploads d' \<and> moved i d d' \<and> True" by simp
qed

lemma guided_failed:
  assumes "S \<subseteq> {Ph_Receiving, Ph_Started}"
  shows "guided i (phase_at i S) B (mark_failed_message j m)"
  unfolding mark_failed_message_def
proof (rule guided_bind [OF guided_on_pool guided_fail])
  fix now d n d'
  assume d: "unique_uploads d" "phase_at i S d" "failed_row j m now d = Some (n, d')"
  have "unique_uploads d' \<and> moved i d d'"
    by (rule update_moves [OF d(3) [unfolded failed_row_def] d(1,2)])
       (use assms in \<open>auto simp: phase_of_simps intro!: move_edge commit_move.reject\<close>)
  then show "unique_uploads d' \<and> moved i d d' \<and> True" by simp
qed

lemma guided_finalizing:
  "guided i (phase_at i {Ph_Started}) (\<lambda>_. phase_at i {Ph_Finalizing}) (transition_to_finalizing i)"
  unfolding transition_to_finalizing_def
proof (rule guided_bind)
  let ?B = "\<lambda>n d. n = 1 \<longrightarrow> phase_at i {Ph_Finalizing} d"
  show "guided i (phase_at i {Ph_Started}) ?B (on_pool (finalizing_row i))"
  proof (rule guided_on_pool)
    fix now d n d'
    assume d: "unique_uploads d" "phase_at i {Ph_Started} d" "finalizing_row i now d = Some (n, d')"
    have "unique_uploads d' \<and> moved i d d'"
      by (rule update_moves [OF d(3) [unfolded finalizing_row_def] d(1,2)])
         (auto simp: phase_of_simps intro!: move_edge commit_move.staged)
    moreover have "?B n d'"
    proof
      assume "n = 1"
      with d(3) have "finalizing_row i now d = Some (Suc 0, d')" by simp
      from update_reaches [OF this [unfolded finalizing_row_def] _ _ d(1)] show "phase_at i {Ph_Finalizing} d'"
        by (simp add: phase_of_simps)
    qed
    ultimately show "unique_uploads d' \<and> moved i d d' \<and> ?B n d'" by simp
  qed
  show "guided i (?B n) (\<lambda>_. phase_at i {Ph_Finalizing}) (ensure (n = 1) changed_concurrently)" for n
    by (rule guided_ensure) simp
qed

section \<open>What leaves the state alone\<close>

lemma steady_fs: "steady i (on_fs m)"
  by (rule still.obeys_on_fs) (simp add: obeys_def)

lemma steady_loads:
  "steady i (load_commit E j q)" "steady i (load_blob_candidate a h)" "steady i (load_blob_candidate_in a h)"
  unfolding load_commit_def load_blob_candidate_def load_blob_candidate_in_def
  by (auto intro!: still.server_rules)

lemma same_rows: "unique_uploads d \<Longrightarrow> t_uploads d' = t_uploads d \<Longrightarrow> unique_uploads d' \<and> same_state i d d'"
  by (simp add: unique_uploads_def same_state_def find_upload_def split: option.splits)

lemma steady_statements:
  "steady i (in_tx (insert_blob b))" "steady i (in_tx (upsert_resource_row j a bid rq))"
  "steady i (in_tx (insert_change a kind j what))" "steady i (in_tx (insert_audit_event a kind actor act ek ei))"
  by (rule still.obeys_in_tx, erule same_rows,
      force simp: insert_blob_def upsert_resource_row_def insert_change_def insert_audit_event_def
        split: if_splits option.splits)+

lemma steady_choose: "steady i (choose_blob E r ap q c)"
  unfolding choose_blob_def ensure_commit_quota_def
  by (auto intro!: still.server_rules split: option.splits)

lemma steady_upsert: "steady i (upsert_resource a b rq)" "steady i (record_change a kind j what)"
  unfolding upsert_resource_def record_change_def by (auto intro!: still.server_rules steady_statements)

lemmas steady_rules = steady_fs steady_loads steady_statements steady_choose steady_upsert still.server_rules

text \<open>A loaded record names the state it was loaded in.\<close>

lemma guided_load:
  "guided i (phase_at i S) (\<lambda>r d. (cm_upload_id r = i \<and> phase_of (cm_commit_state r) \<in> S) \<and>
     phase_at i {phase_of (cm_commit_state r)} d) (load_commit E i q)"
proof (rule guided_steady [OF steady_loads(1)])
  fix s r t
  assume "load_commit E i q s = (Inr r, t)" and at: "phase_at i S (srv_db t)"
  then obtain u where "find_upload (srv_db t) i = Some u" "record_of E u r" "cm_commit_state r = upl_commit_state u"
    by (blast elim: load_commit_Inr)
  with at show "(cm_upload_id r = i \<and> phase_of (cm_commit_state r) \<in> S) \<and>
      phase_at i {phase_of (cm_commit_state r)} (srv_db t)"
    by (auto simp: phase_at_def record_of_def dest: find_upload_in)
qed

section \<open>The phases of a completion\<close>

lemma guided_start:
  assumes "cm_upload_id r = i" and st: "st \<in> {COMMIT_STARTED, FINALIZING}"
  shows "guided i (phase_at i {Ph_Receiving}) (\<lambda>n d. n = 1 \<longrightarrow> phase_at i {Ph_Started, Ph_Finalizing} d)
    (in_tx (start_row r ap st ks sz j))"
proof (rule guided_in_tx)
  let ?B = "\<lambda>n d. n = 1 \<longrightarrow> phase_at i {Ph_Started, Ph_Finalizing} d"
  fix now d n d'
  assume d: "unique_uploads d" "phase_at i {Ph_Receiving} d" and up: "start_row r ap st ks sz j now d = Some (n, d')"
  have "unique_uploads d' \<and> moved i d d'"
    by (rule update_moves [OF up [unfolded start_row_def] d])
       (use st in \<open>auto simp: phase_of_simps commit_state_defs intro!: move_edge commit_move.start commit_move.reuse\<close>)
  moreover have "?B n d'"
  proof
    assume "n = 1"
    with up have "start_row r ap st ks sz j now d = Some (Suc 0, d')" by simp
    from update_reaches [OF this [unfolded start_row_def] _ _ d(1)] show "phase_at i {Ph_Started, Ph_Finalizing} d'"
      using assms st by (auto simp: phase_of_simps commit_state_defs)
  qed
  ultimately show "unique_uploads d' \<and> moved i d d' \<and> ?B n d'" by simp
qed

lemma guided_choose:
  "guided i (phase_at i S) (\<lambda>x d. fst x \<in> {COMMIT_STARTED, FINALIZING} \<and> phase_at i S d) (choose_blob E r ap q c)"
proof (rule guided_steady [OF steady_choose])
  fix s x t
  assume "choose_blob E r ap q c s = (Inr x, t)" "phase_at i S (srv_db t)"
  then show "fst x \<in> {COMMIT_STARTED, FINALIZING} \<and> phase_at i S (srv_db t)"
    using choose_blob_Inr [of E r ap q c s "fst x" "fst (snd x)" "snd (snd x)" t] by simp
qed

lemma guided_begin_transaction:
  assumes i: "cm_upload_id r = i"
  shows "guided i (phase_at i {Ph_Receiving}) (\<lambda>_. phase_at i {Ph_Started, Ph_Finalizing})
    (transaction (begin_transaction E r))"
proof (rule guided_transaction)
  let ?P = "phase_at i {Ph_Receiving}" and ?Q = "phase_at i {Ph_Started, Ph_Finalizing}"
  let ?C = "\<lambda>e d. case e of Commit x \<Rightarrow> ?Q d | Rollback x \<Rightarrow> True"
  have finish: "guided i ?P ?C (bindE (of_result sz) (\<lambda>sz. bindE (in_tx (start_row r ap st ks sz j)) (\<lambda>n.
      bindE (ensure (n = 1) changed_concurrently) (\<lambda>_. ret (Commit ())))))"
    if "st \<in> {COMMIT_STARTED, FINALIZING}" for sz ap st ks j
    by (rule guided_after [OF still.obeys_of_result] guided_bind [OF guided_start [OF i that]])+
       (rule guided_bind [OF guided_ensure [where B = ?Q]] guided_ret | simp)+
  have choose: "guided i ?P ?C (bindE (choose_blob E r ap q c) (\<lambda>(st, ks, j). bindE (of_result sz) (\<lambda>sz.
      bindE (in_tx (start_row r ap st ks sz j)) (\<lambda>n. bindE (ensure (n = 1) changed_concurrently) (\<lambda>_. ret (Commit ()))))))"
    for ap q c sz
    unfolding split_def by (rule guided_bind [OF guided_choose], rule guided_pure, rule finish)
  show "guided i ?P ?C (begin_transaction E r)"
    unfolding begin_transaction_def
    by (intro guided_after still.obeys_select still.obeys_of_result still.obeys_ensure steady_loads(3) choose)
qed (auto simp: begin_transaction_def bindE_Inr_iff ret_def split: prod.splits)

lemma begin_commit_id: "begin_commit E r s = (Inr r', t) \<Longrightarrow> cm_upload_id r' = cm_upload_id r"
  by (auto simp: begin_commit_def bindE_Inr_iff marks_never_return record_of_def
      elim!: load_commit_Inr dest!: find_upload_in split: if_splits)

abbreviation loaded :: "uuid \<Rightarrow> phase set \<Rightarrow> commit_record \<Rightarrow> tables \<Rightarrow> bool" where
  "loaded i S r d \<equiv> (cm_upload_id r = i \<and> phase_of (cm_commit_state r) \<in> S) \<and>
     phase_at i {phase_of (cm_commit_state r)} d"

lemma guided_begin:
  assumes i: "cm_upload_id r = i"
  shows "guided i (phase_at i {Ph_Receiving}) (loaded i {Ph_Started, Ph_Finalizing}) (begin_commit E r)"
proof -
  have failed: "guided i (phase_at i {Ph_Receiving}) (loaded i {Ph_Started, Ph_Finalizing}) (mark_failed r m)" for m
    unfolding mark_failed_def by (rule guided_failed) simp
  have rest: "guided i (phase_at i {Ph_Receiving}) (loaded i {Ph_Started, Ph_Finalizing})
      (bindE (transaction (begin_transaction E r)) (\<lambda>_. load_commit E (cm_upload_id r) (Some (cm_account_id r))))"
    unfolding i by (rule guided_bind [OF guided_begin_transaction [OF i]]) (rule guided_load)
  show ?thesis
    unfolding begin_commit_def
    by (rule guided_after [OF still.obeys_of_result])
       (simp only: split: if_split, intro conjI impI failed guided_after still.obeys_select still.obeys_ensure rest)
qed

lemma guided_stage:
  "guided i (phase_at i {Ph_Started}) (\<lambda>_. phase_at i {Ph_Started}) (stage_content E r rd fp)"
  unfolding stage_content_def inspect_final_def mark_unknown_def stop_at_def
  by (rule guided_after [OF still.obeys_attempt [OF steady_fs]])
     (auto intro!: guided_after guided_unknown guided_failed guided_ret guided_fail guided_still [OF still.obeys_ensure] steady_rules
       split: sum.splits object_state.splits option.splits)

lemma guided_publish:
  "guided i (phase_at i {Ph_Finalizing}) (\<lambda>_. phase_at i {Ph_Finalizing}) (publish_content E r rd fp)"
  unfolding publish_content_def inspect_final_def mark_unknown_def stop_at_def
  by (rule guided_after [OF still.obeys_attempt [OF steady_fs]])
     (auto intro!: guided_after guided_unknown guided_ret guided_still [OF still.obeys_ensure] steady_rules
       split: sum.splits object_state.splits option.splits)

lemma guided_validate_candidate:
  "guided i (phase_at i {Ph_Finalizing}) (\<lambda>_. phase_at i {Ph_Finalizing}) (validate_blob_candidate E rd c)"
  unfolding validate_blob_candidate_def
  by (auto intro!: guided_after guided_unknown guided_ret steady_rules split: sum.splits object_state.splits)

abbreviation after_metadata :: "uuid \<Rightarrow> metadata_result \<Rightarrow> tables \<Rightarrow> bool" where
  "after_metadata i r \<equiv> phase_at i (case r of Metadata_Committed _ \<Rightarrow> {Ph_Committed} | _ \<Rightarrow> {Ph_Finalizing})"

abbreviation in_metadata :: "uuid \<Rightarrow> metadata_result ending \<Rightarrow> tables \<Rightarrow> bool" where
  "in_metadata i e d \<equiv> (case e of Commit r \<Rightarrow> after_metadata i r d | Rollback _ \<Rightarrow> True)"

lemma guided_commit_row:
  assumes i: "rd_upload_id rd = i"
  shows "guided i (phase_at i {Ph_Finalizing}) (\<lambda>n d. n = 1 \<longrightarrow> phase_at i {Ph_Committed} d)
    (in_tx (commit_row rd c j dedup))"
proof (rule guided_in_tx)
  let ?B = "\<lambda>n d. n = 1 \<longrightarrow> phase_at i {Ph_Committed} d"
  fix now d n d'
  assume d: "unique_uploads d" "phase_at i {Ph_Finalizing} d" and up: "commit_row rd c j dedup now d = Some (n, d')"
  have "unique_uploads d' \<and> moved i d d'"
    by (rule update_moves [OF up [unfolded commit_row_def] d])
       (auto simp: phase_of_simps intro!: move_edge commit_move.metadata)
  moreover have "?B n d'"
  proof
    assume "n = 1"
    with up have "commit_row rd c j dedup now d = Some (Suc 0, d')" by simp
    from update_reaches [OF this [unfolded commit_row_def] _ _ d(1)] show "phase_at i {Ph_Committed} d'"
      using i by (simp add: phase_of_simps)
  qed
  ultimately show "unique_uploads d' \<and> moved i d d' \<and> ?B n d'" by simp
qed

lemma guided_finish_metadata:
  assumes i: "rd_upload_id rd = i"
  shows "guided i (phase_at i {Ph_Finalizing}) (in_metadata i) (finish_metadata rd c)"
proof -
  have commit: "guided i (phase_at i {Ph_Finalizing}) (in_metadata i) (bindE (in_tx (commit_row rd c j q)) (\<lambda>n.
      bindE (ensure (n = 1) changed_concurrently) (\<lambda>_. ret (Commit (Metadata_Committed out)))))" for j q out
    by (rule guided_bind [OF guided_commit_row [OF i]])
       (rule guided_bind [OF guided_ensure [where B = "phase_at i {Ph_Committed}"]] guided_ret | simp)+
  show ?thesis
    unfolding finish_metadata_def Let_def
    by (rule guided_after [OF steady_upsert(1)], rule guided_after [OF steady_upsert(2)],
        rule guided_after [OF steady_statements(4)], rule commit)
qed

lemma guided_metadata:
  assumes i: "rd_upload_id rd = i"
  shows "guided i (phase_at i {Ph_Finalizing}) (after_metadata i) (commit_metadata E rd c)"
  unfolding commit_metadata_def
proof (rule guided_transaction)
  let ?G = "guided i (phase_at i {Ph_Finalizing}) (in_metadata i)"
  have out: "?G (if b then ret (Rollback r) else m)" if "?G m" for b r m
    using that by (simp add: guided_ret)
  show "?G (metadata_body E rd c)"
    unfolding metadata_body_def
    by (rule guided_after [OF still.obeys_select(2)], rule out, rule guided_after [OF still.obeys_of_result],
        rule guided_after [OF still.obeys_of_result], rule guided_after [OF steady_statements(1)],
        rule guided_after [OF steady_loads(3)], rule guided_after [OF still.obeys_of_result], rule out,
        rule guided_finish_metadata [OF i])
qed (auto simp: metadata_body_def finish_metadata_def bindE_Inr_iff ret_def Let_def split: if_splits)

lemma guided_race_retry:
  assumes i: "rd_upload_id rd = i"
  shows "guided i (phase_at i {Ph_Finalizing}) (\<lambda>_. phase_at i {Ph_Committed}) (race_retry E rd n c)"
proof (induction n arbitrary: c)
  case 0
  show ?case by (simp add: guided_fail)
next
  case (Suc n)
  have again: "guided i (after_metadata i r) (\<lambda>_. phase_at i {Ph_Committed}) (case r of
         Metadata_Committed out \<Rightarrow> ret out
       | Validate_Candidate c \<Rightarrow> bindE (validate_blob_candidate E rd c) (\<lambda>_. race_retry E rd n (Some c))
       | Account_Path_Changed \<Rightarrow> mark_unknown_message (rd_upload_id rd)
           ''account storage path changed during upload commit'')" for r
    by (cases r) (auto intro: guided_ret guided_unknown guided_bind [OF guided_validate_candidate] Suc.IH)
  have known: "guided i (phase_at i {Ph_Finalizing}) (\<lambda>_. phase_at i {Ph_Finalizing}) (case row of
         None \<Rightarrow> ret c
       | Some c \<Rightarrow> bindE (validate_blob_candidate E rd c) (\<lambda>_. ret (Some c)))" for row
    by (cases row) (auto intro: guided_ret guided_bind [OF guided_validate_candidate])
  show ?case
    unfolding race_retry.simps
    by (rule guided_after [OF steady_loads(2)], rule guided_bind [OF known],
        rule guided_bind [OF guided_metadata [OF i]], rule again)
qed

lemma guided_finish:
  assumes i: "rd_upload_id rd = i"
  shows "guided i (phase_at i {Ph_Finalizing}) (\<lambda>_. phase_at i {Ph_Committed}) (finish_commit E rd fp)"
  unfolding finish_commit_def commit_metadata_with_race_retry_def stop_at_def
  by (rule guided_bind [OF guided_race_retry [OF i]])
     (auto intro!: guided_after guided_ret steady_rules split: option.splits)

lemma guided_validate_committed:
  "guided i (phase_at i {Ph_Committed}) (\<lambda>_. phase_at i {Ph_Committed}) (validate_committed E r)"
  unfolding validate_committed_def mark_unknown_def
  by (auto intro!: guided_after guided_unknown guided_ret steady_rules
       split: sum.splits option.splits object_state.splits)

lemma guided_drive:
  assumes r: "cm_upload_id r = i" "phase_of (cm_commit_state r) \<in> {Ph_Started, Ph_Finalizing}"
  shows "guided i (phase_at i {phase_of (cm_commit_state r)}) (\<lambda>_. phase_at i {Ph_Committed}) (drive_commit E r fp)"
proof (cases "ready_commit r")
  case (Inl m)
  with r(2) show ?thesis by (auto simp: drive_commit_def mark_unknown_def intro: guided_unknown)
next
  case (Inr rd)
  then have i: "rd_upload_id rd = i"
    using r(1) by (auto simp: ready_commit_def split: option.splits if_splits)
  have last: "guided i (phase_at i {Ph_Finalizing}) (\<lambda>_. phase_at i {Ph_Committed})
      (bindE (publish_content E q rd fp) (\<lambda>_. finish_commit E rd fp))" for q
    by (rule guided_bind [OF guided_publish guided_finish [OF i]])
  show ?thesis
  proof (cases "cm_commit_state r = COMMIT_STARTED")
    case True
    then have p: "phase_of (cm_commit_state r) = Ph_Started" by (simp add: phase_of_def commit_state_defs)
    show ?thesis
      unfolding p using True Inr r(1) last
      by (simp add: drive_commit_def bindE_assoc bindE_ret stop_at_def)
         (rule guided_bind [OF guided_stage], rule guided_bind [OF guided_finalizing],
          rule guided_after [OF still.obeys_ensure], simp)
  next
    case False
    with r(2) have f: "cm_commit_state r = FINALIZING" "phase_of (cm_commit_state r) = Ph_Finalizing"
      by (auto simp: phase_of_def split: if_splits)
    show ?thesis unfolding f(2) using f(1) False Inr last by (simp add: drive_commit_def bindE_ret)
  qed
qed

lemma phase_state:
  "phase_of c = Ph_Receiving \<longleftrightarrow> c = RECEIVING" "phase_of c = Ph_Started \<longleftrightarrow> c = COMMIT_STARTED"
  "phase_of c = Ph_Finalizing \<longleftrightarrow> c = FINALIZING" "phase_of c = Ph_Committed \<longleftrightarrow> c = COMMITTED"
  "phase_of c = Ph_Unknown \<longleftrightarrow> c = UNKNOWN" "phase_of c = Ph_Failed \<longleftrightarrow> c = FAILED"
  "phase_of c = Ph_Invalid \<longleftrightarrow> c \<notin> {RECEIVING, COMMIT_STARTED, FINALIZING, COMMITTED, UNKNOWN, FAILED}"
  "RECEIVING \<noteq> COMMITTED" "RECEIVING \<noteq> UNKNOWN" "RECEIVING \<noteq> FAILED"
  "COMMIT_STARTED \<noteq> COMMITTED" "COMMIT_STARTED \<noteq> UNKNOWN" "COMMIT_STARTED \<noteq> FAILED" "COMMIT_STARTED \<noteq> RECEIVING"
  "FINALIZING \<noteq> COMMITTED" "FINALIZING \<noteq> UNKNOWN" "FINALIZING \<noteq> FAILED" "FINALIZING \<noteq> RECEIVING"
  "UNKNOWN \<noteq> COMMITTED" "FAILED \<noteq> COMMITTED" "FAILED \<noteq> UNKNOWN"
  by (auto simp: phase_of_def commit_state_defs)

lemma guided_complete:
  "guided i (phase_at i UNIV) (\<lambda>_. phase_at i {Ph_Committed}) (complete_inner E i q fp)"
proof -
  have begun: "guided i (phase_at i {Ph_Receiving}) (\<lambda>_. phase_at i {Ph_Committed})
      (bindE (begin_commit E r) (\<lambda>r. bindE (stop_at fp CommitStarted) (\<lambda>_. drive_commit E r fp)))"
    if "cm_upload_id r = i" for r
    unfolding stop_at_def
    by (rule guided_bind [OF guided_begin [OF that]], rule guided_pure, elim conjE,
        rule guided_after [OF still.obeys_ensure], rule guided_drive)
  have run: "guided i (phase_at i {phase_of (cm_commit_state r)}) (\<lambda>_. phase_at i {Ph_Committed})
     (if cm_commit_state r = COMMITTED then validate_committed E r
     else if cm_commit_state r = UNKNOWN then fail (conflict ''upload commit state is unknown'')
     else if cm_commit_state r = FAILED then fail (conflict ''upload commit has failed'')
     else if cm_commit_state r = RECEIVING then
       bindE (begin_commit E r) (\<lambda>r. bindE (stop_at fp CommitStarted) (\<lambda>_. drive_commit E r fp))
     else if cm_commit_state r = COMMIT_STARTED \<or> cm_commit_state r = FINALIZING then
       drive_commit E r fp
     else mark_unknown r ''invalid persisted commit state'')" if r: "cm_upload_id r = i" for r
  proof (cases "phase_of (cm_commit_state r)")
    case Ph_Receiving
    then have "cm_commit_state r = RECEIVING" by (simp add: phase_state)
    then show ?thesis unfolding Ph_Receiving using begun [OF r] by (simp add: phase_state)
  next
    case Ph_Committed
    then have "cm_commit_state r = COMMITTED" by (simp add: phase_state)
    then show ?thesis unfolding Ph_Committed using guided_validate_committed by (simp add: phase_state)
  next
    case Ph_Invalid
    have "guided i (phase_at i {Ph_Invalid}) (\<lambda>_. phase_at i {Ph_Committed}) (mark_unknown r m)" for m
      unfolding mark_unknown_def by (simp add: guided_unknown)
    moreover have "cm_commit_state r \<notin> {RECEIVING, COMMIT_STARTED, FINALIZING, COMMITTED, UNKNOWN, FAILED}"
      using Ph_Invalid unfolding phase_state .
    ultimately show ?thesis unfolding Ph_Invalid by simp
  qed (use guided_drive [OF r, of E fp] in \<open>simp_all add: phase_state guided_fail\<close>)
  show ?thesis
    unfolding complete_inner_def
    by (rule guided_after [OF steady_fs], rule guided_bind [OF guided_load], rule guided_pure, elim conjE, rule run)
qed

text \<open>
  C2. The life of an upload.  A completion refines the abstract machine: from whatever persisted state it
  starts and whatever statement, system call or other request gets in its way, the state of the upload only
  moves along the edges of \<^const>\<open>commit_move\<close>, so that \<open>unknown\<close> and \<open>failed\<close> are final and \<open>committed\<close> is
  reached from \<open>finalizing\<close> only; and if it reports success the upload is \<open>committed\<close>.  The other requests
  respect the lock: they leave the state of this upload alone, or delete its row.
\<close>

theorem commit_lifecycle:
  assumes "complete_inner E i q fp s = (r, t)" "state_rely i s" "unique_uploads (srv_db s)"
    and "find_upload (srv_db s) i = Some u" "find_upload (srv_db t) i = Some v"
  shows "commit_move\<^sup>*\<^sup>* (phase_of (upl_commit_state u)) (phase_of (upl_commit_state v)) \<and>
    (\<forall>out. r = Inr out \<longrightarrow> phase_of (upl_commit_state v) = Ph_Committed)"
proof -
  have "phase_at i UNIV (srv_db s)" by (simp add: phase_at_def)
  with guided_complete [of i E q fp] assms(1-3) have "moved i (srv_db s) (srv_db t)"
    "\<And>out. r = Inr out \<Longrightarrow> phase_at i {Ph_Committed} (srv_db t)" unfolding guided_def by blast+
  with assms(4,5) show ?thesis by (auto simp: moved_def phase_at_def)
qed

end
