(* ===== verification/Access.thy ===== *)
theory Access
  imports Accounts
begin

text \<open>
  Who gets in: the middleware lets a request through only on a live credential of an enabled account, a
  key that was handed out is such a credential, and a revoked key is not.
\<close>

section \<open>Live credentials\<close>

definition enabled_account :: "uuid \<Rightarrow> tables \<Rightarrow> bool" where
  "enabled_account i d \<longleftrightarrow> (\<exists>a \<in> set (t_accounts d). acc_id a = i \<and> acc_enabled a)"

definition live_credential :: "secrets \<Rightarrow> string \<Rightarrow> auth_context \<Rightarrow> auth_usage \<Rightarrow> tables \<Rightarrow> bool" where
  "live_credential S token auth usage d \<longleftrightarrow> enabled_account (ac_account_id auth) d \<and> (case usage of
       Device i \<Rightarrow> ac_actor_kind auth = ''device'' \<and> ac_actor_id auth = i \<and> (\<exists>v \<in> set (t_devices d).
         dev_id v = i \<and> dev_token_hash v = sec_sha256 S token \<and> dev_account_id v = ac_account_id auth \<and>
         ac_device_id auth = i)
     | ApiKey i \<Rightarrow> ac_actor_kind auth = ''api_key'' \<and> ac_actor_id auth = i \<and> (\<exists>k \<in> set (t_api_keys d).
         key_id k = i \<and> key_token_hash k = sec_sha256 S token \<and> key_revoked_at k = None \<and>
         key_account_id k = ac_account_id auth \<and> key_device_id k = ac_device_id auth))"

lemma device_of_token_Some:
  assumes "device_of_token h d = Some (a, i)"
  obtains v where "v \<in> set (t_devices d)" "dev_id v = i" "dev_token_hash v = h" "dev_account_id v = a" "enabled_account a d"
  using assms by (auto simp: device_of_token_def enabled_account_def list_ex_iff dest!: find_SomeD)

lemma key_of_token_Some:
  assumes "key_of_token h d = Some (a, v, i)"
  obtains k where "k \<in> set (t_api_keys d)" "key_id k = i" "key_token_hash k = h" "key_account_id k = a"
    "key_device_id k = v" "key_revoked_at k = None" "enabled_account a d"
  using assms by (auto simp: key_of_token_def enabled_account_def list_ex_iff dest!: find_SomeD)

lemma bind_strip_prefix: "Option.bind x (strip_prefix p) = Some y \<longleftrightarrow> x = Some (p @ y)"
  by (cases x) (auto simp: strip_prefix_Some)

lemma strip_bearer: "bearer_token header = Inr token \<longleftrightarrow> header = Some (''Bearer '' @ token)"
  unfolding bearer_token_def bind_strip_prefix [symmetric] by (simp add: ok_or_def split: option.splits)

lemma authenticate_live:
  assumes "authenticate S header s = (Inr (auth, usage), t)"
  shows "\<exists>token. header = Some (''Bearer '' @ token) \<and> live_credential S token auth usage (srv_db t)"
proof -
  from assms obtain token dev u where token: "header = Some (''Bearer '' @ token)"
    and dev: "on_pool (select (device_of_token (sec_sha256 S token))) s = (Inr dev, u)"
    and rest: "(case dev of
       Some (account_id, device_id) \<Rightarrow>
         ret (\<lparr>ac_account_id = account_id, ac_device_id = device_id, ac_actor_kind = ''device'',
               ac_actor_id = device_id\<rparr>, Device device_id)
     | None \<Rightarrow>
         bindE (on_pool (select (key_of_token (sec_sha256 S token)))) (\<lambda>key.
         bindE (of_result (ok_or unauthorized key)) (\<lambda>(account_id, device_id, api_key_id).
         ret (\<lparr>ac_account_id = account_id, ac_device_id = device_id, ac_actor_kind = ''api_key'',
               ac_actor_id = api_key_id\<rparr>, ApiKey api_key_id)))) u = (Inr (auth, usage), t)"
    by (auto simp: authenticate_def bindE_Inr_iff [of "of_result _"] bindE_Inr_iff [of "on_pool (select (device_of_token _))"]
        of_result_Inr strip_bearer)
  show ?thesis
  proof (cases dev)
    case None
    with rest obtain a v i where key: "on_pool (select (key_of_token (sec_sha256 S token))) u = (Inr (Some (a, v, i)), t)"
      and auth: "auth = \<lparr>ac_account_id = a, ac_device_id = v, ac_actor_kind = ''api_key'', ac_actor_id = i\<rparr>" "usage = ApiKey i"
      by (auto simp: bindE_Inr_iff of_result_Inr ok_or_def ret_def split: option.splits)
    from key have "key_of_token (sec_sha256 S token) (srv_db t) = Some (a, v, i)"
      by (auto simp: on_pool_def in_tx_Inr select_def)
    with token auth show ?thesis by (auto simp: live_credential_def elim!: key_of_token_Some)
  next
    case (Some p)
    obtain a i where p: "p = (a, i)" by fastforce
    from dev Some p have "device_of_token (sec_sha256 S token) (srv_db u) = Some (a, i)"
      by (auto simp: on_pool_def in_tx_Inr select_def)
    with rest Some p token show ?thesis by (auto simp: live_credential_def ret_def elim!: device_of_token_Some)
  qed
qed

lemma authenticate_refuses:
  assumes "authenticate S header s = (Inl e, t)"
  shows "e = unauthorized \<or> e = database_error"
  using assms
  by (auto simp: authenticate_def bindE_Inl_iff of_result_def bearer_token_def ok_or_def on_pool_def ret_def
      dest!: in_tx_Inl split: option.splits prod.splits)

lemma record_usage_runs: "\<exists>u. record_usage usage s = (Inr (), u)"
proof -
  obtain q v where "on_pool (case usage of Device i \<Rightarrow> touch_device i | ApiKey i \<Rightarrow> touch_key i) s = (q, v)" by fastforce
  then show ?thesis by (auto simp: record_usage_def bindE_def attempt_run ret_def)
qed

text \<open>
  C11. The door.  Behind \<open>require_auth\<close> a handler only runs for a header \<open>Bearer\<close> with the token of a device or
  an unrevoked key of an enabled account, live in the tables at the moment it is let through, and it runs in
  the name of that account, device and actor; its result is passed on, and the use of the credential is
  recorded exactly when it succeeds.  Every other request is answered with 401 or a database error without
  the handler being started.
\<close>

theorem require_auth_guards:
  assumes "require_auth S header h s = (r, t)"
  shows "(\<exists>token auth usage u q v. header = Some (''Bearer '' @ token) \<and>
      authenticate S header s = (Inr (auth, usage), u) \<and> live_credential S token auth usage (srv_db u) \<and>
      h auth u = (q, v) \<and> r = q \<and> (case q of Inl e \<Rightarrow> t = v | Inr x \<Rightarrow> record_usage usage v = (Inr (), t))) \<or>
    (\<exists>e. authenticate S header s = (Inl e, t) \<and> r = Inl e \<and> e \<in> {unauthorized, database_error})"
proof -
  obtain a u where a: "authenticate S header s = (a, u)" by fastforce
  show ?thesis
  proof (cases a)
    case (Inl e)
    with assms a have "r = Inl e \<and> t = u" by (auto simp: require_auth_def bindE_def)
    with a Inl authenticate_refuses show ?thesis by blast
  next
    case (Inr p)
    obtain auth usage where p: "p = (auth, usage)" by fastforce
    obtain q v where q: "h auth u = (q, v)" by fastforce
    obtain w where w: "record_usage usage v = (Inr (), w)" using record_usage_runs by blast
    have "r = q \<and> (case q of Inl e \<Rightarrow> t = v | Inr x \<Rightarrow> record_usage usage v = (Inr (), t))"
      using assms a Inr p q w
      by (auto simp: require_auth_def bindE_def attempt_run fail_def ret_def split: sum.splits)
    with a Inr p q authenticate_live show ?thesis by blast
  qed
qed

section \<open>Keys\<close>

text \<open>Between two requests nothing fails and nobody else changes the tables.\<close>

definition undisturbed :: "server \<Rightarrow> bool" where
  "undisturbed s \<longleftrightarrow> (\<forall>n. \<not> srv_fault s n) \<and> (\<forall>n w. srv_others s n w = w)"

lemma undisturbed_others: "undisturbed s \<Longrightarrow> run_others s = s"
  by (simp add: undisturbed_def run_others_def)

lemma undisturbed_read:
  "undisturbed s \<Longrightarrow> on_pool (select f) s = (Inr (f (srv_db s)), s\<lparr>srv_tick := Suc (srv_tick s)\<rparr>)"
  by (simp add: on_pool_def undisturbed_others in_tx_def select_def Let_def) (simp add: undisturbed_def)

lemma undisturbed_tick: "undisturbed s \<Longrightarrow> undisturbed (s\<lparr>srv_tick := n\<rparr>)"
  by (simp add: undisturbed_def)

lemma find_append_none: "find P xs = None \<Longrightarrow> find P (xs @ ys) = find P ys"
  by (induction xs) (auto split: if_splits)

text \<open>What a successful creation has left in the tables.\<close>

lemma create_api_key_row:
  assumes "create_api_key S random auth req s = (Inr (st, c), t)"
  shows "akc_token c = ''pbk_'' @ sec_base64 S random \<and>
    (\<exists>k ks. t_api_keys (srv_db t) = ks @ [k] \<and> key_id k = akc_api_key_id c \<and> key_account_id k = ac_account_id auth \<and>
       key_device_id k = ac_device_id auth \<and> key_token_hash k = sec_sha256 S (akc_token c) \<and> key_revoked_at k = None \<and>
       (\<forall>l \<in> set ks. key_token_hash l \<noteq> key_token_hash k))"
  using assms
  by (auto simp: create_api_key_def Let_def bindE_Inr_iff ensure_run ret_def in_tx_Inr fresh_uuid_def insert_api_key_def
      record_in_transaction_def insert_audit_event_def list_ex_iff split: if_splits elim!: transaction_Inr)

text \<open>
  C24. A key works.  The token of a key that \<open>create_api_key\<close> handed out authenticates its account, device and
  key from then on, as long as the account is enabled and the token is not that of a device.
\<close>

theorem created_key_authenticates:
  assumes "create_api_key S random auth req s = (Inr (st, c), t)"
    and "undisturbed u" "srv_db u = srv_db t" "enabled_account (ac_account_id auth) (srv_db t)"
    and "\<And>v. v \<in> set (t_devices (srv_db t)) \<Longrightarrow> dev_token_hash v \<noteq> sec_sha256 S (akc_token c)"
  shows "fst (authenticate S (Some (''Bearer '' @ akc_token c)) u) =
    Inr (\<lparr>ac_account_id = ac_account_id auth, ac_device_id = ac_device_id auth, ac_actor_kind = ''api_key'',
          ac_actor_id = akc_api_key_id c\<rparr>, ApiKey (akc_api_key_id c))"
proof -
  let ?h = "sec_sha256 S (akc_token c)"
  from create_api_key_row [OF assms(1)] obtain k ks where keys: "t_api_keys (srv_db t) = ks @ [k]"
    and k: "key_id k = akc_api_key_id c" "key_account_id k = ac_account_id auth" "key_device_id k = ac_device_id auth"
      "key_token_hash k = ?h" "key_revoked_at k = None" and new: "\<forall>l \<in> set ks. key_token_hash l \<noteq> ?h" by auto
  have dev: "device_of_token ?h (srv_db u) = None"
    using assms(3,5) by (auto simp: device_of_token_def find_None_iff)
  have miss: "find (\<lambda>k. key_token_hash k = ?h \<and> key_revoked_at k = None \<and>
        list_ex (\<lambda>a. acc_id a = key_account_id k \<and> acc_enabled a) (t_accounts (srv_db t))) ks = None"
    using new by (auto simp: find_None_iff)
  have key: "key_of_token ?h (srv_db u) = Some (ac_account_id auth, ac_device_id auth, akc_api_key_id c)"
    using assms(3,4) keys k find_append_none [OF miss]
    by (auto simp: key_of_token_def enabled_account_def list_ex_iff)
  have token: "bearer_token (Some (''Bearer '' @ akc_token c)) = Inr (akc_token c)" by (simp only: strip_bearer)
  show ?thesis
    unfolding authenticate_def token
    by (simp add: bindE_of_result bindE_def undisturbed_read assms(2) undisturbed_tick dev key ok_or_def of_result_def ret_def)
qed

definition revoked :: "uuid \<Rightarrow> tables \<Rightarrow> bool" where
  "revoked i d \<longleftrightarrow> (\<forall>k \<in> set (t_api_keys d). key_id k = i \<longrightarrow> key_revoked_at k \<noteq> None)"

lemma revoke_key_row_Some:
  assumes "revoke_key_row i account now d = Some (m, d')" "m \<noteq> 0"
  shows "\<exists>k \<in> set (t_api_keys d'). key_id k = i \<and> key_revoked_at k \<noteq> None"
proof -
  let ?P = "\<lambda>k. key_id k = i \<and> key_account_id k = account \<and> key_revoked_at k = None"
  from assms obtain k where k: "k \<in> set (t_api_keys d)" "?P k"
    by (auto simp: revoke_key_row_def update_keys_def update_rows_def filter_empty_conv)
  have "t_api_keys d' = map (\<lambda>k. if ?P k then k\<lparr>key_revoked_at := Some now\<rparr> else k) (t_api_keys d)"
    using assms(1) by (auto simp: revoke_key_row_def update_keys_def update_rows_def)
  with k have "k\<lparr>key_revoked_at := Some now\<rparr> \<in> set (t_api_keys d')" by (force simp: image_iff)
  with k(2) show ?thesis by (intro bexI) auto
qed

lemma revoke_api_key_revokes:
  assumes "revoke_api_key auth i s = (Inr n, t)" "distinct (map key_id (t_api_keys (srv_db t)))"
  shows "revoked i (srv_db t)"
proof -
  from assms(1) have "\<exists>now d m d'. revoke_key_row i (ac_account_id auth) now d = Some (m, d') \<and> m \<noteq> 0 \<and>
      t_api_keys (srv_db t) = t_api_keys d'"
    by (auto simp: revoke_api_key_def bindE_Inr_iff ensure_run ret_def in_tx_Inr record_in_transaction_def
        insert_audit_event_def split: if_splits elim!: transaction_Inr) blast+
  then have "\<exists>k \<in> set (t_api_keys (srv_db t)). key_id k = i \<and> key_revoked_at k \<noteq> None"
    using revoke_key_row_Some by metis
  then obtain k where k: "k \<in> set (t_api_keys (srv_db t))" "key_id k = i" "key_revoked_at k \<noteq> None" by blast
  have "l = k" if "l \<in> set (t_api_keys (srv_db t))" "key_id l = i" for l
    using assms(2) k(1,2) that by (auto simp: distinct_map dest: inj_onD)
  with k(3) show ?thesis by (auto simp: revoked_def)
qed

interpretation revoked_keys: server_frame "revoked i" "\<lambda>_ _. True" "\<lambda>_ _. True" "{}" for i
  by unfold_locales simp_all

lemma revoked_never_authenticates:
  "gives (revoked i) (\<lambda>_ _. True) (\<lambda>_ _. True) {} (\<lambda>p. snd p \<noteq> ApiKey i) (authenticate S header)"
proof -
  have key: "gives (revoked i) (\<lambda>_ _. True) (\<lambda>_ _. True) {} (\<lambda>row. \<forall>a v j. row = Some (a, v, j) \<longrightarrow> j \<noteq> i)
      (on_pool (select (key_of_token h)))" for h
    by (rule revoked_keys.gives_on_pool) (auto simp: revoked_def elim!: key_of_token_Some)
  have rest: "gives (revoked i) (\<lambda>_ _. True) (\<lambda>_ _. True) {} (\<lambda>p. snd p \<noteq> ApiKey i)
      (bindE (of_result (ok_or unauthorized row)) (\<lambda>(account_id, device_id, api_key_id).
         ret (\<lparr>ac_account_id = account_id, ac_device_id = device_id, ac_actor_kind = ''api_key'',
               ac_actor_id = api_key_id\<rparr>, ApiKey api_key_id)))" if "\<forall>a v j. row = Some (a, v, j) \<longrightarrow> j \<noteq> i" for row
    using that by (auto simp: gives_def bindE_Inr_iff of_result_Inr ok_or_def ret_def split: option.splits)
  show ?thesis
    unfolding authenticate_def
    by (rule revoked_keys.gives_bind [OF revoked_keys.obeys_of_result revoked_keys.gives_any],
        rule revoked_keys.gives_bind [OF revoked_keys.obeys_select(1) revoked_keys.gives_any])
       (auto split: option.splits intro!: revoked_keys.gives_ret
          revoked_keys.gives_bind [OF revoked_keys.obeys_select(1) key] rest)
qed

text \<open>
  C25. A revoked key is dead.  Once \<open>revoke_api_key\<close> has reported success, no header authenticates as that key,
  whatever the other requests do, provided they do not bring it back.
\<close>

theorem revoked_key_rejected:
  assumes "revoke_api_key auth i s = (Inr n, t)" "distinct (map key_id (t_api_keys (srv_db t)))"
    and "\<And>n d f. revoked i d \<Longrightarrow> revoked i (fst (srv_others t n (d, f)))"
    and "authenticate S header t = (Inr (a, usage), u)"
  shows "usage \<noteq> ApiKey i"
proof -
  have "rely (revoked i) (\<lambda>_ _. True) (\<lambda>_ _. True) {} t" using assms(3) by (simp add: rely_def)
  with revoked_never_authenticates [of i S header] revoke_api_key_revokes [OF assms(1,2)] assms(4)
  show ?thesis by (fastforce simp: gives_def)
qed

end
