(* ===== verification/Administration.thy ===== *)
theory Administration
  imports Accounts
begin

text \<open>
  The account administration of \<open>admin.rs\<close> and the password rules of \<open>password.rs\<close>.  The session
  check of the administrator (\<open>require_admin\<close>) is a call of \<open>sarmg_admin_axum\<close> and is not modelled.
\<close>

section \<open>Requests and answers\<close>

record create_user_request =
  nu_username :: string
  nu_password :: string
  nu_display_name :: string
  nu_storage_path :: string
  nu_quota_bytes :: i64
  nu_enabled :: bool

record update_user_request =
  uu_username :: string
  uu_display_name :: string
  uu_storage_path :: string
  uu_quota_bytes :: i64
  uu_enabled :: bool

record reset_password_request =
  rp_password :: string

text \<open>Timestamps are the seconds that the source prints; no device was ever seen is None.\<close>

record admin_user =
  au_id :: uuid
  au_username :: string
  au_display_name :: string
  au_storage_path :: string
  au_quota_bytes :: i64
  au_used_bytes :: i64
  au_pending_bytes :: i64
  au_device_count :: i64
  au_resource_count :: i64
  au_enabled :: bool
  au_created_at :: nat
  au_last_seen_at :: "nat option"

record overview =
  ov_users :: "admin_user list"
  ov_total_users :: i64
  ov_active_users :: i64
  ov_unlimited_users :: i64
  ov_used_bytes :: i64
  ov_pending_bytes :: i64
  ov_quota_bytes :: i64

section \<open>Validation\<close>

definition validate_policy :: "string \<Rightarrow> string \<Rightarrow> i64 \<Rightarrow> app_error + unit" where
  "validate_policy display_name storage_path quota_bytes =
     (if display_name = [] \<or> 32 < char_count display_name \<or> has_control display_name
      then Inl (bad_request ''display_name must contain 1 to 32 characters without controls'')
      else if storage_path = [] \<or> 1024 < length storage_path \<or> has_control storage_path
      then Inl (bad_request ''invalid storage_path'')
      else if quota_bytes < 0 then Inl (bad_request ''quota_bytes cannot be negative'')
      else Inr ())"

definition is_ascii_alphanumeric :: "char \<Rightarrow> bool" where
  "is_ascii_alphanumeric c \<longleftrightarrow> is_ascii_digit c \<or> is_ascii_upper c \<or> is_ascii_lower c"

definition validate_username :: "string \<Rightarrow> app_error + unit" where
  "validate_username u =
     (if length u < 3 \<or> 64 < length u \<or>
         \<not> list_all (\<lambda>c. is_ascii_alphanumeric c \<or> c \<in> {CHR ''_'', CHR ''-'', CHR ''.''}) u
      then Inl (bad_request ''username must contain 3 to 64 letters, digits, dots, dashes or underscores'')
      else Inr ())"

definition require_current_policy :: "secrets \<Rightarrow> string \<Rightarrow> app_error + unit" where
  "require_current_policy S password = (case sec_validate_password S password of
       Inl e \<Rightarrow> Inl (bad_request e) | Inr _ \<Rightarrow> Inr ())"

definition hash_current_password :: "secrets \<Rightarrow> string \<Rightarrow> app_error + string" where
  "hash_current_password S password =
     ok_or (app_error 500 ''password hashing failed'') (sec_hash_password S password)"

definition except_account :: "uuid option \<Rightarrow> account \<Rightarrow> bool" where
  "except_account i a \<longleftrightarrow> i = None \<or> i \<noteq> Some (acc_id a)"

definition ensure_unique_username :: "string \<Rightarrow> uuid option \<Rightarrow> unit srv" where
  "ensure_unique_username username except_id =
     bindE (on_pool (select (\<lambda>d. list_ex (\<lambda>a. to_ascii_lowercase (acc_username a) = to_ascii_lowercase username
        \<and> except_account except_id a) (t_accounts d)))) (\<lambda>existing.
     ensure (\<not> existing) (conflict ''username is already in use''))"

text \<open>The loop over the assigned paths.\<close>

fun check_paths :: "string \<Rightarrow> string list \<Rightarrow> app_error + unit" where
  "check_paths storage_path [] = Inr ()"
| "check_paths storage_path (assigned # rest) = (case account_paths_overlap storage_path assigned of
     Inl e \<Rightarrow> Inl e
   | Inr True \<Rightarrow> Inl (conflict ''storage_path overlaps another user's directory'')
   | Inr False \<Rightarrow> check_paths storage_path rest)"

definition ensure_unique_path :: "string \<Rightarrow> uuid option \<Rightarrow> unit srv" where
  "ensure_unique_path storage_path except_id =
     bindE (on_pool (select (\<lambda>d. map acc_storage_path (filter (except_account except_id) (t_accounts d))))) (\<lambda>existing.
     of_result (check_paths storage_path existing))"

section \<open>Loading users\<close>

definition pending_sizes :: "uuid \<Rightarrow> tables \<Rightarrow> i64 list" where
  "pending_sizes account d = concat (map (\<lambda>p. map (\<lambda>u. upt_expected_size p)
     (filter (\<lambda>u. upl_id u = upt_upload_id p \<and> upl_account_id u = account \<and> upl_state u = ''uploading'')
       (t_uploads d))) (t_upload_parts d))"

definition account_resources :: "uuid \<Rightarrow> tables \<Rightarrow> resource list" where
  "account_resources account d = filter (\<lambda>r. list_ex (\<lambda>a. ast_id a = res_asset_id r \<and> ast_account_id a = account)
     (t_assets d)) (t_resources d)"

definition row_to_user :: "tables \<Rightarrow> account \<Rightarrow> admin_user option" where
  "row_to_user d a =
     (let devs = filter (\<lambda>v. dev_account_id v = acc_id a) (t_devices d) in
      case (sql_sum (used_sizes (acc_id a) d), sql_sum (pending_sizes (acc_id a) d)) of
        (Some used, Some pending) \<Rightarrow> Some
          \<lparr>au_id = acc_id a, au_username = acc_username a, au_display_name = acc_display_name a,
           au_storage_path = acc_storage_path a, au_quota_bytes = acc_quota_bytes a,
           au_used_bytes = used, au_pending_bytes = pending, au_device_count = int (length devs),
           au_resource_count = int (length (account_resources (acc_id a) d)), au_enabled = acc_enabled a,
           au_created_at = acc_created_at a,
           au_last_seen_at = (if devs = [] then None else Some (Max (set (map dev_last_seen_at devs))))\<rparr>
      | _ \<Rightarrow> None)"

definition user_rows :: "tables \<Rightarrow> admin_user list option" where
  "user_rows d = those (map (row_to_user d) (sort_key acc_created_at (t_accounts d)))"

definition load_users :: "admin_user list srv" where
  "load_users = on_pool (fetch_one user_rows)"

definition load_user :: "uuid \<Rightarrow> admin_user srv" where
  "load_user i = bindE load_users (\<lambda>users.
     of_result (ok_or (not_found ''user not found'') (find (\<lambda>u. au_id u = i) users)))"

text \<open>The sums over all users are \<open>i64\<close> additions that wrap.\<close>

definition wrapping_sum :: "i64 list \<Rightarrow> i64" where
  "wrapping_sum xs = signed_take_bit 63 (sum_list xs)"

definition overview_of :: "admin_user list \<Rightarrow> overview" where
  "overview_of users = \<lparr>ov_users = users, ov_total_users = int (length users),
     ov_active_users = int (length (filter au_enabled users)),
     ov_unlimited_users = int (length (filter (\<lambda>u. au_quota_bytes u = 0) users)),
     ov_used_bytes = wrapping_sum (map au_used_bytes users),
     ov_pending_bytes = wrapping_sum (map au_pending_bytes users),
     ov_quota_bytes = wrapping_sum (map au_quota_bytes (filter (\<lambda>u. 0 < au_quota_bytes u) users))\<rparr>"

definition overview_handler :: "overview srv" where
  "overview_handler = bindE load_users (\<lambda>users. ret (overview_of users))"

section \<open>Changing users\<close>

text \<open>The unique indexes of \<open>accounts\<close>: the path, and the name in lower case.\<close>

definition account_conflict :: "account \<Rightarrow> account list \<Rightarrow> bool" where
  "account_conflict a rows \<longleftrightarrow> list_ex (\<lambda>b. acc_storage_path b = acc_storage_path a \<or>
     to_ascii_lowercase (acc_username b) = to_ascii_lowercase (acc_username a)) rows"

definition insert_account :: "account \<Rightarrow> unit statement" where
  "insert_account a now d =
     (if list_ex (\<lambda>b. acc_id b = acc_id a) (t_accounts d) \<or> account_conflict a (t_accounts d) then None
      else Some ((), d\<lparr>t_accounts := t_accounts d @ [a\<lparr>acc_created_at := now\<rparr>]\<rparr>))"

definition create_user :: "app \<Rightarrow> secrets \<Rightarrow> create_user_request \<Rightarrow> admin_user srv" where
  "create_user E S r =
     bindE fresh_uuid (\<lambda>i.
     (let username = trim (nu_username r); display_name = trim (nu_display_name r);
          storage_path = (if trim (nu_storage_path r) = [] then ''blobs/'' @ uuid_str (app_externals E) i
            else trim (nu_storage_path r)) in
     bindE (of_result (validate_username username)) (\<lambda>_.
     bindE (of_result (require_current_policy S (nu_password r))) (\<lambda>_.
     bindE (of_result (validate_policy display_name storage_path (nu_quota_bytes r))) (\<lambda>_.
     bindE (ensure_unique_username username None) (\<lambda>_.
     bindE (ensure_unique_path storage_path None) (\<lambda>_.
     bindE fresh_uuid (\<lambda>probe.
     bindE (on_fs (validate_account_path (app_externals E) probe storage_path)) (\<lambda>_.
     bindE (of_result (hash_current_password S (nu_password r))) (\<lambda>hash.
     bindE (on_pool (insert_account \<lparr>acc_id = i, acc_created_at = 0, acc_display_name = display_name,
         acc_storage_path = storage_path, acc_quota_bytes = nu_quota_bytes r, acc_enabled = nu_enabled r,
         acc_username = username, acc_password_hash = Some hash\<rparr>)) (\<lambda>_.
     load_user i)))))))))))"

definition update_account_row :: "uuid \<Rightarrow> (account \<Rightarrow> account) \<Rightarrow> nat statement" where
  "update_account_row i f now d =
     (if list_ex (\<lambda>a. acc_id a = i \<and> account_conflict (f a) (filter (\<lambda>b. acc_id b \<noteq> i) (t_accounts d)))
         (t_accounts d) then None
      else case update_rows (\<lambda>a. acc_id a = i) f (t_accounts d) of
        (n, rows) \<Rightarrow> Some (n, d\<lparr>t_accounts := rows\<rparr>))"

definition user_missing :: app_error where
  "user_missing = not_found ''user not found''"

definition update_user :: "app \<Rightarrow> uuid \<Rightarrow> update_user_request \<Rightarrow> admin_user srv" where
  "update_user E i r =
     (let username = trim (uu_username r); display_name = trim (uu_display_name r);
          storage_path = trim (uu_storage_path r) in
     bindE (of_result (validate_username username)) (\<lambda>_.
     bindE (of_result (validate_policy display_name storage_path (uu_quota_bytes r))) (\<lambda>_.
     bindE (ensure_unique_username username (Some i)) (\<lambda>_.
     bindE (ensure_unique_path storage_path (Some i)) (\<lambda>_.
     bindE fresh_uuid (\<lambda>probe.
     bindE (on_fs (validate_account_path (app_externals E) probe storage_path)) (\<lambda>_.
     bindE (on_pool (update_account_row i (\<lambda>a. a\<lparr>acc_username := username, acc_display_name := display_name,
         acc_storage_path := storage_path, acc_quota_bytes := uu_quota_bytes r,
         acc_enabled := uu_enabled r\<rparr>))) (\<lambda>n.
     bindE (ensure (n \<noteq> 0) user_missing) (\<lambda>_.
     load_user i)))))))))"

definition reset_user_password :: "secrets \<Rightarrow> uuid \<Rightarrow> reset_password_request \<Rightarrow> nat srv" where
  "reset_user_password S i r =
     bindE (of_result (require_current_policy S (rp_password r))) (\<lambda>_.
     bindE (of_result (hash_current_password S (rp_password r))) (\<lambda>hash.
     bindE (on_pool (update_account_row i (\<lambda>a. a\<lparr>acc_password_hash := Some hash\<rparr>))) (\<lambda>n.
     bindE (ensure (n \<noteq> 0) user_missing) (\<lambda>_. ret 204))))"

end
