(* ===== verification/Admin_Correct.thy ===== *)
theory Admin_Correct
  imports Administration Storage_Correct
begin

text \<open>
  The administration keeps the directories of the accounts apart, which is what isolates the files of one
  tenant from those of another; and why it takes that no other change of the accounts comes in between.
\<close>

section \<open>Directories apart\<close>

definition paths_apart :: "account list \<Rightarrow> bool" where
  "paths_apart L \<longleftrightarrow> (\<forall>a \<in> set L. \<forall>b \<in> set L. acc_id a \<noteq> acc_id b \<longrightarrow>
     account_paths_overlap (acc_storage_path a) (acc_storage_path b) = Inr False)"

definition path_free :: "string \<Rightarrow> uuid option \<Rightarrow> account list \<Rightarrow> bool" where
  "path_free p i L \<longleftrightarrow> (\<forall>b \<in> set L. except_account i b \<longrightarrow> account_paths_overlap p (acc_storage_path b) = Inr False)"

lemma overlap_sym: "account_paths_overlap a b = Inr False \<Longrightarrow> account_paths_overlap b a = Inr False"
  by (auto simp: account_paths_overlap_def split: sum.splits)

lemma check_paths_Inr:
  "check_paths p qs = Inr () \<longleftrightarrow> (\<forall>q \<in> set qs. account_paths_overlap p q = Inr False)"
  by (induction qs) (auto split: sum.splits bool.splits)

text \<open>The others leave the accounts alone.\<close>

definition same_accounts :: "tables \<Rightarrow> tables \<Rightarrow> bool" where
  "same_accounts d d' \<longleftrightarrow> t_accounts d' = t_accounts d"

interpretation accts: server_frame "\<lambda>_. True" same_accounts "\<lambda>_ _. True" "{}"
  by unfold_locales (simp_all add: same_accounts_def)

abbreviation accounts_rely :: "server \<Rightarrow> bool" where
  "accounts_rely \<equiv> rely (\<lambda>_. True) same_accounts (\<lambda>_ _. True) {}"

abbreviation accounts_steady :: "'a srv \<Rightarrow> bool" where
  "accounts_steady \<equiv> obeys (runs (\<lambda>_. True) same_accounts (\<lambda>_ _. True) {})"

text \<open>What a computation makes of the accounts; where it fails they are apart.\<close>

definition makes :: "(account list \<Rightarrow> bool) \<Rightarrow> ('a \<Rightarrow> account list \<Rightarrow> bool) \<Rightarrow> 'a srv \<Rightarrow> bool" where
  "makes P Q m \<longleftrightarrow> (\<forall>s r t. accounts_rely s \<longrightarrow> P (t_accounts (srv_db s)) \<longrightarrow> m s = (r, t) \<longrightarrow> same_world s t \<and>
     (case r of Inl _ \<Rightarrow> paths_apart (t_accounts (srv_db t)) | Inr x \<Rightarrow> Q x (t_accounts (srv_db t))))"

lemma makes_bind:
  assumes m: "makes P Q m" and f: "\<And>x. makes (Q x) R (f x)"
  shows "makes P R (bindE m f)"
  unfolding makes_def
proof (intro allI impI)
  fix s r u
  assume s: "accounts_rely s" "P (t_accounts (srv_db s))" and run: "bindE m f s = (r, u)"
  obtain q t where q: "m s = (q, t)" by fastforce
  with m s have t: "same_world s t" "case q of Inl _ \<Rightarrow> paths_apart (t_accounts (srv_db t)) | Inr x \<Rightarrow> Q x (t_accounts (srv_db t))"
    unfolding makes_def by blast+
  show "same_world s u \<and> (case r of Inl _ \<Rightarrow> paths_apart (t_accounts (srv_db u)) | Inr x \<Rightarrow> R x (t_accounts (srv_db u)))"
  proof (cases q)
    case (Inl e)
    with run q t show ?thesis by (auto simp: bindE_def)
  next
    case (Inr x)
    with run q have "f x t = (r, u)" by (simp add: bindE_def)
    with f [of x] t(2) Inr rely_same_world [OF t(1) s(1)] have "same_world t u \<and>
        (case r of Inl _ \<Rightarrow> paths_apart (t_accounts (srv_db u)) | Inr x \<Rightarrow> R x (t_accounts (srv_db u)))"
      unfolding makes_def by simp
    with t(1) show ?thesis by (simp add: same_world_def)
  qed
qed

lemma makes_steady:
  assumes "accounts_steady m" "\<And>L. P L \<Longrightarrow> paths_apart L"
  shows "makes P (\<lambda>_. P) m"
  using assms obeysD [OF assms(1)]
  by (fastforce simp: makes_def runs_def same_accounts_def split: sum.splits)

lemma makes_after:
  "accounts_steady m \<Longrightarrow> (\<And>L. P L \<Longrightarrow> paths_apart L) \<Longrightarrow> (\<And>x. makes P R (f x)) \<Longrightarrow> makes P R (bindE m f)"
  by (rule makes_bind [OF makes_steady])

text \<open>A statement on the pool, which finds the accounts as they were.\<close>

lemma makes_on_pool:
  assumes "\<And>now d x d'. P (t_accounts d) \<Longrightarrow> q now d = Some (x, d') \<Longrightarrow> Q x (t_accounts d')"
    and "\<And>L. P L \<Longrightarrow> paths_apart L"
  shows "makes P Q (on_pool q)"
proof -
  have world: "same_world s (run_others s)" "t_accounts (srv_db (run_others s)) = t_accounts (srv_db s)"
    if "accounts_rely s" for s
    using that by (auto simp: rely_def run_others_sel same_world_def same_accounts_def)
  have "same_world s t \<and> (case r of Inl _ \<Rightarrow> paths_apart (t_accounts (srv_db t)) | Inr x \<Rightarrow> Q x (t_accounts (srv_db t)))"
    if s: "accounts_rely s" "P (t_accounts (srv_db s))" and run: "on_pool q s = (r, t)" for s r t
  proof -
    have "P (t_accounts (srv_db (run_others s)))" using world(2) [OF s(1)] s(2) by simp
    with run world(1) [OF s(1)] assms show ?thesis
    by (auto simp: on_pool_def in_tx_def Let_def same_world_def split: option.splits if_splits)
  qed
  then show ?thesis unfolding makes_def by blast
qed

section \<open>The operations\<close>

lemma makes_unique_path:
  "makes paths_apart (\<lambda>_ L. paths_apart L \<and> path_free p i L) (ensure_unique_path p i)"
  unfolding ensure_unique_path_def
proof (rule makes_bind)
  show "makes paths_apart (\<lambda>ps L. paths_apart L \<and> ps = map acc_storage_path (filter (except_account i) L))
     (on_pool (select (\<lambda>d. map acc_storage_path (filter (except_account i) (t_accounts d)))))"
    by (rule makes_on_pool) (auto simp: select_def)
  show "makes (\<lambda>L. paths_apart L \<and> ps = map acc_storage_path (filter (except_account i) L))
     (\<lambda>_ L. paths_apart L \<and> path_free p i L) (of_result (check_paths p ps))" for ps
    by (auto simp: makes_def of_result_def same_world_def path_free_def check_paths_Inr split: sum.splits)
qed

lemma insert_account_apart:
  assumes "paths_apart (t_accounts d)" "path_free (acc_storage_path a) None (t_accounts d)"
    and "insert_account a now d = Some (x, d')"
  shows "paths_apart (t_accounts d')"
  using assms overlap_sym
  by (auto simp: insert_account_def paths_apart_def path_free_def except_account_def split: if_splits)

lemma update_account_apart:
  assumes "paths_apart (t_accounts d)" "path_free p (Some i) (t_accounts d)"
    and "\<And>a. acc_id (f a) = acc_id a" "\<And>a. acc_storage_path (f a) = p" "update_account_row i f now d = Some (x, d')"
  shows "paths_apart (t_accounts d')"
  using assms overlap_sym
  by (auto simp: update_account_row_def update_rows_def paths_apart_def path_free_def except_account_def split: if_splits)

lemma steady_account_fs: "accounts_steady (on_fs m)"
  by (rule accts.obeys_on_fs) (simp add: obeys_def)

lemma steady_load_user: "accounts_steady (load_user i)"
  unfolding load_user_def load_users_def by (auto intro!: accts.server_rules)

lemma steady_unique_username: "accounts_steady (ensure_unique_username u i)"
  unfolding ensure_unique_username_def by (auto intro!: accts.server_rules)

lemmas accounts_rules = steady_account_fs steady_load_user steady_unique_username accts.server_rules

lemma insert_then_load:
  assumes "acc_storage_path a = p"
  shows "makes (\<lambda>L. paths_apart L \<and> path_free p None L) (\<lambda>_. paths_apart)
    (bindE (on_pool (insert_account a)) (\<lambda>_. load_user i))"
  by (rule makes_bind [OF makes_on_pool [where Q = "\<lambda>_. paths_apart"]])
     (use assms in \<open>auto intro: insert_account_apart makes_steady steady_load_user\<close>)

lemma update_then:
  assumes "\<And>a. acc_id (f a) = acc_id a" "\<And>a. acc_storage_path (f a) = p" "\<And>n. accounts_steady (g n)"
  shows "makes (\<lambda>L. paths_apart L \<and> path_free p (Some i) L) (\<lambda>_. paths_apart)
    (bindE (on_pool (update_account_row i f)) g)"
  by (rule makes_bind [OF makes_on_pool [where Q = "\<lambda>_. paths_apart"]])
     (use assms in \<open>auto intro: update_account_apart makes_steady\<close>)

lemma create_user_apart: "makes paths_apart (\<lambda>_. paths_apart) (create_user E S r)"
  unfolding create_user_def Let_def
  by (rule makes_after, blast intro: accounts_rules, assumption)+
     (rule makes_bind [OF makes_unique_path], (rule makes_after, blast intro: accounts_rules, blast)+,
      rule insert_then_load, simp)

lemma update_user_apart: "makes paths_apart (\<lambda>_. paths_apart) (update_user E i r)"
  unfolding update_user_def Let_def
  by (rule makes_after, blast intro: accounts_rules, assumption)+
     (rule makes_bind [OF makes_unique_path], (rule makes_after, blast intro: accounts_rules, blast)+,
      rule update_then, auto intro!: accounts_rules)

text \<open>A new password leaves the paths as they are.\<close>

lemma password_row_apart:
  assumes "paths_apart (t_accounts d)" "update_account_row i (\<lambda>a. a\<lparr>acc_password_hash := h\<rparr>) now d = Some (x, d')"
  shows "paths_apart (t_accounts d')"
  using assms by (auto simp: update_account_row_def update_rows_def paths_apart_def split: if_splits)

lemma reset_user_password_apart: "makes paths_apart (\<lambda>_. paths_apart) (reset_user_password S i r)"
  unfolding reset_user_password_def
  by (rule makes_after [OF accts.obeys_of_result], assumption, rule makes_after [OF accts.obeys_of_result], assumption,
      rule makes_bind [OF makes_on_pool [where Q = "\<lambda>_. paths_apart"]])
     (auto intro: password_row_apart makes_steady accts.obeys_bindE [OF accts.obeys_ensure] accts.obeys_ret)

text \<open>The routes of the administration that change accounts, and a session of them.\<close>

datatype admin_request =
    Create_User create_user_request
  | Update_User uuid update_user_request
  | Reset_Password uuid reset_password_request

fun admin_call :: "app \<Rightarrow> secrets \<Rightarrow> admin_request \<Rightarrow> unit srv" where
  "admin_call E S (Create_User r) = bindE (create_user E S r) (\<lambda>_. ret ())"
| "admin_call E S (Update_User i r) = bindE (update_user E i r) (\<lambda>_. ret ())"
| "admin_call E S (Reset_Password i r) = bindE (reset_user_password S i r) (\<lambda>_. ret ())"

fun admin_session :: "app \<Rightarrow> secrets \<Rightarrow> admin_request list \<Rightarrow> server \<Rightarrow> server" where
  "admin_session E S [] s = s"
| "admin_session E S (c # cs) s = admin_session E S cs (snd (admin_call E S c s))"

lemma admin_call_apart: "makes paths_apart (\<lambda>_. paths_apart) (admin_call E S c)"
  by (cases c)
     (auto intro!: makes_bind [OF create_user_apart] makes_bind [OF update_user_apart]
        makes_bind [OF reset_user_password_apart] makes_steady accts.obeys_ret)

lemma admin_session_apart:
  "accounts_rely s \<Longrightarrow> paths_apart (t_accounts (srv_db s)) \<Longrightarrow> paths_apart (t_accounts (srv_db (admin_session E S cs s)))"
proof (induction cs arbitrary: s)
  case (Cons c cs)
  obtain r t where t: "admin_call E S c s = (r, t)" by fastforce
  with admin_call_apart [of E S c] Cons.prems have "same_world s t \<and> paths_apart (t_accounts (srv_db t))"
    by (fastforce simp: makes_def split: sum.splits)
  with Cons t show ?case by (auto dest: rely_same_world)
qed simp

text \<open>
  C12. Tenants stay apart on the disk.  Any sequence of changes by the administration, each of which may fail
  anywhere, leaves any two accounts with directories of which neither contains the other, provided nobody else changes the accounts meanwhile: \<open>ensure_unique_path\<close> and
  the insert are separate statements.
\<close>

theorem accounts_stay_apart:
  assumes "paths_apart (t_accounts (srv_db s))"
    and "\<And>n d f. t_accounts (fst (srv_others s n (d, f))) = t_accounts d"
    and "a \<in> set (t_accounts (srv_db (admin_session E S cs s)))" "b \<in> set (t_accounts (srv_db (admin_session E S cs s)))"
    and "acc_id a \<noteq> acc_id b"
  shows "account_paths_overlap (acc_storage_path a) (acc_storage_path b) = Inr False"
proof -
  have "accounts_rely s" using assms(2) by (simp add: rely_def same_accounts_def)
  from admin_session_apart [OF this assms(1)] assms(3-5) show ?thesis by (auto simp: paths_apart_def)
qed

end
