(* ===== verification/Trash.thy ===== *)
theory Trash
  imports Library
begin

text \<open>
  The trash of the library: what may be deleted for good, and what is left of it afterwards.
\<close>

definition in_trash :: "uuid \<Rightarrow> uuid \<Rightarrow> tables \<Rightarrow> bool" where
  "in_trash account i d \<longleftrightarrow> (\<exists>a \<in> set (t_assets d). own_asset account i a \<and> ast_deleted_at a \<noteq> None)"

text \<open>
  No row of a table with a reference to assets refers to the asset.  The rows of the change feed and of the
  audit log, which name it without a reference, stay.
\<close>

definition asset_gone :: "uuid \<Rightarrow> tables \<Rightarrow> bool" where
  "asset_gone i d \<longleftrightarrow> (\<forall>a \<in> set (t_assets d). ast_id a \<noteq> i) \<and> (\<forall>r \<in> set (t_resources d). res_asset_id r \<noteq> i) \<and>
     (\<forall>u \<in> set (t_uploads d). upl_asset_id u \<noteq> i) \<and> (\<forall>m \<in> set (t_album_assets d). mem_asset_id m \<noteq> i) \<and>
     (\<forall>m \<in> set (t_tag_assets d). mem_asset_id m \<noteq> i)"

definition unique_assets :: "tables \<Rightarrow> bool" where
  "unique_assets d \<longleftrightarrow> distinct (map ast_id (t_assets d))"

interpretation gone: server_frame "asset_gone i" "\<lambda>_ _. True" "\<lambda>_ _. True" "{}" for i
  by unfold_locales simp_all

abbreviation gone_runs :: "uuid \<Rightarrow> server \<Rightarrow> server \<Rightarrow> bool" where
  "gone_runs i \<equiv> runs (asset_gone i) (\<lambda>_ _. True) (\<lambda>_ _. True) {}"

interpretation any: server_frame "\<lambda>_. True" "\<lambda>_ _. True" "\<lambda>_ _. True" "{}"
  by unfold_locales simp_all

lemma any_in_tx: "obeys (runs (\<lambda>_. True) (\<lambda>_ _. True) (\<lambda>_ _. True) {}) (in_tx q)"
  by (rule any.obeys_in_tx) simp

lemma trashed_blob_ids_trash: "trashed_blob_ids account i d \<noteq> [] \<Longrightarrow> in_trash account i d"
  by (auto simp: trashed_blob_ids_def in_trash_def list_ex_iff filter_empty_conv)

lemma delete_asset_row_gone:
  assumes "unique_assets d" "in_trash account i d" "delete_asset_row account i now d = Some (x, d')"
  shows "asset_gone i d'"
proof -
  from assms(2) obtain a where a: "a \<in> set (t_assets d)" "own_asset account i a" "ast_deleted_at a \<noteq> None"
    by (auto simp: in_trash_def)
  have only: "b = a" if "b \<in> set (t_assets d)" "ast_id b = i" for b
    using assms(1) a that by (auto simp: unique_assets_def own_asset_def distinct_map dest: inj_onD)
  have dead: "list_ex (\<lambda>b. ast_id b = i \<and> own_asset account i b \<and> ast_deleted_at b \<noteq> None) (t_assets d)"
    using a by (auto simp: list_ex_iff own_asset_def)
  show ?thesis
    using assms(3) only a dead by (auto simp: delete_asset_row_def Let_def asset_gone_def)
qed

lemma gone_reclaim: "obeys (gone_runs i) (reclaim_blobs bids rep)"
proof (induction bids arbitrary: rep)
  case (Cons bid bids)
  have delete: "obeys (gone_runs i) (in_tx (delete_orphan_blob bid))"
    by (rule gone.obeys_in_tx) (auto simp: delete_orphan_blob_def Let_def asset_gone_def)
  have remove: "obeys (gone_runs i) (on_fs m)" for m
    by (rule gone.obeys_on_fs) (simp add: obeys_def)
  have "obeys (gone_runs i) (reclaim_blob bid)"
    unfolding reclaim_blob_def by (intro gone.server_rules delete remove)
  then show ?case using Cons by (auto intro: gone.obeys_bindE)
qed (simp add: gone.obeys_ret)

lemma gone_reconcile: "obeys (gone_runs i) (reconcile_orphan_blobs f)"
  unfolding reconcile_orphan_blobs_def by (intro gone.server_rules gone_reclaim)

lemma delete_body:
  assumes "bindE (in_tx (select (trashed_blob_ids (ac_account_id auth) i))) (\<lambda>blob_ids.
        bindE (ensure (blob_ids \<noteq> []) (not_found ''trashed asset not found'')) (\<lambda>_.
        bindE (in_tx (delete_asset_row (ac_account_id auth) i)) (\<lambda>_.
        bindE (record_both auth ''asset'' i ''delete'' ''asset.delete'') (\<lambda>_.
        ret (Commit ()))))) s = (Inr e, t)"
    and "unique_assets (srv_db s)"
  shows "e = Commit () \<and> in_trash (ac_account_id auth) i (srv_db s) \<and> asset_gone i (srv_db t)"
proof -
  from assms(1) obtain x now d where e: "e = Commit ()" and trash: "in_trash (ac_account_id auth) i (srv_db s)"
    and row: "delete_asset_row (ac_account_id auth) i now (srv_db s) = Some (x, d)"
    and rest: "t_assets (srv_db t) = t_assets d" "t_resources (srv_db t) = t_resources d"
      "t_uploads (srv_db t) = t_uploads d" "t_album_assets (srv_db t) = t_album_assets d"
      "t_tag_assets (srv_db t) = t_tag_assets d"
    by (auto simp: bindE_Inr_iff in_tx_Inr select_def ensure_run ret_def record_both_def record_change_def
        record_in_transaction_def insert_change_def insert_audit_event_def split: if_splits dest!: trashed_blob_ids_trash)
  from delete_asset_row_gone [OF assms(2) trash row] rest e trash show ?thesis by (simp add: asset_gone_def)
qed

text \<open>
  C16. Deleting for good.  When \<open>delete_asset_permanently\<close> reports success the asset was in the trash of that
  account, and afterwards no asset, resource, upload, album or tag refers to it; the status is 204, or 202 if
  some object could not be reclaimed.  Whatever the other requests do, provided they do not bring it back.
\<close>

theorem deleted_for_good:
  assumes "delete_asset_permanently auth i s = (Inr st, t)"
    and "\<And>n d f. asset_gone i d \<Longrightarrow> asset_gone i (fst (srv_others s n (d, f)))"
    and "unique_assets (srv_db (run_others s))"
  shows "in_trash (ac_account_id auth) i (srv_db (run_others s)) \<and> asset_gone i (srv_db t) \<and> st \<in> {204, 202}"
proof -
  let ?body = "bindE (in_tx (select (trashed_blob_ids (ac_account_id auth) i))) (\<lambda>blob_ids.
        bindE (ensure (blob_ids \<noteq> []) (not_found ''trashed asset not found'')) (\<lambda>_.
        bindE (in_tx (delete_asset_row (ac_account_id auth) i)) (\<lambda>_.
        bindE (record_both auth ''asset'' i ''delete'' ''asset.delete'') (\<lambda>_.
        ret (Commit ())))))"
  from assms(1) obtain s1 r where tx: "transaction ?body s = (Inr (), s1)"
    and rec: "(attempt (reconcile_orphan_blobs (Some (ac_account_id auth))) ::
        (app_error + orphan_blob_reconcile_report) srv) s1 = (Inr r, t)" and st: "st \<in> {204, 202}"
    unfolding delete_asset_permanently_def bindE_Inr_iff
    by (elim exE conjE) (auto simp: ret_def split: sum.split_asm if_split_asm)
  have "obeys (runs (\<lambda>_. True) (\<lambda>_ _. True) (\<lambda>_ _. True) {}) (transaction ?body)"
    unfolding record_both_def record_change_def record_in_transaction_def
    by (intro any.server_rules any_in_tx)
  then have "runs (\<lambda>_. True) (\<lambda>_ _. True) (\<lambda>_ _. True) {} s s1" using tx by (rule obeysD)
  then have world: "same_world s s1" by (simp add: runs_def rely_def)
  have s: "rely (asset_gone i) (\<lambda>_ _. True) (\<lambda>_ _. True) {} s" using assms(2) by (simp add: rely_def)
  have "in_trash (ac_account_id auth) i (srv_db (run_others s)) \<and> asset_gone i (srv_db s1)"
    using tx
  proof (cases rule: transaction_Inr)
    case (commit u v)
    with delete_body [OF commit(2)] assms(3) show ?thesis by simp
  next
    case (rollback u v)
    with delete_body [OF rollback(2)] assms(3) show ?thesis by simp
  qed
  moreover have "runs (asset_gone i) (\<lambda>_ _. True) (\<lambda>_ _. True) {} s1 t"
    using gone.obeys_attempt [OF gone_reconcile] rec by (rule obeysD)
  ultimately show ?thesis using rely_same_world [OF world s] st by (simp add: runs_def)
qed

end
