(* ===== verification/Isolation.thy ===== *)
theory Isolation
  imports Accounts
begin

text \<open>
  Tenant isolation.  \<open>view b d\<close> is everything the tables hold for account \<open>b\<close>.  A request made for
  another account leaves it as it was, whatever statements fail, and whatever the other requests in
  between do to every other account.
\<close>

section \<open>The rows of an account\<close>

definition asset_ids :: "uuid \<Rightarrow> asset list \<Rightarrow> uuid set" where
  "asset_ids b xs = ast_id ` {x \<in> set xs. ast_account_id x = b}"

definition upload_ids :: "uuid \<Rightarrow> upload list \<Rightarrow> uuid set" where
  "upload_ids b xs = upl_id ` {x \<in> set xs. upl_account_id x = b}"

definition album_ids :: "uuid \<Rightarrow> album list \<Rightarrow> uuid set" where
  "album_ids b xs = alb_id ` {x \<in> set xs. alb_account_id x = b}"

definition tag_ids :: "uuid \<Rightarrow> tag list \<Rightarrow> uuid set" where
  "tag_ids b xs = tag_id ` {x \<in> set xs. tag_account_id x = b}"

definition blob_ids :: "uuid \<Rightarrow> blob list \<Rightarrow> uuid set" where
  "blob_ids b xs = blob_id ` {x \<in> set xs. blob_account_id x = b}"

lemmas id_defs = asset_ids_def upload_ids_def album_ids_def tag_ids_def blob_ids_def

definition view :: "uuid \<Rightarrow> tables \<Rightarrow> tables" where
  "view b d = \<lparr>t_accounts = filter (\<lambda>x. acc_id x = b) (t_accounts d),
     t_devices = filter (\<lambda>x. dev_account_id x = b) (t_devices d),
     t_assets = filter (\<lambda>x. ast_account_id x = b) (t_assets d),
     t_blobs = filter (\<lambda>x. blob_account_id x = b) (t_blobs d),
     t_resources = filter (\<lambda>x. res_asset_id x \<in> asset_ids b (t_assets d)) (t_resources d),
     t_uploads = filter (\<lambda>x. upl_account_id x = b) (t_uploads d),
     t_upload_parts = filter (\<lambda>x. upt_upload_id x \<in> upload_ids b (t_uploads d)) (t_upload_parts d),
     t_albums = filter (\<lambda>x. alb_account_id x = b) (t_albums d),
     t_album_assets = filter (\<lambda>x. mem_of x \<in> album_ids b (t_albums d)) (t_album_assets d),
     t_tags = filter (\<lambda>x. tag_account_id x = b) (t_tags d),
     t_tag_assets = filter (\<lambda>x. mem_of x \<in> tag_ids b (t_tags d)) (t_tag_assets d),
     t_account_changes = filter (\<lambda>x. chg_account_id x = b) (t_account_changes d), t_change_seq = 0,
     t_api_keys = filter (\<lambda>x. key_account_id x = b) (t_api_keys d),
     t_audit_events = filter (\<lambda>x. aud_account_id x = b) (t_audit_events d), t_audit_seq = 0\<rparr>"

text \<open>No other row has an id of the account, and what its rows refer to is its own.\<close>

definition separate :: "uuid \<Rightarrow> tables \<Rightarrow> bool" where
  "separate b d \<longleftrightarrow>
     (\<forall>x \<in> set (t_assets d). ast_id x \<in> asset_ids b (t_assets d) \<longrightarrow> ast_account_id x = b) \<and>
     (\<forall>x \<in> set (t_uploads d). upl_id x \<in> upload_ids b (t_uploads d) \<longrightarrow> upl_account_id x = b) \<and>
     (\<forall>x \<in> set (t_albums d). alb_id x \<in> album_ids b (t_albums d) \<longrightarrow> alb_account_id x = b) \<and>
     (\<forall>x \<in> set (t_tags d). tag_id x \<in> tag_ids b (t_tags d) \<longrightarrow> tag_account_id x = b) \<and>
     (\<forall>x \<in> set (t_blobs d). blob_id x \<in> blob_ids b (t_blobs d) \<longrightarrow> blob_account_id x = b) \<and>
     (\<forall>x \<in> set (t_uploads d). upl_account_id x = b \<longleftrightarrow> upl_asset_id x \<in> asset_ids b (t_assets d)) \<and>
     (\<forall>x \<in> set (t_album_assets d). mem_of x \<in> album_ids b (t_albums d) \<longrightarrow> mem_asset_id x \<in> asset_ids b (t_assets d)) \<and>
     (\<forall>x \<in> set (t_tag_assets d). mem_of x \<in> tag_ids b (t_tags d) \<longrightarrow> mem_asset_id x \<in> asset_ids b (t_assets d))"

text \<open>What one statement of another account must guarantee.\<close>

definition spares :: "uuid \<Rightarrow> tables \<Rightarrow> tables \<Rightarrow> bool" where
  "spares b d d' \<longleftrightarrow> (separate b d \<longrightarrow> view b d' = view b d \<and> separate b d')"

definition isolated :: "uuid \<Rightarrow> tables \<Rightarrow> tables \<Rightarrow> bool" where
  "isolated b V d \<longleftrightarrow> view b d = V \<and> separate b d"

lemma isolated_spares: "isolated b V d \<Longrightarrow> spares b d d' \<Longrightarrow> isolated b V d'"
  by (simp add: isolated_def spares_def)

text \<open>The ids of the account can be read off its view.\<close>

lemma isolated_ids:
  assumes "isolated b V d"
  shows "asset_ids b (t_assets d) = asset_ids b (t_assets V)" "upload_ids b (t_uploads d) = upload_ids b (t_uploads V)"
    "album_ids b (t_albums d) = album_ids b (t_albums V)" "tag_ids b (t_tags d) = tag_ids b (t_tags V)"
    "blob_ids b (t_blobs d) = blob_ids b (t_blobs V)"
  using assms by (auto simp: isolated_def view_def id_defs)

section \<open>Statements\<close>

lemmas spares_simps = spares_def view_def separate_def

lemma filter_map_miss:
  "(\<And>x. P x \<Longrightarrow> \<not> Q x) \<Longrightarrow> (\<And>x. P x \<Longrightarrow> \<not> Q (f x)) \<Longrightarrow>
    filter Q (map (\<lambda>x. if P x then f x else x) xs) = filter Q xs"
  by (induction xs) auto

lemma filter_filter_miss: "(\<And>x. x \<in> set xs \<Longrightarrow> Q x \<Longrightarrow> P x) \<Longrightarrow> filter Q (filter P xs) = filter Q xs"
  by (induction xs) auto

lemma asset_ids_simps:
  "ast_account_id x \<noteq> b \<Longrightarrow> asset_ids b (xs @ [x]) = asset_ids b xs"
  "(\<And>x. P x \<Longrightarrow> ast_account_id x \<noteq> b) \<Longrightarrow> (\<And>x. P x \<Longrightarrow> ast_account_id (f x) \<noteq> b) \<Longrightarrow>
    asset_ids b (map (\<lambda>x. if P x then f x else x) xs) = asset_ids b xs"
  by (force simp: asset_ids_def image_iff)+

lemma spares_log:
  "a \<noteq> b \<Longrightarrow> insert_change a k i op now d = Some (x, d') \<Longrightarrow> spares b d d'"
  "a \<noteq> b \<Longrightarrow> insert_audit_event a ak ai act ek ei now d = Some (x, d') \<Longrightarrow> spares b d d'"
  by (auto simp: insert_change_def insert_audit_event_def spares_simps split: if_splits)

lemma spares_map_assets:
  assumes "\<And>x. P x \<Longrightarrow> ast_account_id x \<noteq> b"
    "\<And>x. ast_id (f x) = ast_id x \<and> ast_account_id (f x) = ast_account_id x"
  shows "spares b d (d\<lparr>t_assets := map (\<lambda>x. if P x then f x else x) (t_assets d)\<rparr>)"
proof -
  have ids: "asset_ids b (map (\<lambda>x. if P x then f x else x) (t_assets d)) = asset_ids b (t_assets d)"
    using assms by (simp add: asset_ids_simps(2))
  have rows: "filter (\<lambda>x. ast_account_id x = b) (map (\<lambda>x. if P x then f x else x) (t_assets d)) =
      filter (\<lambda>x. ast_account_id x = b) (t_assets d)"
    using assms by (simp add: filter_map_miss)
  show ?thesis using assms(2) by (simp add: spares_simps ids rows) auto
qed

lemma spares_update_assets:
  assumes "update_assets P f d = Some (n, d')" "\<And>x. P x \<Longrightarrow> ast_account_id x \<noteq> b"
    "\<And>x. ast_id (f x) = ast_id x \<and> ast_account_id (f x) = ast_account_id x"
  shows "spares b d d'"
  using assms(1) spares_map_assets [of P b f d, OF assms(2,3)] by (simp add: update_assets_def update_rows_def)

lemma spares_append_asset:
  assumes "ast_account_id x \<noteq> b" "ast_id x \<notin> ast_id ` set (t_assets d)"
  shows "spares b d (d\<lparr>t_assets := t_assets d @ [x]\<rparr>)"
proof -
  have "ast_id x \<notin> asset_ids b (t_assets d)" using assms(2) by (auto simp: asset_ids_def)
  then show ?thesis using assms(1) by (simp add: spares_simps asset_ids_simps)
qed

lemma spares_upsert_asset:
  assumes "ac_account_id auth \<noteq> b" "upsert_asset_row E j auth r now d = Some (i, d')"
  shows "spares b d d' \<and> (separate b d \<longrightarrow> i \<notin> asset_ids b (t_assets d))"
proof (cases "find (same_source (ac_account_id auth) (ac_device_id auth) (cu_source_asset_id r)) (t_assets d)")
  case None
  with assms(2) have new: "j \<notin> ast_id ` set (t_assets d)" "i = j"
    by (auto simp: upsert_asset_row_def Let_def list_ex_iff split: if_splits)
  have "spares b d d'"
    using None assms new by (auto simp: upsert_asset_row_def Let_def intro!: spares_append_asset split: if_splits)
  with new show ?thesis by (auto simp: asset_ids_def)
next
  case (Some x)
  have x: "x \<in> set (t_assets d)" "ast_account_id x = ac_account_id auth"
    using find_SomeD [OF Some] by (simp_all add: same_source_def)
  have i: "i = ast_id x" using Some assms(2) by (simp add: upsert_asset_row_def Let_def)
  have d': "d' = d\<lparr>t_assets := map (\<lambda>b. if same_source (ac_account_id auth) (ac_device_id auth) (cu_source_asset_id r) b
      then b\<lparr>ast_media_kind := media_kind_str (cu_media_kind r),
             ast_source_created_at_ms := cu_source_created_at_ms r,
             ast_updated_at := now, ast_deleted_at := None\<rparr> else b) (t_assets d)\<rparr>"
    using Some assms(2) by (simp add: upsert_asset_row_def Let_def)
  have "spares b d d'"
    unfolding d' using assms(1) by (intro spares_map_assets) (simp_all add: same_source_def)
  with x i assms(1) show ?thesis by (auto simp: separate_def)
qed

lemma spares_resources:
  assumes "filter (\<lambda>x. res_asset_id x \<in> asset_ids b (t_assets d)) rows =
    filter (\<lambda>x. res_asset_id x \<in> asset_ids b (t_assets d)) (t_resources d)"
  shows "spares b d (d\<lparr>t_resources := rows\<rparr>)"
  using assms by (simp add: spares_simps)

lemma spares_upsert_resource:
  assumes "aid \<notin> asset_ids b (t_assets d)" "upsert_resource_row j aid bid rq now d = Some (x, d')"
  shows "spares b d d'"
proof (cases "find (\<lambda>r. res_asset_id r = aid \<and> res_source_resource_id r = cu_source_resource_id rq) (t_resources d)")
  case None
  with assms show ?thesis
    by (auto simp: upsert_resource_row_def intro!: spares_resources split: if_splits)
next
  case (Some r)
  with assms show ?thesis
    by (auto simp: upsert_resource_row_def intro!: spares_resources filter_map_miss split: if_splits)
qed

lemma spares_insert_upload:
  assumes "ac_account_id auth \<noteq> b" "aid \<notin> asset_ids b (t_assets d)"
    "insert_upload j auth aid r js now d = Some (i, d')"
  shows "spares b d d' \<and> i \<notin> upload_ids b (t_uploads d)"
proof -
  from assms(3) have d': "d' = d\<lparr>t_uploads := t_uploads d @ [new_upload_row j auth aid r js now]\<rparr>" and i: "i = j"
    and new: "find_upload d j = None"
    by (auto simp: insert_upload_def split: if_splits)
  from new have new: "j \<notin> upload_ids b (t_uploads d)"
    by (auto simp: find_upload_def find_None_iff upload_ids_def)
  have "upload_ids b (t_uploads d @ [new_upload_row j auth aid r js now]) = upload_ids b (t_uploads d)"
    using assms(1) by (auto simp: upload_ids_def new_upload_row_def)
  then show ?thesis using new assms(1,2) by (simp add: d' i spares_simps) (simp add: new_upload_row_def)
qed

lemma spares_parts:
  "i \<notin> upload_ids b (t_uploads d) \<Longrightarrow> insert_part i p now d = Some (x, d') \<Longrightarrow> spares b d d'"
  "i \<notin> upload_ids b (t_uploads d) \<Longrightarrow> receive_part_row i n now d = Some (y, d') \<Longrightarrow> spares b d d'"
  by (auto simp: insert_part_def receive_part_row_def update_rows_def new_part_row_def spares_simps
      intro!: filter_map_miss split: if_splits)

lemma spares_delete_asset:
  assumes "a \<noteq> b" "delete_asset_row a i now d = Some (x, d')"
  shows "spares b d d'"
proof -
  let ?gone = "\<lambda>a'. own_asset a i a' \<and> ast_deleted_at a' \<noteq> None"
  let ?dead = "\<lambda>j. list_ex (\<lambda>a'. ast_id a' = j \<and> ?gone a') (t_assets d)"
  let ?cut = "\<lambda>j. list_ex (\<lambda>u. upl_id u = j \<and> ?dead (upl_asset_id u)) (t_uploads d)"
  have d': "d' = d\<lparr>t_assets := filter (\<lambda>a. \<not> ?gone a) (t_assets d),
        t_resources := filter (\<lambda>r. \<not> ?dead (res_asset_id r)) (t_resources d),
        t_uploads := filter (\<lambda>u. \<not> ?dead (upl_asset_id u)) (t_uploads d),
        t_upload_parts := filter (\<lambda>p. \<not> ?cut (upt_upload_id p)) (t_upload_parts d),
        t_album_assets := filter (\<lambda>m. \<not> ?dead (mem_asset_id m)) (t_album_assets d),
        t_tag_assets := filter (\<lambda>m. \<not> ?dead (mem_asset_id m)) (t_tag_assets d)\<rparr>"
    using assms(2) by (simp add: delete_asset_row_def Let_def)
  have sel: "t_assets d' = filter (\<lambda>a. \<not> ?gone a) (t_assets d)"
    "t_resources d' = filter (\<lambda>r. \<not> ?dead (res_asset_id r)) (t_resources d)"
    "t_uploads d' = filter (\<lambda>u. \<not> ?dead (upl_asset_id u)) (t_uploads d)"
    "t_upload_parts d' = filter (\<lambda>p. \<not> ?cut (upt_upload_id p)) (t_upload_parts d)"
    "t_album_assets d' = filter (\<lambda>m. \<not> ?dead (mem_asset_id m)) (t_album_assets d)"
    "t_tag_assets d' = filter (\<lambda>m. \<not> ?dead (mem_asset_id m)) (t_tag_assets d)"
    by (simp_all add: d')
  show ?thesis
    unfolding spares_def
  proof
    assume sep: "separate b d"
    have gone: "?gone y \<Longrightarrow> ast_account_id y \<noteq> b" for y using assms(1) by (auto simp: own_asset_def)
    have dead: "\<not> ?dead j" if "j \<in> asset_ids b (t_assets d)" for j
      using sep that assms(1) by (auto simp: separate_def list_ex_iff own_asset_def)
    have up: "upl_asset_id u \<in> asset_ids b (t_assets d)" if "u \<in> set (t_uploads d)" "upl_account_id u = b" for u
      using sep that by (simp add: separate_def)
    have cut: "\<not> ?cut j" if "j \<in> upload_ids b (t_uploads d)" for j
    proof
      assume "?cut j"
      then obtain u where u: "u \<in> set (t_uploads d)" "upl_id u = j" "?dead (upl_asset_id u)"
        by (auto simp: list_ex_iff)
      then have "upl_account_id u = b" using sep that by (simp add: separate_def)
      with u dead up show False by blast
    qed
    have aids: "asset_ids b (filter (\<lambda>a. \<not> ?gone a) (t_assets d)) = asset_ids b (t_assets d)"
    proof -
      have "{x \<in> set (filter (\<lambda>a. \<not> ?gone a) (t_assets d)). ast_account_id x = b} =
          {x \<in> set (t_assets d). ast_account_id x = b}"
        using assms(1) by (auto simp: own_asset_def)
      then show ?thesis by (simp only: asset_ids_def)
    qed
    have uids: "upload_ids b (filter (\<lambda>u. \<not> ?dead (upl_asset_id u)) (t_uploads d)) = upload_ids b (t_uploads d)"
      using dead up by (auto simp: upload_ids_def)
    have "filter (\<lambda>x. ast_account_id x = b) (t_assets d') = filter (\<lambda>x. ast_account_id x = b) (t_assets d)"
      unfolding sel using assms(1) by (intro filter_filter_miss) (auto simp: own_asset_def)
    moreover have "filter (\<lambda>x. res_asset_id x \<in> asset_ids b (t_assets d)) (t_resources d') =
        filter (\<lambda>x. res_asset_id x \<in> asset_ids b (t_assets d)) (t_resources d)"
      unfolding sel using dead by (intro filter_filter_miss) auto
    moreover have "filter (\<lambda>x. upl_account_id x = b) (t_uploads d') = filter (\<lambda>x. upl_account_id x = b) (t_uploads d)"
      unfolding sel using dead up by (intro filter_filter_miss) auto
    moreover have "filter (\<lambda>x. upt_upload_id x \<in> upload_ids b (t_uploads d)) (t_upload_parts d') =
        filter (\<lambda>x. upt_upload_id x \<in> upload_ids b (t_uploads d)) (t_upload_parts d)"
      unfolding sel using cut by (intro filter_filter_miss) auto
    moreover have "filter (\<lambda>x. mem_of x \<in> album_ids b (t_albums d)) (t_album_assets d') =
        filter (\<lambda>x. mem_of x \<in> album_ids b (t_albums d)) (t_album_assets d)"
      unfolding sel using dead sep by (intro filter_filter_miss) (auto simp: separate_def)
    moreover have "filter (\<lambda>x. mem_of x \<in> tag_ids b (t_tags d)) (t_tag_assets d') =
        filter (\<lambda>x. mem_of x \<in> tag_ids b (t_tags d)) (t_tag_assets d)"
      unfolding sel using dead sep by (intro filter_filter_miss) (auto simp: separate_def)
    moreover have "asset_ids b (t_assets d') = asset_ids b (t_assets d)" "upload_ids b (t_uploads d') = upload_ids b (t_uploads d)"
      unfolding sel by (rule aids uids)+
    moreover have "t_albums d' = t_albums d" "t_tags d' = t_tags d" "t_blobs d' = t_blobs d"
      "t_accounts d' = t_accounts d" "t_devices d' = t_devices d" "t_account_changes d' = t_account_changes d"
      "t_api_keys d' = t_api_keys d" "t_audit_events d' = t_audit_events d" by (simp_all add: d')
    moreover have "set (t_assets d') \<subseteq> set (t_assets d)" "set (t_uploads d') \<subseteq> set (t_uploads d)"
      "set (t_album_assets d') \<subseteq> set (t_album_assets d)" "set (t_tag_assets d') \<subseteq> set (t_tag_assets d)"
      by (auto simp: d')
    ultimately show "view b d' = view b d \<and> separate b d'"
      using sep by (simp add: view_def separate_def) blast
  qed
qed

lemma spares_refl: "spares b d d"
  by (simp add: spares_def)

lemma spares_albums:
  assumes "filter (\<lambda>x. alb_account_id x = b) rows = filter (\<lambda>x. alb_account_id x = b) (t_albums d)"
    "\<And>x. separate b d \<Longrightarrow> x \<in> set rows \<Longrightarrow> alb_id x \<in> album_ids b (t_albums d) \<Longrightarrow> alb_account_id x = b"
  shows "spares b d (d\<lparr>t_albums := rows\<rparr>)"
proof -
  have "set (filter (\<lambda>x. alb_account_id x = b) rows) = set (filter (\<lambda>x. alb_account_id x = b) (t_albums d))"
    using assms(1) by simp
  then have ids: "album_ids b rows = album_ids b (t_albums d)" by (simp add: album_ids_def)
  have keep: "\<forall>x \<in> set rows. alb_id x \<in> album_ids b (t_albums d) \<longrightarrow> alb_account_id x = b" if "separate b d"
    using assms(2) [OF that] by blast
  show ?thesis unfolding spares_def
  proof
    assume sep: "separate b d"
    have "view b (d\<lparr>t_albums := rows\<rparr>) = view b d" using assms(1) by (simp add: view_def ids)
    moreover have "separate b (d\<lparr>t_albums := rows\<rparr>)"
      using sep keep [OF sep] by (simp add: separate_def ids)
    ultimately show "view b (d\<lparr>t_albums := rows\<rparr>) = view b d \<and> separate b (d\<lparr>t_albums := rows\<rparr>)" by blast
  qed
qed

lemma spares_upsert_album:
  assumes "ac_account_id auth \<noteq> b" "upsert_album_row j auth r now d = Some (i, d')"
  shows "spares b d d' \<and> (separate b d \<longrightarrow> i \<notin> album_ids b (t_albums d))"
proof (cases "find (same_album auth (sa_source_album_id r)) (t_albums d)")
  case None
  let ?x = "\<lparr>alb_id = j, alb_account_id = ac_account_id auth, alb_device_id = ac_device_id auth,
     alb_source_album_id = sa_source_album_id r, alb_name = sa_name r, alb_created_at = now, alb_updated_at = now\<rparr>"
  from None assms(2) have new: "j \<notin> alb_id ` set (t_albums d)" "i = j"
    and d': "d' = d\<lparr>t_albums := t_albums d @ [?x]\<rparr>"
    by (auto simp: upsert_album_row_def list_ex_iff split: if_splits)
  have j: "j \<notin> album_ids b (t_albums d)" using new by (auto simp: album_ids_def)
  have "spares b d d'" unfolding d'
  proof (rule spares_albums)
    show "filter (\<lambda>x. alb_account_id x = b) (t_albums d @ [?x]) = filter (\<lambda>x. alb_account_id x = b) (t_albums d)"
      using assms(1) by simp
    show "alb_account_id x = b" if "separate b d" "x \<in> set (t_albums d @ [?x])" "alb_id x \<in> album_ids b (t_albums d)" for x
      using that j by (auto simp: separate_def)
  qed
  with j new show ?thesis by simp
next
  case (Some x)
  have x: "x \<in> set (t_albums d)" "alb_account_id x = ac_account_id auth"
    using find_SomeD [OF Some] by (simp_all add: same_album_def)
  let ?f = "\<lambda>b. if same_album auth (sa_source_album_id r) b then b\<lparr>alb_name := sa_name r, alb_updated_at := now\<rparr> else b"
  have i: "i = alb_id x" and d': "d' = d\<lparr>t_albums := map ?f (t_albums d)\<rparr>"
    using Some assms(2) by (simp_all add: upsert_album_row_def)
  have "spares b d d'"
    unfolding d'
  proof (rule spares_albums)
    show "filter (\<lambda>x. alb_account_id x = b) (map ?f (t_albums d)) = filter (\<lambda>x. alb_account_id x = b) (t_albums d)"
      using assms(1) by (intro filter_map_miss) (auto simp: same_album_def)
    show "alb_account_id y = b" if sep: "separate b d" and y: "y \<in> set (map ?f (t_albums d))"
        "alb_id y \<in> album_ids b (t_albums d)" for y
    proof -
      obtain z where "z \<in> set (t_albums d)" "y = ?f z" using y(1) by auto
      moreover have "alb_id (?f z) = alb_id z" "alb_account_id (?f z) = alb_account_id z" by simp_all
      ultimately show ?thesis using sep y(2) by (simp add: separate_def)
    qed
  qed
  with x i assms(1) show ?thesis by (auto simp: separate_def)
qed

text \<open>Members of other albums and tags.\<close>

lemma spares_album_members:
  assumes "filter (\<lambda>x. mem_of x \<in> album_ids b (t_albums d)) rows =
    filter (\<lambda>x. mem_of x \<in> album_ids b (t_albums d)) (t_album_assets d)"
  shows "spares b d (d\<lparr>t_album_assets := rows\<rparr>)"
proof -
  have "x \<in> set (t_album_assets d)" if "x \<in> set rows" "mem_of x \<in> album_ids b (t_albums d)" for x
  proof -
    have "x \<in> set (filter (\<lambda>x. mem_of x \<in> album_ids b (t_albums d)) rows)" using that by simp
    then show ?thesis unfolding assms by simp
  qed
  with assms show ?thesis by (auto simp: spares_simps)
qed

lemma spares_tag_members:
  assumes "filter (\<lambda>x. mem_of x \<in> tag_ids b (t_tags d)) rows =
    filter (\<lambda>x. mem_of x \<in> tag_ids b (t_tags d)) (t_tag_assets d)"
  shows "spares b d (d\<lparr>t_tag_assets := rows\<rparr>)"
proof -
  have "x \<in> set (t_tag_assets d)" if "x \<in> set rows" "mem_of x \<in> tag_ids b (t_tags d)" for x
  proof -
    have "x \<in> set (filter (\<lambda>x. mem_of x \<in> tag_ids b (t_tags d)) rows)" using that by simp
    then show ?thesis unfolding assms by simp
  qed
  with assms show ?thesis by (auto simp: spares_simps)
qed

lemma spares_members:
  "i \<notin> album_ids b (t_albums d) \<Longrightarrow> clear_album i now d = Some (x, d') \<Longrightarrow> spares b d d'"
  "i \<notin> album_ids b (t_albums d) \<Longrightarrow> insert_album_asset i j now d = Some (x, d') \<Longrightarrow> spares b d d'"
  "i \<notin> tag_ids b (t_tags d) \<Longrightarrow> clear_tag i now d = Some (x, d') \<Longrightarrow> spares b d d'"
  "i \<notin> tag_ids b (t_tags d) \<Longrightarrow> insert_tag_asset i j now d = Some (x, d') \<Longrightarrow> spares b d d'"
  "i \<notin> tag_ids b (t_tags d) \<Longrightarrow> delete_tag_asset i j now d = Some (x, d') \<Longrightarrow> spares b d d'"
  by (auto simp: clear_album_def insert_album_asset_def clear_tag_def insert_tag_asset_def delete_tag_asset_def
      add_member_def intro!: spares_refl spares_album_members spares_tag_members filter_filter_miss split: if_splits)

lemma spares_insert_tag:
  assumes "a \<noteq> b" "insert_tag j a name now d = Some (x, d')"
  shows "spares b d d'"
proof -
  from assms(2) have new: "j \<notin> tag_id ` set (t_tags d)" and d': "d' = d\<lparr>t_tags := t_tags d @
      [\<lparr>tag_id = j, tag_account_id = a, tag_name = name, tag_created_at = now, tag_updated_at = now\<rparr>]\<rparr>"
    by (auto simp: insert_tag_def Let_def list_ex_iff split: if_splits)
  have "tag_ids b (t_tags d @ [\<lparr>tag_id = j, tag_account_id = a, tag_name = name, tag_created_at = now, tag_updated_at = now\<rparr>])
      = tag_ids b (t_tags d)" using assms(1) by (auto simp: tag_ids_def)
  moreover have "j \<notin> tag_ids b (t_tags d)" using new by (auto simp: tag_ids_def)
  ultimately show ?thesis using assms(1) by (simp add: d' spares_simps)
qed

lemma spares_keys:
  "key_account_id k \<noteq> b \<Longrightarrow> insert_api_key k now d = Some (x, d') \<Longrightarrow> spares b d d'"
  "a \<noteq> b \<Longrightarrow> revoke_key_row i a now d = Some (n, d') \<Longrightarrow> spares b d d'"
  by (auto simp: insert_api_key_def revoke_key_row_def update_keys_def update_rows_def spares_simps
      intro!: filter_map_miss split: if_splits)

lemma spares_delete_blob:
  "bid \<notin> blob_ids b (t_blobs d) \<Longrightarrow> delete_orphan_blob bid now d = Some (x, d') \<Longrightarrow> spares b d d'"
proof -
  assume bid: "bid \<notin> blob_ids b (t_blobs d)" and run: "delete_orphan_blob bid now d = Some (x, d')"
  let ?keep = "\<lambda>c. \<not> (blob_id c = bid \<and> is_orphan_blob d c)"
  have d': "d' = d\<lparr>t_blobs := filter ?keep (t_blobs d)\<rparr>" using run by (simp add: delete_orphan_blob_def Let_def)
  have rows: "filter (\<lambda>x. blob_account_id x = b) (filter ?keep (t_blobs d)) = filter (\<lambda>x. blob_account_id x = b) (t_blobs d)"
    using bid by (intro filter_filter_miss) (auto simp: blob_ids_def)
  have ids: "blob_ids b (filter ?keep (t_blobs d)) = blob_ids b (t_blobs d)"
    using bid by (auto simp: blob_ids_def)
  show "spares b d d'" using rows ids by (auto simp: d' spares_simps)
qed

section \<open>Requests\<close>

context server_frame
begin

text \<open>What a statement returns, and a list of statements.\<close>

lemma gives_statement:
  "(\<And>now d x d'. I d \<Longrightarrow> q now d = Some (x, d') \<Longrightarrow> Q x) \<Longrightarrow> gives I D F U Q (in_tx q)"
  by (auto simp: gives_def in_tx_Inr)

lemma gives_transaction:
  assumes "gives I D F U (\<lambda>e. case e of Commit x \<Rightarrow> Q x | Rollback x \<Rightarrow> Q x) body" "obeys (runs I D F U) body"
  shows "gives I D F U Q (transaction body)"
  unfolding gives_def
proof (intro allI impI)
  fix s :: server and x t
  assume ok: "rely I D F U s" "I (srv_db s)" and run: "transaction body s = (Inr x, t)"
  have start: "rely I D F U u \<and> I (srv_db u)" if "u = (run_others s)\<lparr>srv_tick := Suc (srv_tick s)\<rparr>" for u
    using ok that by (simp add: rely_def run_others_sel)
  from run show "Q x"
    by (cases rule: transaction_Inr) (use assms(1) start in \<open>auto simp: gives_def\<close>)
qed

end

interpretation iso: server_frame "isolated b V" "\<lambda>_ _. True" "\<lambda>_ _. True" "{}" for b V
  by unfold_locales simp_all

abbreviation iso_runs :: "uuid \<Rightarrow> tables \<Rightarrow> server \<Rightarrow> server \<Rightarrow> bool" where
  "iso_runs b V \<equiv> runs (isolated b V) (\<lambda>_ _. True) (\<lambda>_ _. True) {}"

abbreviation iso_gives :: "uuid \<Rightarrow> tables \<Rightarrow> ('a \<Rightarrow> bool) \<Rightarrow> 'a srv \<Rightarrow> bool" where
  "iso_gives b V \<equiv> gives (isolated b V) (\<lambda>_ _. True) (\<lambda>_ _. True) {}"

lemma iso_in_tx:
  "(\<And>now d x d'. isolated b V d \<Longrightarrow> q now d = Some (x, d') \<Longrightarrow> spares b d d') \<Longrightarrow> obeys (iso_runs b V) (in_tx q)"
  by (rule iso.obeys_in_tx) (blast intro: isolated_spares)

lemma iso_on_pool:
  "(\<And>now d x d'. isolated b V d \<Longrightarrow> q now d = Some (x, d') \<Longrightarrow> spares b d d') \<Longrightarrow> obeys (iso_runs b V) (on_pool q)"
  by (rule iso.obeys_on_pool) (blast intro: isolated_spares)

lemma iso_on_fs: "obeys (iso_runs b V) (on_fs m)"
  by (rule iso.obeys_on_fs) (simp add: obeys_def)

lemma isolated_separate: "isolated b V d \<Longrightarrow> separate b d"
  by (simp add: isolated_def)

text \<open>The log rows of a transaction.\<close>

lemma iso_log_tx:
  assumes "a \<noteq> b"
  shows "obeys (iso_runs b V) (in_tx (insert_change a k i op))"
    "obeys (iso_runs b V) (in_tx (insert_audit_event a ak ai act ek ei))"
  by (rule iso_in_tx, erule spares_log [OF assms])+

lemma iso_log:
  assumes "ac_account_id auth \<noteq> b"
  shows "obeys (iso_runs b V) (record_change (ac_account_id auth) k i op)"
    "obeys (iso_runs b V) (record_in_transaction auth act ek ei)"
    "obeys (iso_runs b V) (record_both auth k i op act)"
  unfolding record_both_def record_change_def record_in_transaction_def
  by (intro iso.obeys_rules iso_log_tx assms)+

lemmas iso_rules = iso.server_rules iso_on_fs iso_log

lemma iso_policy: "obeys (iso_runs b V) (account_policy_for_update a)"
  unfolding account_policy_for_update_def by (intro iso_rules)

lemma iso_quota: "obeys (iso_runs b V) (ensure_quota a q n)"
  unfolding ensure_quota_def by (intro iso_rules)

lemma iso_insert_parts: "i \<notin> upload_ids b (t_uploads V) \<Longrightarrow> obeys (iso_runs b V) (insert_parts i ps)"
  by (induction ps) (auto intro!: iso_rules iso_in_tx spares_parts(1) simp: isolated_ids)

lemma iso_upsert_asset:
  assumes "ac_account_id auth \<noteq> b"
  shows "obeys (iso_runs b V) (in_tx (upsert_asset_row E j auth r))"
    "iso_gives b V (\<lambda>i. i \<notin> asset_ids b (t_assets V)) (in_tx (upsert_asset_row E j auth r))"
  using spares_upsert_asset [OF assms]
  by (blast intro: iso_in_tx) (rule iso.gives_statement,
    metis spares_upsert_asset [OF assms] isolated_ids(1) isolated_separate)

lemma iso_insert_upload:
  assumes "ac_account_id auth \<noteq> b" "aid \<notin> asset_ids b (t_assets V)"
  shows "obeys (iso_runs b V) (in_tx (insert_upload j auth aid r js))"
    "iso_gives b V (\<lambda>i. i \<notin> upload_ids b (t_uploads V)) (in_tx (insert_upload j auth aid r js))"
proof -
  have one: "spares b d d' \<and> i \<notin> upload_ids b (t_uploads V)"
    if "isolated b V d" "insert_upload j auth aid r js now d = Some (i, d')" for now d i d'
    using spares_insert_upload [OF assms(1) _ that(2)] assms(2) isolated_ids [OF that(1)] by simp
  show "obeys (iso_runs b V) (in_tx (insert_upload j auth aid r js))"
    by (rule iso_in_tx) (use one in blast)
  show "iso_gives b V (\<lambda>i. i \<notin> upload_ids b (t_uploads V)) (in_tx (insert_upload j auth aid r js))"
    by (rule iso.gives_statement) (use one in blast)
qed

definition plan_ok :: "uuid \<Rightarrow> tables \<Rightarrow> account_policy_row \<times> upload_plan \<Rightarrow> bool" where
  "plan_ok b V p \<longleftrightarrow> (case snd p of Known_Blob aid _ \<Rightarrow> aid \<notin> asset_ids b (t_assets V) | _ \<Rightarrow> True)"

lemma iso_plan_upload:
  assumes "ac_account_id auth \<noteq> b"
  shows "obeys (iso_runs b V) (plan_upload E auth r)"
  unfolding plan_upload_def
  by (intro iso.obeys_bindE [OF iso_policy] iso.obeys_bindE [OF iso.obeys_fresh_uuid]
      iso.obeys_bind_gives [OF iso_upsert_asset [OF assms]] iso.obeys_bindE [OF iso.obeys_select(2)]
      iso.obeys_case_option iso.obeys_ret iso.obeys_bindE [OF iso.obeys_of_result] iso.obeys_bindE [OF iso_quota]
      iso.obeys_bind_gives [OF iso_insert_upload(1) [OF assms] iso_insert_upload(2) [OF assms]] iso.obeys_bindE [OF iso_insert_parts]) assumption

lemma iso_plan_gives:
  assumes "ac_account_id auth \<noteq> b"
  shows "iso_gives b V (plan_ok b V) (transaction (plan_upload E auth r))"
proof (rule iso.gives_transaction [OF _ iso_plan_upload [OF assms]])
  let ?Q = "\<lambda>e. case e of Commit x \<Rightarrow> plan_ok b V x | Rollback x \<Rightarrow> plan_ok b V x"
  show "iso_gives b V ?Q (plan_upload E auth r)"
    unfolding plan_upload_def
    apply (rule iso.gives_bind [OF iso_policy iso.gives_any])
    apply (rule iso.gives_bind [OF iso.obeys_fresh_uuid iso.gives_any])
    apply (rule iso.gives_bind [OF iso_upsert_asset [OF assms]])
    apply (auto simp: gives_def bindE_Inr_iff ret_def plan_ok_def split: option.splits)
    done
qed

text \<open>The rest of an upload request.\<close>

lemma iso_upsert_resource:
  assumes "aid \<notin> asset_ids b (t_assets V)"
  shows "obeys (iso_runs b V) (upsert_resource aid bid r)"
  unfolding upsert_resource_def
  by (intro iso.obeys_bindE [OF iso.obeys_fresh_uuid] iso_in_tx, rule spares_upsert_resource)
     (use assms isolated_ids(1) in auto)

lemma iso_deduplicate:
  assumes "ac_account_id auth \<noteq> b" "aid \<notin> asset_ids b (t_assets V)"
  shows "obeys (iso_runs b V) (deduplicate E auth r policy aid c)"
  unfolding deduplicate_def
  by (intro iso_rules iso.obeys_bindE [OF iso_upsert_resource [OF assms(2)]] assms(1))

lemma iso_missing: "obeys (iso_runs b V) (missing_parts i)"
  unfolding missing_parts_def by (rule iso.obeys_select)

lemma iso_create_upload:
  assumes "ac_account_id auth \<noteq> b"
  shows "obeys (iso_runs b V) (create_upload E auth r)"
  unfolding create_upload_def
proof (rule iso.obeys_bindE [OF iso.obeys_of_result],
    rule iso.obeys_bind_gives [OF iso.obeys_transaction [OF iso_plan_upload [OF assms]] iso_plan_gives [OF assms]])
  fix p
  assume "plan_ok b V p"
  then show "obeys (iso_runs b V) (case p of (policy, plan) \<Rightarrow> (case plan of
       Known_Blob asset_id b \<Rightarrow> bindE (deduplicate E auth r policy asset_id b) (\<lambda>resource_id.
         ret \<lparr>cr_disposition = Complete, cr_upload_id = None, cr_resource_id = Some resource_id, cr_missing_parts = []\<rparr>)
     | Open_Upload i \<Rightarrow> bindE (missing_parts i) (\<lambda>missing.
         ret \<lparr>cr_disposition = Upload, cr_upload_id = Some i, cr_resource_id = None, cr_missing_parts = missing\<rparr>)
     | New_Upload i \<Rightarrow> ret \<lparr>cr_disposition = Upload, cr_upload_id = Some i, cr_resource_id = None,
              cr_missing_parts = map part_index (cu_parts r)\<rparr>))"
    by (cases p; cases "snd p")
       (auto simp: plan_ok_def intro!: iso.obeys_bindE [OF iso_deduplicate] iso.obeys_bindE [OF iso_missing]
         iso.obeys_ret assms)
qed

lemma iso_put_upload_part:
  assumes "ac_account_id auth \<noteq> b"
  shows "obeys (iso_runs b V) (put_upload_part E auth i n body admission)"
proof -
  let ?Q = "\<lambda>row. row \<noteq> None \<longrightarrow> i \<notin> upload_ids b (t_uploads V)"
  have own: "iso_gives b V ?Q (on_pool (select (part_row i n (ac_account_id auth))))"
  proof (rule iso.gives_on_pool)
    fix d assume d: "isolated b V d"
    have "upl_id u \<notin> upload_ids b (t_uploads d)"
      if "find_upload d (upl_id u) = Some u" "upl_account_id u = ac_account_id auth" for u
      using that assms isolated_separate [OF d]
      by (auto simp: find_upload_def separate_def dest!: find_SomeD)
    then show "?Q (part_row i n (ac_account_id auth) d)"
      by (auto simp: part_row_def isolated_ids [OF d] find_upload_def split: option.splits if_splits dest: find_SomeD)
  qed
  show ?thesis
    unfolding put_upload_part_def
  proof (rule iso.obeys_bind_gives [OF iso.obeys_select(1) own])
    fix row :: "(upload_part \<times> upload) option"
    assume q: "?Q row"
    show "obeys (iso_runs b V) (bindE (of_result (ok_or (not_found ''upload part not found'') row)) (\<lambda>(p, u).
     if upl_commit_state u = ''committed'' then ret 204
     else
     bindE (ensure (upl_commit_state u = ''receiving'')
       (conflict ''upload parts are frozen after commit starts'')) (\<lambda>_.
     bindE (of_result (admission_result admission)) (\<lambda>_.
     bindE fresh_uuid (\<lambda>request_id.
     bindE (on_fs (put_part (app_externals E) request_id i
         \<lparr>part_index = n, part_size = word_of_int (upt_expected_size p),
          part_blake3 = upt_expected_blake3 p\<rparr> body (app_max_part_bytes E))) (\<lambda>_.
     bindE (on_pool (receive_part_row i n)) (\<lambda>_. ret 204)))))))"
    proof (cases row)
      case (Some pu)
      have "obeys (iso_runs b V) (on_pool (receive_part_row i n))"
        by (rule iso_on_pool, rule spares_parts(2)) (use q Some isolated_ids(2) in auto)
      with Some show ?thesis by (auto simp: bindE_of_result intro!: iso_rules)
    qed (auto simp: bindE_of_result intro!: iso_rules)
  qed
qed

section \<open>The library\<close>

lemma iso_reads:
  "obeys (iso_runs b V) (load_asset_summary E a i)"
  unfolding load_asset_summary_def by (intro iso_rules)

lemma iso_update_assets:
  assumes "a \<noteq> b"
  shows "obeys (iso_runs b V) (in_tx (flags_row a i r))" "obeys (iso_runs b V) (in_tx (trash_row a i tr))"
    "obeys (iso_runs b V) (in_tx (delete_asset_row a i))"
  unfolding flags_row_def trash_row_def
  by (rule iso_in_tx, erule spares_update_assets, use assms in \<open>auto simp: own_asset_def\<close>)+
     (rule iso_in_tx, erule spares_delete_asset [OF assms])

lemma iso_update_asset:
  assumes "ac_account_id auth \<noteq> b"
  shows "obeys (iso_runs b V) (update_asset E auth i r)" "obeys (iso_runs b V) (set_trashed auth i tr)"
    "obeys (iso_runs b V) (trash_asset auth i)" "obeys (iso_runs b V) (restore_asset auth i)"
  unfolding update_asset_def trash_asset_def restore_asset_def set_trashed_def
  by (intro iso_rules iso_reads iso_update_assets assms)+

lemma iso_reclaim_blob:
  "bid \<notin> blob_ids b (t_blobs V) \<Longrightarrow> obeys (iso_runs b V) (reclaim_blob bid)"
  unfolding reclaim_blob_def
  by (intro iso_rules, rule iso_in_tx, erule spares_delete_blob [rotated]) (auto simp: isolated_ids intro!: iso_rules)

lemma iso_reclaim_blobs:
  "set bids \<inter> blob_ids b (t_blobs V) = {} \<Longrightarrow> obeys (iso_runs b V) (reclaim_blobs bids rep)"
  by (induction bids arbitrary: rep) (auto intro!: iso_rules iso_reclaim_blob)

lemma iso_reconcile_orphan_blobs:
  assumes "a \<noteq> b"
  shows "obeys (iso_runs b V) (reconcile_orphan_blobs (Some a))"
  unfolding reconcile_orphan_blobs_def
proof (rule iso.obeys_bind_gives [OF iso.obeys_select(1) iso.gives_on_pool])
  fix d assume d: "isolated b V d"
  show "set (orphan_blob_ids (Some a) d) \<inter> blob_ids b (t_blobs V) = {}"
    using isolated_separate [OF d] assms
    by (auto simp: orphan_blob_ids_def separate_def isolated_ids [OF d, symmetric])
qed (rule iso_reclaim_blobs)

lemma iso_delete_asset:
  assumes "ac_account_id auth \<noteq> b"
  shows "obeys (iso_runs b V) (delete_asset_permanently auth i)"
  unfolding delete_asset_permanently_def
  by (intro iso_rules iso_update_assets iso_reconcile_orphan_blobs assms)

lemma iso_upsert_album:
  assumes "ac_account_id auth \<noteq> b"
  shows "obeys (iso_runs b V) (in_tx (upsert_album_row j auth r))"
    "iso_gives b V (\<lambda>i. i \<notin> album_ids b (t_albums V)) (in_tx (upsert_album_row j auth r))"
proof -
  have one: "spares b d d' \<and> i \<notin> album_ids b (t_albums V)"
    if "isolated b V d" "upsert_album_row j auth r now d = Some (i, d')" for now d i d'
    using spares_upsert_album [OF assms that(2)] isolated_separate [OF that(1)] isolated_ids [OF that(1)] by simp
  show "obeys (iso_runs b V) (in_tx (upsert_album_row j auth r))"
    by (rule iso_in_tx) (use one in blast)
  show "iso_gives b V (\<lambda>i. i \<notin> album_ids b (t_albums V)) (in_tx (upsert_album_row j auth r))"
    by (rule iso.gives_statement) (use one in blast)
qed

lemma iso_album_members:
  assumes "i \<notin> album_ids b (t_albums V)"
  shows "obeys (iso_runs b V) (in_tx (clear_album i))" "obeys (iso_runs b V) (in_tx (insert_album_asset i j))"
  by (rule iso_in_tx, erule spares_members(1,2) [rotated], use assms isolated_ids(3) in auto)+

lemma iso_add_album_assets:
  "i \<notin> album_ids b (t_albums V) \<Longrightarrow> obeys (iso_runs b V) (add_album_assets auth i srcs)"
  by (induction srcs) (auto intro!: iso_rules iso_album_members)

lemma iso_sync_album:
  assumes "ac_account_id auth \<noteq> b"
  shows "obeys (iso_runs b V) (sync_album auth r)"
  unfolding sync_album_def
  by (intro iso.obeys_bindE [OF iso.obeys_of_result] iso.obeys_bindE [OF iso.obeys_ensure]
      iso.obeys_bindE [OF iso.obeys_transaction] iso.obeys_bindE [OF iso.obeys_fresh_uuid]
      iso.obeys_bind_gives [OF iso_upsert_album [OF assms]] iso.obeys_bindE iso.obeys_if
      iso_album_members iso_add_album_assets iso_log [OF assms] iso.obeys_ret iso.obeys_select)

lemma iso_tag_members:
  assumes "i \<notin> tag_ids b (t_tags V)"
  shows "obeys (iso_runs b V) (in_tx (clear_tag i))" "obeys (iso_runs b V) (in_tx (insert_tag_asset i j))"
    "obeys (iso_runs b V) (in_tx (delete_tag_asset i j))"
  by (rule iso_in_tx, erule spares_members(3-5) [rotated], use assms isolated_ids(4) in auto)+

lemma iso_add_tag_assets:
  "i \<notin> tag_ids b (t_tags V) \<Longrightarrow> obeys (iso_runs b V) (add_tag_assets a i ids)"
  by (induction ids) (auto intro!: iso_rules iso_tag_members)

lemma iso_create_tag:
  assumes "ac_account_id auth \<noteq> b"
  shows "obeys (iso_runs b V) (create_tag auth r)"
  unfolding create_tag_def
  by (intro iso_rules iso_log assms, rule iso_in_tx, erule spares_insert_tag [OF assms])

text \<open>A tag the caller owns is not a tag of the account.\<close>

lemma own_tag_other:
  "isolated b V d \<Longrightarrow> a \<noteq> b \<Longrightarrow> own_tag a i d \<Longrightarrow> i \<notin> tag_ids b (t_tags V)"
  by (auto simp: isolated_ids(4) [symmetric] own_tag_def list_ex_iff dest!: isolated_separate)
     (auto simp: separate_def)

lemma iso_set_tag_assets:
  assumes "ac_account_id auth \<noteq> b"
  shows "obeys (iso_runs b V) (set_tag_assets auth i r)"
proof -
  have "obeys (iso_runs b V) (bindE (in_tx (select (own_tag (ac_account_id auth) i))) (\<lambda>exists.
        bindE (ensure exists (not_found ''tag not found'')) (\<lambda>_.
        bindE (in_tx (clear_tag i)) (\<lambda>_.
        bindE (add_tag_assets (ac_account_id auth) i (st_asset_ids r)) (\<lambda>_.
        bindE (record_both auth ''tag'' i ''upsert'' ''tag.assets.set'') (\<lambda>_.
        ret (Commit ())))))))"
  proof (rule iso.obeys_bind_gives [OF iso.obeys_select(2) iso.gives_in_tx])
    fix x :: bool assume q: "x \<longrightarrow> i \<notin> tag_ids b (t_tags V)"
    show "obeys (iso_runs b V) (bindE (ensure x (not_found ''tag not found'')) (\<lambda>_.
        bindE (in_tx (clear_tag i)) (\<lambda>_.
        bindE (add_tag_assets (ac_account_id auth) i (st_asset_ids r)) (\<lambda>_.
        bindE (record_both auth ''tag'' i ''upsert'' ''tag.assets.set'') (\<lambda>_. ret (Commit ()))))))"
    proof (cases x)
      case True
      with q have i: "i \<notin> tag_ids b (t_tags V)" by simp
      show ?thesis by (intro iso_rules iso_tag_members iso_add_tag_assets assms i)
    next
      case False
      then show ?thesis by (simp add: ensure_def bindE_fail iso.obeys_fail)
    qed
  qed (use own_tag_other assms in blast)
  then show ?thesis
    unfolding set_tag_assets_def
    by (intro iso.obeys_bindE [OF iso.obeys_ensure] iso.obeys_bindE [OF iso.obeys_transaction] iso.obeys_ret)
qed

lemma iso_change_tag_asset:
  assumes "ac_account_id auth \<noteq> b"
  shows "obeys (iso_runs b V) (change_tag_asset auth i j add)"
proof -
  have "obeys (iso_runs b V) (bindE (in_tx (select (\<lambda>d. own_tag (ac_account_id auth) i d \<and> owns_asset (ac_account_id auth) j d))) (\<lambda>valid.
      bindE (ensure valid (not_found ''tag or asset not found'')) (\<lambda>_.
      bindE (in_tx (if add then insert_tag_asset i j else delete_tag_asset i j)) (\<lambda>_.
      bindE (record_both auth ''asset'' j ''upsert''
        (if add then ''tag.asset.add'' else ''tag.asset.remove'')) (\<lambda>_.
      ret (Commit ()))))))"
  proof (rule iso.obeys_bind_gives [OF iso.obeys_select(2) iso.gives_in_tx])
    fix x :: bool assume q: "x \<longrightarrow> i \<notin> tag_ids b (t_tags V)"
    show "obeys (iso_runs b V) (bindE (ensure x (not_found ''tag or asset not found'')) (\<lambda>_.
      bindE (in_tx (if add then insert_tag_asset i j else delete_tag_asset i j)) (\<lambda>_.
      bindE (record_both auth ''asset'' j ''upsert''
        (if add then ''tag.asset.add'' else ''tag.asset.remove'')) (\<lambda>_. ret (Commit ())))))"
    proof (cases x)
      case True
      with q have i: "i \<notin> tag_ids b (t_tags V)" by simp
      show ?thesis by (cases add; simp only: if_True if_False; intro iso_rules iso_tag_members assms i)
    next
      case False
      then show ?thesis by (simp add: ensure_def bindE_fail iso.obeys_fail)
    qed
  qed (use own_tag_other assms in blast)
  then show ?thesis unfolding change_tag_asset_def by (rule iso.obeys_transaction)
qed

lemma iso_keys:
  assumes "ac_account_id auth \<noteq> b"
  shows "obeys (iso_runs b V) (create_api_key S random auth r)" "obeys (iso_runs b V) (revoke_api_key auth i)"
  unfolding create_api_key_def revoke_api_key_def
  by (intro iso_rules assms, rule iso_in_tx, erule spares_keys(1) [rotated], simp add: assms)
     (intro iso_rules assms, rule iso_in_tx, erule spares_keys(2) [OF assms])

end
