(* ===== verification/Commit_Examples.thy ===== *)
theory Commit_Examples
  imports Upload_Commit_Correct
begin

text \<open>
  A small server on which the theorems about the upload commit are applied: one account with one asset,
  an upload of three bytes and a table of the hashes of that content.
\<close>

definition example_externals :: externals where
  "example_externals = \<lparr>blake3_hex = (\<lambda>bs. if bs = [1, 2, 3] then ''h'' else ''other''),
     uuid_str = (\<lambda>u. ''u''), uuid_parse = (\<lambda>s. None)\<rparr>"
definition sample_blob :: string where
  "sample_blob = ''a/x''"
definition example_hash :: string where
  "example_hash = ''h''"

definition example_request :: create_upload_request where
  "example_request = \<lparr>cu_source_asset_id = ''s'', cu_source_resource_id = ''r'', cu_media_kind = Photo,
     cu_role = ''primary'', cu_filename = ''f'', cu_mime_type = ''m'', cu_source_created_at_ms = 0,
     cu_storage_encoding = PlainV1, cu_content_size = 3, cu_content_blake3 = example_hash,
     cu_metadata = None, cu_parts = [\<lparr>part_index = 0, part_size = 3, part_blake3 = example_hash\<rparr>]\<rparr>"

definition example_app :: app where
  "example_app = \<lparr>app_externals = example_externals, app_request_to_value = (\<lambda>_. Json_Text []),
     app_request_from_value = (\<lambda>_. Inr example_request), app_parts_to_value = (\<lambda>_. Json_Text []),
     app_parts_from_value = (\<lambda>_. Inr (cu_parts example_request)), app_value_len = (\<lambda>_. None),
     app_value_favorite = (\<lambda>_. None), app_max_part_bytes = 100\<rparr>"

definition example_account :: account where
  "example_account = \<lparr>acc_id = 1, acc_created_at = 0, acc_display_name = [], acc_storage_path = ''a'',
     acc_quota_bytes = 100, acc_enabled = True, acc_username = ''u'', acc_password_hash = None\<rparr>"

definition example_asset :: asset where
  "example_asset = \<lparr>ast_id = 5, ast_account_id = 1, ast_device_id = 2, ast_source_asset_id = ''s'',
     ast_media_kind = ''photo'', ast_source_created_at_ms = 0, ast_favorite = False, ast_archived = False,
     ast_deleted_at = None, ast_created_at = 0, ast_updated_at = 0\<rparr>"

definition example_blob :: blob where
  "example_blob = \<lparr>blob_id = 6, blob_account_id = 1, blob_plaintext_size = 3, blob_stored_size = 3,
     blob_storage_path = sample_blob, blob_part_manifest = Json_Text [],
     blob_content_blake3 = example_hash, blob_storage_encoding = ''plain-v1'', blob_created_at = 0\<rparr>"

definition example_upload :: "string \<Rightarrow> upload" where
  "example_upload st = \<lparr>upl_id = 7, upl_account_id = 1, upl_device_id = 2, upl_asset_id = 5,
     upl_source_resource_id = ''r'', upl_content_blake3 = example_hash,
     upl_request = Json_Text [], upl_state = ''uploading'', upl_error = None, upl_created_at = 0,
     upl_updated_at = 0, upl_completed_at = None, upl_commit_state = st,
     upl_commit_staged_key = None, upl_commit_final_key = Some sample_blob,
     upl_commit_account_path = Some ''a'', upl_commit_expected_size = Some 3,
     upl_commit_expected_blake3 = Some example_hash, upl_commit_blob_id = Some 6,
     upl_commit_resource_id = None, upl_commit_deduplicated = False, upl_commit_error = None,
     upl_commit_started_at = None, upl_finalized_at = None\<rparr>"

definition example_part :: upload_part where
  "example_part = \<lparr>upt_upload_id = 7, upt_part_index = 0, upt_expected_size = 3,
     upt_expected_blake3 = example_hash, upt_received_size = Some 3, upt_received_at = Some 0\<rparr>"

definition example_tables :: "blob list \<Rightarrow> upload list \<Rightarrow> tables" where
  "example_tables blobs uploads = \<lparr>t_accounts = [example_account], t_devices = [], t_assets = [example_asset],
     t_blobs = blobs, t_resources = [], t_uploads = uploads, t_upload_parts = [example_part], t_albums = [],
     t_album_assets = [], t_tags = [], t_tag_assets = [], t_account_changes = [], t_change_seq = 0,
     t_api_keys = [], t_audit_events = [], t_audit_seq = 0\<rparr>"

definition example_fs :: fs where
  "example_fs = \<lparr>fs_nodes = [([''uploads''], Dir), ([''a''], Dir), ([''a'', ''x''], Reg 0)],
     fs_data = (\<lambda>_. [])(0 := [1, 2, 3]), fs_next = 1, fs_tick = 0, fs_fault = (\<lambda>_. False), fs_chunk = (\<lambda>_. 2)\<rparr>"

definition example_server :: "tables \<Rightarrow> fs \<Rightarrow> server" where
  "example_server d f = \<lparr>srv_db = d, srv_fs = f, srv_tick = 0, srv_drawn = 0, srv_fault = (\<lambda>_. False),
     srv_clock = (\<lambda>n. n), srv_uuids = (\<lambda>n. word_of_nat (n + 100)), srv_others = (\<lambda>_ w. w)\<rparr>"

definition finalizing_server :: server where
  "finalizing_server = example_server (example_tables [example_blob] [example_upload ''finalizing'']) example_fs"

lemma finalizing_run:
  "map_sum (\<lambda>_. ()) out_resource_id (fst (complete_inner example_app 7 (Some 1) None finalizing_server)) = Inr 100"
  by code_simp

lemma example_rely: "rely I (same_upload i) (keeps_objects X) {} (example_server d f)"
  by (auto simp: rely_def example_server_def same_upload_def keeps_objects_def split: option.splits)

lemma example_locked: "locked i (example_server d f)"
  by (auto simp: locked_def example_server_def same_state_def split: option.splits)

lemma example_clear: "\<not> stage_path (key_names sample_blob)"
  by code_simp

lemma example_commit_tables: "commit_tables (example_tables [example_blob] [example_upload st])"
  using example_clear
  by (simp add: commit_tables_def example_tables_def example_blob_def example_upload_def)

lemma example_fs_wf: "fs_wf example_fs"
  by (simp add: fs_wf_def example_fs_def)

theorem complete_backed_up_witness:
  "\<exists>t. backed_up example_app t 1 5 example_request 100"
proof -
  obtain v t where pair: "complete_inner example_app 7 (Some 1) None finalizing_server = (v, t)"
    by fastforce
  with finalizing_run have "map_sum (\<lambda>_. ()) out_resource_id v = Inr 100" by simp
  then obtain out where v: "v = Inr out" and rid: "out_resource_id out = 100" by (cases v) auto
  have db: "srv_db finalizing_server = example_tables [example_blob] [example_upload ''finalizing'']"
    and f: "srv_fs finalizing_server = example_fs"
    by (simp_all add: finalizing_server_def example_server_def)
  have u: "find_upload (srv_db finalizing_server) 7 = Some (example_upload ''finalizing'')"
    by (simp add: db find_upload_def example_tables_def example_upload_def)
  have "\<exists>u request. find_upload (srv_db finalizing_server) 7 = Some u \<and>
      app_request_from_value example_app (upl_request u) = Inr request \<and> out_asset_id out = upl_asset_id u \<and>
      backed_up example_app t (upl_account_id u) (upl_asset_id u) request (out_resource_id out)"
  proof (rule complete_backed_up)
    show "complete_inner example_app 7 (Some 1) None finalizing_server = (Inr out, t)" using pair v by simp
    show "commit_rely example_app 7 finalizing_server" by (simp add: finalizing_server_def example_rely)
    show "locked 7 finalizing_server" by (simp add: finalizing_server_def example_locked)
    show "commit_tables (srv_db finalizing_server)" by (simp add: db example_commit_tables)
    show "fs_wf (srv_fs finalizing_server)" by (simp add: f example_fs_wf)
  qed
  then show ?thesis using rid by (auto simp: u example_upload_def example_app_def)
qed

end
