(* ===== verification/Upload_Routes_Correct.thy ===== *)
theory Upload_Routes_Correct
  imports Upload_Routes
begin

text \<open>
  What the upload handlers guarantee: which requests are accepted, and that an accepted upload fits the
  quota of its account.
\<close>

section \<open>Requests\<close>

lemma sum_sizes_Some:
  "sum_sizes a ps = Some t \<longleftrightarrow> unat t = unat a + sum_list (map (unat \<circ> part_size) ps) \<and>
     unat a + sum_list (map (unat \<circ> part_size) ps) \<le> u64_max"
proof (induction ps arbitrary: a)
  case Nil
  then show ?case using unat_le_u64_max [of a] by (auto simp: word_unat_eq_iff)
next
  case (Cons p ps)
  show ?case
  proof (cases "checked_add_u64 a (part_size p)")
    case None
    then have "u64_max < unat a + unat (part_size p)" by (simp add: checked_add_u64_None)
    with None show ?thesis by simp
  next
    case (Some b)
    then have "unat b = unat a + unat (part_size p)" by (simp add: checked_add_u64_Some)
    with Some Cons.IH show ?thesis by (simp add: add.assoc)
  qed
qed

lemma check_parts_iff:
  "check_parts m c k ps = Inr () \<longleftrightarrow> map (unat \<circ> part_index) ps = [k..<k + length ps] \<and>
     (\<forall>p \<in> set ps. unat (part_size p) \<le> m \<and> is_blake3 (part_blake3 p) \<and> (part_size p = 0 \<longrightarrow> c = 0))"
proof (induction ps arbitrary: k)
  case (Cons p ps)
  have "[k..<k + length (p # ps)] = k # [Suc k..<Suc k + length ps]" by (simp add: upt_conv_Cons del: upt_Suc)
  with Cons.IH [of "Suc k"] show ?case by (auto simp: bad_part_def not_less simp del: upt_Suc)
qed simp

lemma validate_request_spec:
  "validate_upload_request E r = Inr () \<longleftrightarrow> \<not> manifest_incomplete E r \<and>
     map (unat \<circ> part_index) (cu_parts r) = [0..<length (cu_parts r)] \<and>
     (\<forall>p \<in> set (cu_parts r). unat (part_size p) \<le> app_max_part_bytes E \<and> is_blake3 (part_blake3 p) \<and>
        (part_size p = 0 \<longrightarrow> cu_content_size r = 0)) \<and>
     sum_list (map (unat \<circ> part_size) (cu_parts r)) = unat (cu_content_size r)"
proof -
  have "(case sum_sizes 0 (cu_parts r) of None \<Rightarrow> Inl e
        | Some tot \<Rightarrow> if tot \<noteq> cu_content_size r then Inl f else Inr ()) = Inr () \<longleftrightarrow>
      sum_sizes 0 (cu_parts r) = Some (cu_content_size r)" for e f :: app_error
    by (auto split: option.splits)
  moreover have "sum_sizes 0 (cu_parts r) = Some (cu_content_size r) \<longleftrightarrow>
      sum_list (map (unat \<circ> part_size) (cu_parts r)) = unat (cu_content_size r)"
    using unat_le_u64_max [of "cu_content_size r"] by (auto simp: sum_sizes_Some)
  ultimately show ?thesis
    using check_parts_iff [of "app_max_part_bytes E" "cu_content_size r" 0 "cu_parts r"]
    by (auto simp: validate_upload_request_def split: sum.splits)
qed

text \<open>
  C27. An upload request is accepted exactly when its manifest is complete, its parts are numbered from 0
  without gaps, each is within the part limit and hashed, none is empty unless the content is, and the
  exact sum of the part sizes, which then fits 64 bits, is the content size.
\<close>

theorem validate_upload_request_iff:
  "validate_upload_request E r = Inr () \<longleftrightarrow> \<not> manifest_incomplete E r \<and>
     map (unat \<circ> part_index) (cu_parts r) = [0..<length (cu_parts r)] \<and>
     (\<forall>p \<in> set (cu_parts r). unat (part_size p) \<le> app_max_part_bytes E \<and> is_blake3 (part_blake3 p) \<and>
        (part_size p = 0 \<longrightarrow> cu_content_size r = 0)) \<and>
     sum_list (map (unat \<circ> part_size) (cu_parts r)) = unat (cu_content_size r)"
  by (rule validate_request_spec)

section \<open>The quota\<close>

lemma sql_sum_fold:
  "fold (\<lambda>x acc. Option.bind acc (checked_add_i64 x)) xs (Some a) = Some v \<Longrightarrow> v = a + sum_list xs"
proof (induction xs arbitrary: a)
  case (Cons x xs)
  show ?case
  proof (cases "checked_add_i64 x a")
    case None
    have "fold (\<lambda>x acc. Option.bind acc (checked_add_i64 x)) xs None = None" by (induction xs) auto
    with Cons.prems None show ?thesis by simp
  next
    case (Some b)
    with Cons.prems have "v = b + sum_list xs" by (intro Cons.IH) simp
    moreover have "b = x + a" using Some by (simp add: checked_add_i64_def split: if_splits)
    ultimately show ?thesis by simp
  qed
qed simp

lemma sql_sum_Some: "sql_sum xs = Some v \<Longrightarrow> v = sum_list xs"
  by (simp add: sql_sum_def) (drule sql_sum_fold, simp)

definition pending_states :: "string set" where
  "pending_states = {''receiving'', ''commit_started'', ''finalizing'', ''unknown''}"

text \<open>The bytes an account has stored and reserved.\<close>

definition projected :: "uuid \<Rightarrow> tables \<Rightarrow> i64" where
  "projected a d = sum_list (used_sizes a d) + sum_list (reserved_sizes a pending_states d)"

lemma checked_add_i64_Some: "checked_add_i64 a b = Some c \<Longrightarrow> c = a + b"
  by (simp add: checked_add_i64_def split: if_splits)

lemma ensure_quota_Inr:
  assumes "ensure_quota a quota requested s = (Inr (), t)" "quota \<noteq> 0" "quota < i64_max"
  shows "projected a (srv_db s) + requested \<le> quota \<and> srv_db t = srv_db s"
proof -
  from assms obtain u v where u: "sql_sum (used_sizes a (srv_db s)) = Some u"
    and v: "sql_sum (reserved_sizes a pending_states (srv_db s)) = Some v"
    and le: "saturated_sum (Option.bind (checked_add_i64 u v) (\<lambda>w. checked_add_i64 w requested)) \<le> quota"
    and t: "srv_db t = srv_db s"
    by (auto simp: ensure_quota_def bindE_Inr_iff in_tx_Inr fetch_one_def ensure_run pending_states_def
        split: if_splits)
  obtain w where w: "Option.bind (checked_add_i64 u v) (\<lambda>w. checked_add_i64 w requested) = Some w" "w \<le> quota"
    using le assms(3) by (cases "Option.bind (checked_add_i64 u v) (\<lambda>w. checked_add_i64 w requested)")
      (auto simp: saturated_sum_def)
  then have "u + v + requested \<le> quota"
    by (auto simp: bind_eq_Some_conv dest!: checked_add_i64_Some)
  then show ?thesis using sql_sum_Some [OF u] sql_sum_Some [OF v] t by (simp add: projected_def)
qed

lemma used_sizes_cong: "t_blobs d' = t_blobs d \<Longrightarrow> used_sizes a d' = used_sizes a d"
  by (simp add: used_sizes_def)

text \<open>Every part row belongs to an upload row, and upload ids are unique.\<close>

definition parts_anchored :: "tables \<Rightarrow> bool" where
  "parts_anchored d \<longleftrightarrow> distinct (map upl_id (t_uploads d)) \<and>
     (\<forall>p \<in> set (t_upload_parts d). upt_upload_id p \<in> upl_id ` set (t_uploads d))"

definition reserves :: "uuid \<Rightarrow> upload \<Rightarrow> bool" where
  "reserves a u \<longleftrightarrow> upl_account_id u = a \<and> upl_state u = ''uploading'' \<and> upl_commit_state u \<in> pending_states"

lemma reserved_sizes_alt:
  "reserved_sizes a pending_states d = concat (map (\<lambda>p. map (\<lambda>u. upt_expected_size p)
     (filter (\<lambda>u. upl_id u = upt_upload_id p \<and> reserves a u) (t_uploads d))) (t_upload_parts d))"
  by (simp add: reserved_sizes_def reserves_def conj_ac)

text \<open>A new upload without parts reserves nothing; each part then reserves its size once.\<close>

lemma reserved_new_upload:
  assumes "parts_anchored d" "upl_id u \<notin> upl_id ` set (t_uploads d)"
  shows "reserved_sizes a pending_states (d\<lparr>t_uploads := t_uploads d @ [u]\<rparr>) = reserved_sizes a pending_states d"
proof -
  have "upl_id u \<noteq> upt_upload_id p" if "p \<in> set (t_upload_parts d)" for p
    using assms that by (auto simp: parts_anchored_def)
  then show ?thesis by (auto simp: reserved_sizes_alt intro!: arg_cong [where f = concat])
qed

lemma filter_unique: "distinct (map f xs) \<Longrightarrow> x \<in> set xs \<Longrightarrow> filter (\<lambda>v. f v = f x) xs = [x]"
  by (induction xs) (auto simp: filter_empty_conv image_iff)

lemma insert_parts_Inr:
  assumes "insert_parts i ps s = (Inr (), t)" "distinct (map upl_id (t_uploads (srv_db s)))"
    "u \<in> set (t_uploads (srv_db s))" "upl_id u = i"
  shows "t_uploads (srv_db t) = t_uploads (srv_db s) \<and> t_blobs (srv_db t) = t_blobs (srv_db s) \<and>
    sum_list (reserved_sizes a pending_states (srv_db t)) =
      sum_list (reserved_sizes a pending_states (srv_db s)) +
      (if reserves a u then sum_list (map (sint \<circ> part_size) ps) else 0)"
  using assms
proof (induction ps arbitrary: s)
  case (Cons p ps)
  from Cons.prems(1) obtain d s1 where d: "insert_part i p (srv_clock s (srv_tick s)) (srv_db s) = Some ((), d)"
    and s1: "s1 = s\<lparr>srv_tick := Suc (srv_tick s), srv_db := d\<rparr>"
    and rest: "insert_parts i ps s1 = (Inr (), t)"
    by (auto simp: bindE_Inr_iff in_tx_Inr)
  from d have d: "d = (srv_db s)\<lparr>t_upload_parts := t_upload_parts (srv_db s) @ [new_part_row i p]\<rparr>"
    by (auto simp: insert_part_def split: if_splits)
  have unique: "filter (\<lambda>v. upl_id v = i) (t_uploads (srv_db s)) = [u]"
    using filter_unique [OF Cons.prems(2,3)] Cons.prems(4) by simp
  have "filter (\<lambda>v. upl_id v = i \<and> reserves a v) xs = filter (reserves a) (filter (\<lambda>v. upl_id v = i) xs)"
    for xs by (simp add: conj_commute)
  then have "filter (\<lambda>v. upl_id v = i \<and> reserves a v) (t_uploads (srv_db s)) = filter (reserves a) [u]"
    by (simp only: unique)
  then have "sum_list (reserved_sizes a pending_states d) = sum_list (reserved_sizes a pending_states (srv_db s)) +
      (if reserves a u then sint (part_size p) else 0)"
    by (simp add: reserved_sizes_alt d new_part_row_def)
  with Cons.IH [OF rest] Cons.prems(2-4) show ?case by (simp add: s1 d)
qed (simp add: ret_def)

lemma sint_part_sizes:
  assumes "sum_list (map (unat \<circ> part_size) ps) < 2 ^ 63"
  shows "sum_list (map (sint \<circ> part_size) ps) = int (sum_list (map (unat \<circ> part_size) ps))"
  using assms
proof (induction ps)
  case (Cons p ps)
  then have "unat (part_size p) < 2 ^ 63" by simp
  then have "int (unat (part_size p)) < int (2 ^ 63)" by (simp only: of_nat_less_iff)
  then have "uint (part_size p) < 2 ^ 63" by simp
  moreover have "- (2 ^ 63) \<le> uint (part_size p)" by (rule order_trans [of _ 0]) simp_all
  ultimately have "sint (part_size p) = uint (part_size p)" by (simp add: sint_uint signed_take_bit_int_eq_self)
  with Cons show ?case by simp
qed simp

lemma upsert_asset_row_Some:
  "upsert_asset_row E j auth r now d = Some (i, d') \<Longrightarrow> t_uploads d' = t_uploads d \<and>
    t_upload_parts d' = t_upload_parts d \<and> t_blobs d' = t_blobs d"
  by (auto simp: upsert_asset_row_def Let_def split: option.splits if_splits)

lemma projected_cong:
  "t_uploads d' = t_uploads d \<Longrightarrow> t_upload_parts d' = t_upload_parts d \<Longrightarrow> t_blobs d' = t_blobs d \<Longrightarrow>
    projected a d' = projected a d"
  by (simp add: projected_def used_sizes_def reserved_sizes_def)

text \<open>
  C15. Admission respects the quota: when an account with a quota is given a new upload, the bytes it has
  stored and the bytes of all its pending uploads, the new one included, do not exceed the quota, with no
  wrap-around in the sums.
\<close>

theorem new_upload_within_quota:
  assumes run: "transaction (plan_upload E auth r) s = (Inr (policy, New_Upload i), t)"
    and anchored: "parts_anchored (srv_db (run_others s))"
    and quota: "pol_quota_bytes policy \<noteq> 0" "pol_quota_bytes policy < i64_max"
  shows "projected (ac_account_id auth) (srv_db t) \<le> pol_quota_bytes policy"
  using run
proof (cases rule: transaction_Inr)
  case (commit u v)
  let ?a = "ac_account_id auth"
  from commit(2) obtain s1 j s2 aid s3 s4 s5 req s6 k s7 s8 where
    s1: "account_policy_for_update ?a u = (Inr policy, s1)"
    and s2: "fresh_uuid s1 = (Inr j, s2)"
    and s3: "in_tx (upsert_asset_row E j auth r) s2 = (Inr aid, s3)"
    and s4: "in_tx (select (blob_by_content ?a (cu_content_blake3 r))) s3 = (Inr None, s4)"
    and s5: "in_tx (select (open_upload auth r)) s4 = (Inr None, s5)"
    and req: "request_storage_size r = Inr req"
    and s6: "ensure_quota ?a (pol_quota_bytes policy) req s5 = (Inr (), s6)"
    and s7: "fresh_uuid s6 = (Inr k, s7)"
    and s8: "in_tx (insert_upload k auth aid r (app_request_to_value E r)) s7 = (Inr i, s8)"
    and v: "insert_parts i (cu_parts r) s8 = (Inr (), v)"
    by (auto simp: plan_upload_def bindE_Inr_iff ret_def of_result_def split: option.splits)
  have db1: "srv_db s2 = srv_db (run_others s)"
    using s1 s2 commit(1)
    by (auto simp: account_policy_for_update_def bindE_Inr_iff in_tx_Inr select_def of_result_def ensure_run
        ret_def fresh_uuid_def)
  have db5: "srv_db s5 = srv_db s3" using s4 s5 by (auto simp: in_tx_Inr select_def)
  note q = ensure_quota_Inr [OF s6 quota]
  have same: "t_uploads (srv_db s5) = t_uploads (srv_db s2)" "t_upload_parts (srv_db s5) = t_upload_parts (srv_db s2)"
    using s3 by (auto simp: db5 in_tx_Inr dest!: upsert_asset_row_Some)
  have ok: "parts_anchored (srv_db s5)" using anchored by (simp add: parts_anchored_def same db1)
  have db7: "srv_db s7 = srv_db s5" using s7 q by (auto simp: fresh_uuid_def)
  from s8 obtain now where row: "srv_db s8 = (srv_db s5)\<lparr>t_uploads := t_uploads (srv_db s5) @
      [new_upload_row i auth aid r (app_request_to_value E r) now]\<rparr>" and fresh: "find_upload (srv_db s5) i = None"
    by (auto simp: in_tx_Inr insert_upload_def db7 split: if_splits)
  let ?u = "new_upload_row i auth aid r (app_request_to_value E r) now"
  have new: "upl_id ?u \<notin> upl_id ` set (t_uploads (srv_db s5))"
    using fresh by (auto simp: find_upload_def find_None_iff new_upload_row_def)
  have dist: "distinct (map upl_id (t_uploads (srv_db s8)))"
    using ok new by (simp add: row parts_anchored_def)
  have u: "?u \<in> set (t_uploads (srv_db s8))" "upl_id ?u = i" by (simp_all add: row new_upload_row_def)
  note parts = insert_parts_Inr [OF v dist u, of ?a]
  have reserves: "reserves ?a ?u" by (simp add: reserves_def new_upload_row_def pending_states_def)
  from req obtain tot where tot: "sum_sizes 0 (cu_parts r) = Some tot" "i64_of_u64 tot = Some req"
    by (auto simp: request_storage_size_def ok_or_def split: option.splits)
  have sizes: "sum_list (map (sint \<circ> part_size) (cu_parts r)) = req"
  proof -
    have "sum_list (map (unat \<circ> part_size) (cu_parts r)) = unat tot" using tot(1) by (simp add: sum_sizes_Some)
    moreover have "unat tot < 2 ^ 63"
    proof (rule of_nat_less_imp_less)
      show "int (unat tot) < int (2 ^ 63)" using tot(2) by (auto simp: i64_of_u64_def i64_max_def split: if_splits)
    qed
    ultimately show ?thesis using sint_part_sizes [of "cu_parts r"] i64_of_u64_Some [OF tot(2)] by simp
  qed
  have "projected ?a (srv_db v) = projected ?a (srv_db s5) + req"
    using parts reserves sizes reserved_new_upload [OF ok new, of ?a]
    by (simp add: projected_def row used_sizes_def)
  with q commit(3) show ?thesis by simp
qed (auto simp: plan_upload_def bindE_Inr_iff ret_def split: option.splits)

end
