(* ===== verification/Upload_Examples.thy ===== *)
theory Upload_Examples
  imports Commit_Examples Upload_Routes_Correct
begin

text \<open>The theorems about the upload handlers, applied to the small server of \<open>Commit_Examples\<close>.\<close>

definition example_auth :: auth_context where
  "example_auth = \<lparr>ac_account_id = 1, ac_device_id = 2, ac_actor_kind = ''device'', ac_actor_id = 2\<rparr>"

definition example_device :: device where
  "example_device = \<lparr>dev_id = 2, dev_account_id = 1, dev_name = ''d'', dev_platform = ''p'', dev_token_hash = [],
     dev_created_at = 0, dev_last_seen_at = 0\<rparr>"

definition quota_server :: server where
  "quota_server = example_server
     (example_tables [] []\<lparr>t_devices := [example_device], t_upload_parts := []\<rparr>) example_fs"

definition example_policy :: account_policy_row where
  "example_policy = \<lparr>pol_storage_path = ''a'', pol_quota_bytes = 100\<rparr>"

lemma quota_run:
  "map_sum (\<lambda>_. ()) (\<lambda>x. x) (fst (transaction (plan_upload example_app example_auth example_request) quota_server)) =
    Inr (example_policy, New_Upload 101)"
  by code_simp

lemma run_of_map_sum:
  assumes "map_sum f (\<lambda>x. x) (fst p) = Inr x"
  shows "\<exists>t. p = (Inr x, t)"
  using assms by (cases p; cases "fst p") auto

lemma quota_others: "run_others quota_server = quota_server"
  by (simp add: run_others_def quota_server_def example_server_def)

theorem new_upload_within_quota_witness:
  "\<exists>t. transaction (plan_upload example_app example_auth example_request) quota_server =
      (Inr (example_policy, New_Upload 101), t) \<and> projected 1 (srv_db t) \<le> 100"
proof -
  obtain t where run: "transaction (plan_upload example_app example_auth example_request) quota_server =
      (Inr (example_policy, New_Upload 101), t)"
    using run_of_map_sum [OF quota_run] by blast
  have "parts_anchored (srv_db (run_others quota_server))"
    unfolding quota_others
    by (simp add: quota_server_def example_server_def example_tables_def parts_anchored_def)
  from new_upload_within_quota [OF run this] run show ?thesis
    by (simp add: example_policy_def example_auth_def i64_max_def)
qed

definition plain_request :: create_upload_request where
  "plain_request = example_request\<lparr>cu_content_blake3 := replicate 64 (CHR ''a''),
     cu_parts := [\<lparr>part_index = 0, part_size = 3, part_blake3 = replicate 64 (CHR ''a'')\<rparr>]\<rparr>"

theorem validate_upload_request_iff_witness:
  "validate_upload_request example_app plain_request = Inr ()"
  unfolding validate_upload_request_iff
  by (simp add: plain_request_def example_request_def example_app_def manifest_incomplete_def is_blake3_def
      is_ascii_hexdigit_def is_ascii_digit_def code_def list_all_iff)

end
