(* ===== verification/Api_Router.thy ===== *)
theory Api_Router
  imports Isolation Upload_Examples
begin

text \<open>
  The protected routes of \<open>router\<close> (\<open>routes.rs\<close>): one constructor per route, with what its extractors
  yield, and the handler each is given to.  The theorem of the file is tenant isolation: no request leaves
  a trace in, or takes anything from, the tables of another account.
\<close>

section \<open>The routes\<close>

datatype api_request =
    Post_Upload create_upload_request
  | Get_Upload uuid
  | Put_Part uuid u32 "frame list" admission_outcome
  | Post_Complete uuid
  | Get_Resources
  | Get_Resource uuid
  | Get_Content uuid
  | Get_Timeline timeline_query
  | Get_Sync sync_query
  | Get_Asset uuid
  | Patch_Asset uuid update_asset_request
  | Delete_Asset uuid
  | Post_Trash uuid
  | Post_Restore uuid
  | Get_Albums
  | Post_Album sync_album_request
  | Get_Tags
  | Post_Tag create_tag_request
  | Put_Tag_Assets uuid set_tag_assets_request
  | Post_Tag_Asset uuid uuid
  | Delete_Tag_Asset uuid uuid
  | Get_Duplicates "u32 option"
  | Get_Api_Keys
  | Post_Api_Key create_api_key_request bytes
  | Delete_Api_Key uuid
  | Get_Audit_Events "i64 option" "u32 option"

text \<open>The body of the answer is left out: what is followed here is the effect of a request.\<close>

definition quiet :: "'a srv \<Rightarrow> unit srv" where
  "quiet m = bindE m (\<lambda>_. ret ())"

record environment =
  env_app :: app
  env_codec :: cursor_codec
  env_secrets :: secrets
  env_header_ok :: "string \<Rightarrow> bool"

fun protected :: "environment \<Rightarrow> auth_context \<Rightarrow> api_request \<Rightarrow> unit srv" where
  "protected V auth (Post_Upload r) = quiet (create_upload (env_app V) auth r)"
| "protected V auth (Get_Upload i) = quiet (upload_status auth i)"
| "protected V auth (Put_Part i n body adm) = quiet (put_upload_part (env_app V) auth i n body adm)"
| "protected V auth (Post_Complete i) = quiet (complete_upload (env_app V) auth i)"
| "protected V auth Get_Resources = quiet (list_resources (env_app V) auth)"
| "protected V auth (Get_Resource i) = quiet (resource_manifest_handler (env_app V) auth i)"
| "protected V auth (Get_Content i) = quiet (resource_content (env_header_ok V) auth i)"
| "protected V auth (Get_Timeline q) = quiet (timeline (env_app V) (env_codec V) auth q)"
| "protected V auth (Get_Sync q) = quiet (sync_changes auth q)"
| "protected V auth (Get_Asset i) = quiet (get_asset (env_app V) auth i)"
| "protected V auth (Patch_Asset i r) = quiet (update_asset (env_app V) auth i r)"
| "protected V auth (Delete_Asset i) = quiet (delete_asset_permanently auth i)"
| "protected V auth (Post_Trash i) = quiet (trash_asset auth i)"
| "protected V auth (Post_Restore i) = quiet (restore_asset auth i)"
| "protected V auth Get_Albums = quiet (list_albums auth)"
| "protected V auth (Post_Album r) = quiet (sync_album auth r)"
| "protected V auth Get_Tags = quiet (list_tags auth)"
| "protected V auth (Post_Tag r) = quiet (create_tag auth r)"
| "protected V auth (Put_Tag_Assets i r) = quiet (set_tag_assets auth i r)"
| "protected V auth (Post_Tag_Asset i j) = quiet (add_tag_asset auth i j)"
| "protected V auth (Delete_Tag_Asset i j) = quiet (remove_tag_asset auth i j)"
| "protected V auth (Get_Duplicates n) = quiet (duplicate_groups (env_app V) auth n)"
| "protected V auth Get_Api_Keys = quiet (list_api_keys auth)"
| "protected V auth (Post_Api_Key r random) = quiet (create_api_key (env_secrets V) random auth r)"
| "protected V auth (Delete_Api_Key i) = quiet (revoke_api_key auth i)"
| "protected V auth (Get_Audit_Events b n) = quiet (audit_events auth b n)"

text \<open>A route with the middleware in front of it.\<close>

definition mobile_api :: "environment \<Rightarrow> string option \<Rightarrow> api_request \<Rightarrow> unit srv" where
  "mobile_api V header rq = require_auth (env_secrets V) header (\<lambda>auth. protected V auth rq)"

section \<open>Isolation\<close>

lemma iso_quiet: "obeys (iso_runs b V) m \<Longrightarrow> obeys (iso_runs b V) (quiet m)"
  unfolding quiet_def by (intro iso_rules)

lemma iso_summaries: "obeys (iso_runs b V) (load_summaries E a ids)"
  by (induction ids) (auto intro!: iso_rules iso_reads)

lemma iso_groups: "obeys (iso_runs b V) (load_groups E a bs)"
  by (induction bs) (auto intro!: iso_rules iso_summaries)

text \<open>The requests that only read.\<close>

lemma iso_lookups:
  "obeys (iso_runs b V) (upload_status auth i)" "obeys (iso_runs b V) (list_resources E auth)"
  "obeys (iso_runs b V) (resource_manifest_handler E auth i)" "obeys (iso_runs b V) (resource_content ok auth i)"
  "obeys (iso_runs b V) (timeline E C auth q)" "obeys (iso_runs b V) (sync_changes auth sq)"
  "obeys (iso_runs b V) (get_asset E auth i)" "obeys (iso_runs b V) (list_albums auth)"
  "obeys (iso_runs b V) (list_tags auth)" "obeys (iso_runs b V) (duplicate_groups E auth n)"
  "obeys (iso_runs b V) (list_api_keys auth)" "obeys (iso_runs b V) (audit_events auth before n)"
  unfolding upload_status_def list_resources_def resource_manifest_handler_def load_manifest_def
    resource_content_def timeline_def sync_changes_def get_asset_def list_albums_def list_tags_def
    duplicate_groups_def list_api_keys_def audit_events_def Let_def
  by (intro iso_rules iso_missing iso_summaries iso_groups iso_reads)+

lemma iso_one_tag:
  assumes "ac_account_id auth \<noteq> b"
  shows "obeys (iso_runs b V) (add_tag_asset auth i j)" "obeys (iso_runs b V) (remove_tag_asset auth i j)"
  unfolding add_tag_asset_def remove_tag_asset_def by (intro iso_rules iso_change_tag_asset assms)+

lemma iso_protected:
  assumes "ac_account_id auth \<noteq> b" "\<And>i. rq \<noteq> Post_Complete i"
  shows "obeys (iso_runs b V) (protected W auth rq)"
proof -
  note changes = iso_one_tag [OF assms(1)] iso_create_upload [OF assms(1)] iso_put_upload_part [OF assms(1)]
    iso_update_asset [OF assms(1)] iso_delete_asset [OF assms(1)] iso_sync_album [OF assms(1)]
    iso_create_tag [OF assms(1)] iso_set_tag_assets [OF assms(1)] iso_keys [OF assms(1)]
  show ?thesis
  proof (cases rq)
    case (Post_Complete i)
    with assms(2) show ?thesis by blast
  qed (simp_all add: iso_quiet iso_lookups changes)
qed

text \<open>
  C3. Tenant isolation.  A request other than the completion of an upload, made by account \<open>a\<close>, leaves
  everything the tables hold for another account \<open>b\<close> as it was: the account, its devices, assets, blobs,
  resources, uploads and parts, albums, tags, API keys, changes and audit events.  It does so whatever
  statement or file operation fails on the way, and whatever the requests that run in between do to
  other accounts (\<open>rely\<close>).
\<close>

theorem tenant_isolation:
  assumes "protected W auth rq s = (r, t)" "ac_account_id auth \<noteq> b" "\<And>i. rq \<noteq> Post_Complete i"
    and "rely (isolated b V) (\<lambda>_ _. True) (\<lambda>_ _. True) {} s" "separate b (srv_db s)" "V = view b (srv_db s)"
  shows "view b (srv_db t) = view b (srv_db s) \<and> separate b (srv_db t)"
proof -
  have "iso_runs b V s t" by (rule obeysD [OF iso_protected [OF assms(2,3)] assms(1)])
  then show ?thesis using assms(4-6) by (simp add: runs_def isolated_def)
qed

section \<open>Two accounts\<close>

definition other_account :: account where
  "other_account = example_account\<lparr>acc_id := 9, acc_storage_path := ''b'', acc_username := ''v''\<rparr>"

definition other_asset :: asset where
  "other_asset = example_asset\<lparr>ast_id := 19, ast_account_id := 9\<rparr>"

definition other_tag :: tag where
  "other_tag = \<lparr>tag_id = 29, tag_account_id = 9, tag_name = ''t'', tag_created_at = 0, tag_updated_at = 0\<rparr>"

definition shared_tables :: tables where
  "shared_tables = (example_tables [] [])\<lparr>t_accounts := [example_account, other_account],
     t_devices := [example_device], t_assets := [example_asset, other_asset], t_upload_parts := [],
     t_tags := [other_tag], t_tag_assets := [\<lparr>mem_of = 29, mem_asset_id = 19, mem_added_at = 0\<rparr>]\<rparr>"

definition example_environment :: environment where
  "example_environment = \<lparr>env_app = example_app,
     env_codec = \<lparr>cc_to_vec = (\<lambda>_. []), cc_from_slice = (\<lambda>_. None), cc_encode = (\<lambda>_. []), cc_decode = (\<lambda>_. None)\<rparr>,
     env_secrets = \<lparr>sec_sha256 = (\<lambda>_. []), sec_base64 = (\<lambda>_. []), sec_to_lowercase = (\<lambda>s. s),
       sec_validate_password = (\<lambda>_. Inr ()), sec_hash_password = (\<lambda>_. None), sec_verify_password = (\<lambda>_ _. False)\<rparr>,
     env_header_ok = (\<lambda>_. True)\<rparr>"

text \<open>The caller asks to put its own asset under the tag of the other account.\<close>

theorem tenant_isolation_witness:
  "view 9 (srv_db (snd (protected example_environment example_auth
     (Put_Tag_Assets 29 \<lparr>st_asset_ids = [5]\<rparr>) (example_server shared_tables example_fs)))) = view 9 shared_tables"
proof -
  let ?s = "example_server shared_tables example_fs"
  obtain r t where run: "protected example_environment example_auth (Put_Tag_Assets 29 \<lparr>st_asset_ids = [5]\<rparr>) ?s = (r, t)"
    by fastforce
  have "view 9 (srv_db t) = view 9 (srv_db ?s) \<and> separate 9 (srv_db t)"
  proof (rule tenant_isolation [OF run, where b = 9 and V = "view 9 shared_tables"])
    show "rely (isolated 9 (view 9 shared_tables)) (\<lambda>_ _. True) (\<lambda>_ _. True) {} ?s"
      by (simp add: rely_def example_server_def)
    have ids: "asset_ids 9 [example_asset, other_asset] = {19}" "tag_ids 9 [other_tag] = {29}"
      unfolding id_defs set_filter [symmetric]
      by (simp_all add: example_asset_def other_asset_def other_tag_def)
    show "separate 9 (srv_db ?s)"
      by (simp add: separate_def example_server_def shared_tables_def example_tables_def ids)
         (simp add: id_defs example_asset_def other_asset_def other_tag_def)
  qed (simp_all add: example_auth_def example_server_def)
  with run show ?thesis by (simp add: example_server_def)
qed

end
