(* ===== verification/Server_Examples.thy ===== *)
theory Server_Examples
  imports Commit_Lifecycle Access Admin_Correct Trash Api_Router
begin

text \<open>The theorems about the life of an upload, access, administration and the trash, on the small server.\<close>

section \<open>The life of an upload\<close>

lemma finalizing_state:
  "map_option upl_commit_state (find_upload (srv_db (snd (complete_inner example_app 7 (Some 1) None finalizing_server))) 7) =
    Some ''committed''"
  by code_simp

theorem commit_lifecycle_witness: "commit_move\<^sup>*\<^sup>* Ph_Finalizing Ph_Committed"
proof -
  obtain r t where run: "complete_inner example_app 7 (Some 1) None finalizing_server = (r, t)" by fastforce
  with finalizing_state obtain v where v: "find_upload (srv_db t) 7 = Some v" "upl_commit_state v = ''committed''"
    by (auto simp: map_option_case split: option.splits)
  have u: "find_upload (srv_db finalizing_server) 7 = Some (example_upload ''finalizing'')"
    by (simp add: finalizing_server_def example_server_def find_upload_def example_tables_def example_upload_def)
  have rely: "state_rely 7 finalizing_server"
    by (auto simp: rely_def finalizing_server_def example_server_def same_state_def split: option.splits)
  have "unique_uploads (srv_db finalizing_server)"
    by (simp add: unique_uploads_def finalizing_server_def example_server_def example_tables_def)
  from commit_lifecycle [OF run rely this u v(1)] v(2) show ?thesis
    by (simp add: example_upload_def phase_of_simps)
qed

section \<open>Access\<close>

definition plain_secrets :: secrets where
  "plain_secrets = \<lparr>sec_sha256 = bytes_of, sec_base64 = (\<lambda>_. ''k''), sec_to_lowercase = (\<lambda>s. s),
     sec_validate_password = (\<lambda>_. Inr ()), sec_hash_password = (\<lambda>_. Some ''hash''), sec_verify_password = (\<lambda>_ _. False)\<rparr>"

definition shared_server :: server where
  "shared_server = example_server shared_tables example_fs"

lemma door_run:
  "fst (require_auth plain_secrets (Some ''Bearer '') (\<lambda>auth. ret (ac_account_id auth)) shared_server) = Inr 1"
  by code_simp

theorem require_auth_guards_witness:
  "\<exists>auth usage u. authenticate plain_secrets (Some ''Bearer '') shared_server = (Inr (auth, usage), u) \<and>
    live_credential plain_secrets [] auth usage (srv_db u) \<and> ac_account_id auth = 1"
proof -
  obtain r t where run: "require_auth plain_secrets (Some ''Bearer '') (\<lambda>auth. ret (ac_account_id auth)) shared_server = (r, t)"
    by fastforce
  with door_run have "r = Inr 1" by simp
  with require_auth_guards [OF run] show ?thesis by (fastforce simp: ret_def)
qed

lemma undisturbed_example: "undisturbed (example_server d f)"
  by (simp add: undisturbed_def example_server_def)

definition new_key :: "(app_error + nat \<times> api_key_created) \<times> server" where
  "new_key = create_api_key plain_secrets [] example_auth \<lparr>ck_name = ''n''\<rparr> shared_server"

lemma new_key_run: "map_sum (\<lambda>_. ()) (\<lambda>p. (akc_api_key_id (snd p), akc_token (snd p))) (fst new_key) = Inr (100, ''pbk_k'')"
  by code_simp

lemma new_key_tables:
  "map dev_token_hash (t_devices (srv_db (snd new_key))) = [[]]"
  "map (\<lambda>a. (acc_id a, acc_enabled a)) (t_accounts (srv_db (snd new_key))) = [(1, True), (9, True)]"
  "map (\<lambda>k. (key_id k, key_revoked_at k)) (t_api_keys (srv_db (snd new_key))) = [(100, None)]"
  by code_simp+

theorem created_key_authenticates_witness:
  "\<exists>v. authenticate plain_secrets (Some ''Bearer pbk_k'') (example_server (srv_db (snd new_key)) example_fs) =
    (Inr (\<lparr>ac_account_id = 1, ac_device_id = 2, ac_actor_kind = ''api_key'', ac_actor_id = 100\<rparr>, ApiKey 100), v)"
proof -
  let ?u = "example_server (srv_db (snd new_key)) example_fs"
  obtain q t where pair: "new_key = (q, t)" by fastforce
  from new_key_run have "map_sum (\<lambda>_. ()) (\<lambda>p. (akc_api_key_id (snd p), akc_token (snd p))) q = Inr (100, ''pbk_k'')"
    unfolding pair by simp
  then obtain st c where q: "q = Inr (st, c)" and c: "akc_api_key_id c = 100" "akc_token c = ''pbk_k''"
    by (cases q) auto
  have run: "create_api_key plain_secrets [] example_auth \<lparr>ck_name = ''n''\<rparr> shared_server = (Inr (st, c), t)"
    using pair q by (simp add: new_key_def)
  have db: "srv_db ?u = srv_db t" unfolding pair by (simp add: example_server_def)
  have "(1, True) \<in> set (map (\<lambda>a. (acc_id a, acc_enabled a)) (t_accounts (srv_db t)))"
    using new_key_tables(2) unfolding pair by simp
  then have on: "enabled_account (ac_account_id example_auth) (srv_db t)"
    by (auto simp: enabled_account_def example_auth_def)
  have dev: "dev_token_hash v \<noteq> sec_sha256 plain_secrets (akc_token c)" if "v \<in> set (t_devices (srv_db t))" for v
  proof -
    have "dev_token_hash v \<in> set (map dev_token_hash (t_devices (srv_db t)))" using that by simp
    with new_key_tables(1) have "dev_token_hash v = []" unfolding pair by simp
    then show ?thesis by (simp add: c plain_secrets_def bytes_of_def)
  qed
  from created_key_authenticates [OF run undisturbed_example db on dev]
  show ?thesis by (cases "authenticate plain_secrets (Some ''Bearer pbk_k'') ?u") (simp add: c example_auth_def)
qed

definition old_key :: "(app_error + nat) \<times> server" where
  "old_key = revoke_api_key example_auth 100 (snd new_key)"

lemma old_key_run: "map_sum (\<lambda>_. ()) (\<lambda>n. n) (fst old_key) = Inr 204"
  and old_key_ids: "map key_id (t_api_keys (srv_db (snd old_key))) = [100]"
  by code_simp+

text \<open>A request changes nothing about the world it runs in.\<close>

lemma old_key_world: "same_world (snd new_key) (snd old_key)" "same_world shared_server (snd new_key)"
proof -
  have "obeys (runs (\<lambda>_. True) (\<lambda>_ _. True) (\<lambda>_ _. True) {}) (revoke_api_key auth i)"
    "obeys (runs (\<lambda>_. True) (\<lambda>_ _. True) (\<lambda>_ _. True) {}) (create_api_key S random auth r)" for auth i S random r
    unfolding revoke_api_key_def create_api_key_def record_in_transaction_def Let_def
    by (intro any.server_rules any_in_tx)+
  from obeysD [OF this(1), of example_auth 100 "snd new_key" "fst old_key" "snd old_key"]
    obeysD [OF this(2), of plain_secrets "[]" example_auth "\<lparr>ck_name = ''n''\<rparr>" shared_server "fst new_key" "snd new_key"]
  show "same_world (snd new_key) (snd old_key)" "same_world shared_server (snd new_key)"
    by (simp_all add: old_key_def new_key_def runs_def rely_def)
qed

lemma device_still_works:
  "map_sum (\<lambda>_. ()) (\<lambda>_. ()) (fst (authenticate plain_secrets (Some ''Bearer '') (snd old_key))) = Inr ()"
  by code_simp

theorem revoked_key_rejected_witness:
  "\<exists>a usage u. authenticate plain_secrets (Some ''Bearer '') (snd old_key) = (Inr (a, usage), u) \<and> usage \<noteq> ApiKey 100"
proof -
  obtain q t where pair: "old_key = (q, t)" by fastforce
  from old_key_run have "map_sum (\<lambda>_. ()) (\<lambda>n. n) q = Inr 204" unfolding pair by simp
  then have "q = Inr 204" by (cases q) auto
  with pair have run: "revoke_api_key example_auth 100 (snd new_key) = (Inr 204, t)" by (simp add: old_key_def)
  have ids: "distinct (map key_id (t_api_keys (srv_db t)))" using old_key_ids unfolding pair by simp
  have others: "fst (srv_others t n (d, f)) = d" for n d f
    using old_key_world unfolding pair by (simp add: same_world_def shared_server_def example_server_def)
  obtain x u where x: "authenticate plain_secrets (Some ''Bearer '') t = (x, u)" by fastforce
  from device_still_works have "map_sum (\<lambda>_. ()) (\<lambda>_. ()) x = Inr ()" unfolding pair snd_conv x fst_conv .
  then obtain a usage where "x = Inr (a, usage)" by (cases x) auto
  with x have au: "authenticate plain_secrets (Some ''Bearer '') t = (Inr (a, usage), u)" by simp
  have "usage \<noteq> ApiKey 100" by (rule revoked_key_rejected [OF run ids _ au]) (simp add: others)
  with au show ?thesis unfolding pair snd_conv by blast
qed

section \<open>Administration\<close>

definition second_user :: create_user_request where
  "second_user = \<lparr>nu_username = ''bob'', nu_password = [], nu_display_name = ''B'', nu_storage_path = ''a/b'',
     nu_quota_bytes = 0, nu_enabled = True\<rparr>"

definition third_user :: create_user_request where
  "third_user = second_user\<lparr>nu_username := ''carol'', nu_storage_path := ''c''\<rparr>"

text \<open>The first request wants a directory below that of the first account and is refused.\<close>

lemma admin_run:
  "map (\<lambda>a. (acc_id a, acc_storage_path a))
     (t_accounts (srv_db (admin_session example_app plain_secrets [Create_User second_user, Create_User third_user]
        shared_server))) = [(1, ''a''), (9, ''b''), (101, ''c'')]"
  by code_simp

theorem accounts_stay_apart_witness:
  "account_paths_overlap ''a'' ''c'' = Inr False"
proof -
  let ?t = "admin_session example_app plain_secrets [Create_User second_user, Create_User third_user] shared_server"
  have rows: "(\<lambda>a. (acc_id a, acc_storage_path a)) ` set (t_accounts (srv_db ?t)) = set [(1, ''a''), (9, ''b''), (101, ''c'')]"
    unfolding admin_run [symmetric] by simp
  then have "(1, ''a'') \<in> (\<lambda>a. (acc_id a, acc_storage_path a)) ` set (t_accounts (srv_db ?t))"
    "(101, ''c'') \<in> (\<lambda>a. (acc_id a, acc_storage_path a)) ` set (t_accounts (srv_db ?t))" by simp_all
  then obtain a c where ac: "a \<in> set (t_accounts (srv_db ?t))" "acc_id a = 1" "acc_storage_path a = ''a''"
    "c \<in> set (t_accounts (srv_db ?t))" "acc_id c = 101" "acc_storage_path c = ''c''" by auto
  have "paths_apart (t_accounts (srv_db shared_server))"
    using sample_disjoint overlap_sym [OF sample_disjoint]
    by (simp add: paths_apart_def shared_server_def example_server_def shared_tables_def other_account_def example_account_def)
  from accounts_stay_apart [OF this _ ac(1,4)] ac show ?thesis
    by (simp add: shared_server_def example_server_def)
qed

section \<open>The trash\<close>

definition trash_server :: server where
  "trash_server = example_server (shared_tables\<lparr>t_assets := [example_asset\<lparr>ast_deleted_at := Some 0\<rparr>, other_asset],
     t_resources := [\<lparr>res_id = 40, res_asset_id = 5, res_blob_id = 6, res_source_resource_id = ''r'',
       res_role = ''primary'', res_filename = ''f'', res_mime_type = ''m'', res_metadata = None, res_created_at = 0\<rparr>],
     t_blobs := [example_blob]\<rparr>) example_fs"

lemma trash_run: "map_sum (\<lambda>_. ()) (\<lambda>n. n) (fst (delete_asset_permanently example_auth 5 trash_server)) = Inr 204"
  by code_simp

theorem deleted_for_good_witness:
  "asset_gone 5 (srv_db (snd (delete_asset_permanently example_auth 5 trash_server)))"
proof -
  obtain q t where pair: "delete_asset_permanently example_auth 5 trash_server = (q, t)" by fastforce
  from trash_run have "map_sum (\<lambda>_. ()) (\<lambda>n. n) q = Inr 204" unfolding pair by simp
  then have run: "delete_asset_permanently example_auth 5 trash_server = (Inr 204, t)" using pair by (cases q) auto
  have "unique_assets (srv_db (run_others trash_server))"
    by (simp add: unique_assets_def run_others_def trash_server_def example_server_def example_asset_def other_asset_def)
  from deleted_for_good [OF run _ this] show ?thesis
    unfolding run by (simp add: trash_server_def example_server_def)
qed

end
