(* ===== verification/Client_Content.thy ===== *)
theory Client_Content
  imports Stored_Objects
begin

text \<open>
  \<open>crates/crypto\<close>: the client splits a media file into parts (\<open>prepare_file\<close>) and checks a downloaded
  file before it takes its place (\<open>restore_file\<close>).  The files are those of \<open>Rooted_Fs\<close>, with the calls of
  \<open>std::fs\<close> added; a path of the client is placed by the names of its components, the root directory
  being the name \<open>''''\<close>.  The paths of the client lead through no symbolic link.
\<close>

section \<open>The calls of std::fs\<close>

definition place :: "path \<Rightarrow> string list" where
  "place p = map component_str p"

text \<open>\<open>File::create\<close> makes the file or empties it.\<close>

definition sys_create :: "string list \<Rightarrow> nat io" where
  "sys_create p = syscall (\<lambda>s. case resolve s [] (butlast p) of
       Inl e \<Rightarrow> (Inl e, s)
     | Inr Dir \<Rightarrow> (case look s p of
           None \<Rightarrow> (Inr (fs_next s), snd (new_file p s))
         | Some (Reg i) \<Rightarrow> (Inr i, set_data i [] s)
         | Some _ \<Rightarrow> (Inl OtherIo, s))
     | Inr _ \<Rightarrow> (Inl NotADirectory, s))"

definition sys_len :: "node \<Rightarrow> nat io" where
  "sys_len n = syscall (\<lambda>s. (Inr (case n of Reg i \<Rightarrow> length (fs_data s i) | _ \<Rightarrow> 0), s))"

text \<open>\<open>read\<close> on an open file, at an offset; a directory opens but cannot be read.\<close>

definition read_at :: "nat \<Rightarrow> node \<Rightarrow> nat \<Rightarrow> bytes io" where
  "read_at cap n off s = (case n of
       Reg i \<Rightarrow> sys_read cap (drop off (fs_data s i)) s
     | _ \<Rightarrow> syscall (fail OtherIo) s)"

definition is_dir :: "string list \<Rightarrow> bool io" where
  "is_dir p = bindE (attempt (sys_stat p)) (\<lambda>r. ret (r = Inr Dir))"

definition mkdir_path :: "string list \<Rightarrow> unit io" where
  "mkdir_path p = sys_mkdir (butlast p) (last p)"

text \<open>\<open>create_dir_all\<close> tries the directory itself first, then its parent.\<close>

definition unless_dir :: "string list \<Rightarrow> io_kind \<Rightarrow> unit io" where
  "unless_dir p e = bindE (is_dir p) (\<lambda>d. if d then ret () else fail e)"

function create_dir_all :: "string list \<Rightarrow> unit io" where
  "create_dir_all p = (if p = [] then ret () else
     bindE (attempt (mkdir_path p)) (\<lambda>r. case r of
       Inr _ \<Rightarrow> ret ()
     | Inl e \<Rightarrow> if e \<noteq> NotFound then unless_dir p e
         else bindE (create_dir_all (butlast p)) (\<lambda>_.
              bindE (attempt (mkdir_path p)) (\<lambda>r. case r of
                Inr _ \<Rightarrow> ret ()
              | Inl e \<Rightarrow> unless_dir p e))))"
  by pat_completeness auto
termination
  by (relation "measure length") auto

declare create_dir_all.simps [simp del]

text \<open>\<open>rename\<close> of a file: two names of one file stay as they are.\<close>

definition sys_rename :: "string list \<Rightarrow> string list \<Rightarrow> unit io" where
  "sys_rename p q = syscall (\<lambda>s. case look s p of
       None \<Rightarrow> (Inl NotFound, s)
     | Some n \<Rightarrow>
         if n = Dir then (Inl OtherIo, s)
         else if look s (butlast q) \<noteq> Some Dir then (Inl NotFound, s)
         else if look s q = Some Dir then (Inl OtherIo, s)
         else if look s q = Some n then (Inr (), s)
         else (Inr (), drop_node p (put_node q n (drop_node q s))))"

section \<open>prepare_file\<close>

datatype content_error = Io io_kind | Invalid_Part_Size | Too_Many_Parts | Integrity

type_synonym 'a ct = "(fs, content_error, 'a) sem"

definition ct_io :: "'a io \<Rightarrow> 'a ct" where
  "ct_io m = map_err Io m"

record prepared_part =
  pp_spec :: upload_part_spec
  pp_path :: path

record prepared_content =
  pc_content_size :: u64
  pc_content_blake3 :: string
  pc_parts :: "prepared_part list"

definition MAX_PART_BYTES :: nat where
  "MAX_PART_BYTES = 64 * 1024 * 1024"

definition MAX_CONTENT_PARTS :: nat where
  "MAX_CONTENT_PARTS = 4096"

text \<open>\<open>try_reserve\<close>: the allocation may be refused.\<close>

definition reserve :: "unit io" where
  "reserve = syscall (ret ())"

function fill_part :: "nat \<Rightarrow> node \<Rightarrow> nat \<Rightarrow> bytes \<Rightarrow> bytes io" where
  "fill_part part_len reader off filled =
     (if part_len \<le> length filled then ret filled
      else bindE (read_at (part_len - length filled) reader (off + length filled)) (\<lambda>chunk.
        if chunk = [] then ret filled else fill_part part_len reader off (filled @ chunk)))"
  by pat_completeness auto
termination
  by (relation "measure (\<lambda>(n, r, off, filled). n - length filled)") (auto intro!: diff_less_mono2)

declare fill_part.simps [simp del]

definition part_file :: "path \<Rightarrow> u32 \<Rightarrow> path" where
  "part_file output_dir index = path_join output_dir (path_of (fmt08 (unat index) @ ''.part''))"

text \<open>The rest of one round: the file of the part, and its description.\<close>

definition write_part_file :: "externals \<Rightarrow> path \<Rightarrow> u32 \<Rightarrow> bytes \<Rightarrow> prepared_part io" where
  "write_part_file X output_dir index bs =
     bindE reserve (\<lambda>_.
     bindE (sys_create (place (part_file output_dir index))) (\<lambda>out.
     bindE (sys_write out bs) (\<lambda>_.
     bindE sys_fsync (\<lambda>_.
     ret \<lparr>pp_spec = \<lparr>part_index = index, part_size = word_of_nat (length bs), part_blake3 = blake3_hex X bs\<rparr>,
          pp_path = part_file output_dir index\<rparr>))))"

text \<open>The loop: the bytes hashed so far, their number, the parts and the next index.\<close>

function prepare_loop :: "externals \<Rightarrow> path \<Rightarrow> nat \<Rightarrow> node \<Rightarrow> bytes \<Rightarrow> u64 \<Rightarrow> prepared_part list \<Rightarrow> u32 \<Rightarrow>
    (bytes \<times> u64 \<times> prepared_part list) ct" where
  "prepare_loop X output_dir part_len reader hashed content_size parts index =
     (if MAX_CONTENT_PARTS \<le> length parts then
        bindE (ct_io (read_at 1 reader (length hashed))) (\<lambda>probe.
        if probe \<noteq> [] then fail Too_Many_Parts else ret (hashed, content_size, parts))
      else
        bindE (ct_io reserve) (\<lambda>_.
        bindE (ct_io (fill_part part_len reader (length hashed) [])) (\<lambda>bs.
        if bs = [] \<and> 0 < index then ret (hashed, content_size, parts)
        else
          bindE (ct_io (write_part_file X output_dir index bs)) (\<lambda>p.
          if length bs < part_len
          then ret (hashed @ bs, content_size + word_of_nat (length bs), parts @ [p])
          else prepare_loop X output_dir part_len reader (hashed @ bs)
                 (content_size + word_of_nat (length bs)) (parts @ [p]) (index + 1)))))"
  by pat_completeness auto
termination
  by (relation "measure (\<lambda>(X, d, n, r, h, z, parts, i). MAX_CONTENT_PARTS - length parts)") auto

declare prepare_loop.simps [simp del]

definition div_ceil :: "nat \<Rightarrow> nat \<Rightarrow> nat" where
  "div_ceil a b = (a + b - 1) div b"

definition prepare_file :: "externals \<Rightarrow> path \<Rightarrow> path \<Rightarrow> nat \<Rightarrow> prepared_content ct" where
  "prepare_file X src output_dir part_len =
     bindE (ensure (part_len \<noteq> 0 \<and> part_len \<le> MAX_PART_BYTES) Invalid_Part_Size) (\<lambda>_.
     bindE (ct_io (sys_open_read (place src))) (\<lambda>reader.
     bindE (ct_io (sys_len reader)) (\<lambda>n.
     bindE (ensure (max (div_ceil n part_len) 1 \<le> MAX_CONTENT_PARTS) Too_Many_Parts) (\<lambda>_.
     bindE (ct_io (create_dir_all (place output_dir))) (\<lambda>_.
     bindE (prepare_loop X output_dir part_len reader [] 0 [] 0) (\<lambda>(hashed, content_size, parts).
     ret \<lparr>pc_content_size = content_size, pc_content_blake3 = blake3_hex X hashed, pc_parts = parts\<rparr>))))))"

section \<open>restore_file\<close>

text \<open>\<open>Path::with_extension\<close>: the text after the last dot of the file name is replaced.\<close>

definition file_stem :: "string \<Rightarrow> string" where
  "file_stem name = (let tail = takeWhile (\<lambda>c. c \<noteq> CHR ''.'') (rev name); n = length name - length tail in
     if n \<le> 1 then name else take (n - 1) name)"

definition with_extension :: "path \<Rightarrow> string \<Rightarrow> path" where
  "with_extension p ext = (case path_file_name p of
       None \<Rightarrow> p
     | Some name \<Rightarrow> butlast p @ [Normal (file_stem name @ ''.'' @ ext)])"

definition restore_body :: "nat \<Rightarrow> bytes \<Rightarrow> bytes \<times> u64 \<Rightarrow> (fs, content_error, unit + bytes \<times> u64) sem" where
  "restore_body out chunk acc = (case acc of (hashed, sz) \<Rightarrow>
     bindE (ct_io (sys_write out chunk)) (\<lambda>_.
     ret (Inr (hashed @ chunk, sz + word_of_nat (length chunk)))))"

text \<open>The closure of \<open>restore_file\<close>; what there is to read is fixed once the temporary file is created.\<close>

definition restore_operation :: "externals \<Rightarrow> node \<Rightarrow> path \<Rightarrow> u64 \<Rightarrow> string \<Rightarrow> unit ct" where
  "restore_operation X input temporary expected_size expected_blake3 =
     bindE (ct_io (sys_create (place temporary))) (\<lambda>out.
     bindE (case input of
         Reg i \<Rightarrow> bindE (gets (\<lambda>s. fs_data s i)) (\<lambda>content.
           read_loop Io (1024 * 1024) (restore_body out) content ([], 0))
       | _ \<Rightarrow> ct_io (syscall (fail OtherIo))) (\<lambda>r. case r of
       Inl _ \<Rightarrow> fail Integrity
     | Inr (hashed, sz) \<Rightarrow>
         bindE (ensure (sz = expected_size \<and> blake3_hex X hashed = expected_blake3) Integrity) (\<lambda>_.
         ct_io sys_fsync)))"

definition restore_file :: "externals \<Rightarrow> path \<Rightarrow> path \<Rightarrow> u64 \<Rightarrow> string \<Rightarrow> unit ct" where
  "restore_file X downloaded output expected_size expected_blake3 =
     bindE (ct_io (sys_open_read (place downloaded))) (\<lambda>input.
     (let temporary = with_extension output ''media-backup.tmp'' in
     bindE (attempt (restore_operation X input temporary expected_size expected_blake3)) (\<lambda>operation.
     case operation of
       Inr _ \<Rightarrow> ct_io (sys_rename (place temporary) (place output))
     | Inl e \<Rightarrow> bindE (attempt (sys_unlink (place temporary))) (\<lambda>_. fail e))))"

end
