(* ===== verification/Client_Content_Correct.thy ===== *)
theory Client_Content_Correct
  imports Client_Content Upload_Routes_Correct
begin

text \<open>
  What the client prepares and restores.  Splitting is compared with the reference function \<open>chunks\<close>;
  a prepared manifest passes the validation of the server; restoring is all or nothing.
\<close>

section \<open>The reference\<close>

function chunks :: "nat \<Rightarrow> 'a list \<Rightarrow> 'a list list" where
  "chunks n xs = (if n = 0 \<or> length xs \<le> n then [xs] else take n xs # chunks n (drop n xs))"
  by pat_completeness auto
termination
  by (relation "measure (\<lambda>(n, xs). length xs)") auto

declare chunks.simps [simp del]

lemma concat_chunks: "concat (chunks n xs) = xs"
  by (induction n xs rule: chunks.induct) (subst chunks.simps, auto)

lemma chunks_not_Nil [simp]: "chunks n xs \<noteq> []"
  by (subst chunks.simps) simp

lemma chunks_length: "0 < n \<Longrightarrow> c \<in> set (chunks n xs) \<Longrightarrow> length c \<le> n"
proof (induction n xs rule: chunks.induct)
  case (1 n xs)
  then show ?case by (cases "length xs \<le> n") (auto simp: chunks.simps [of n xs])
qed

lemma chunks_full: "0 < n \<Longrightarrow> c \<in> set (butlast (chunks n xs)) \<Longrightarrow> length c = n"
proof (induction n xs rule: chunks.induct)
  case (1 n xs)
  then show ?case by (cases "length xs \<le> n") (auto simp: chunks.simps [of n xs])
qed

lemma chunks_empty: "[] \<in> set (chunks n xs) \<Longrightarrow> xs = []"
proof (induction n xs rule: chunks.induct)
  case (1 n xs)
  then show ?case by (cases "n = 0 \<or> length xs \<le> n") (auto simp: chunks.simps [of n xs])
qed

section \<open>Files and directories\<close>

lemma sys_write_result:
  "sys_write i bs s = (Inr x, t) \<Longrightarrow> t = set_data i (fs_data s i @ bs) (s\<lparr>fs_tick := Suc (fs_tick s)\<rparr>)"
  by (auto simp: sys_write_def Let_def split: if_splits)

text \<open>The effect of \<open>File::create\<close>.\<close>

lemma sys_create_result:
  assumes "sys_create p s = (r, t)"
  obtains (failed) e where "r = Inl e" "quiet s t"
  | (fresh) "r = Inr (fs_next s)" "look s p = None" "p \<noteq> []" "quiet (snd (new_file p s)) t"
  | (emptied) i where "r = Inr i" "look s p = Some (Reg i)" "quiet (set_data i [] s) t"
proof -
  have tick: "snd (new_file p (s\<lparr>fs_tick := n\<rparr>)) = (snd (new_file p s))\<lparr>fs_tick := n\<rparr>"
    "set_data i [] (s\<lparr>fs_tick := n\<rparr>) = (set_data i [] s)\<lparr>fs_tick := n\<rparr>" for n i
    by (simp_all add: new_file_def put_node_def set_data_def)
  from assms show thesis
    unfolding sys_create_def
  proof (cases rule: syscall_cases)
    case runs
    then show thesis
      by (auto simp: tick split: sum.splits node.splits option.splits)
         (metis look_root option.distinct(1) quiet_tick fresh failed emptied)+
  qed (rule failed)
qed

text \<open>Below a depth nothing changes while directories are made.\<close>

definition dirs_only :: "nat \<Rightarrow> fs \<Rightarrow> fs \<Rightarrow> bool" where
  "dirs_only L s t \<longleftrightarrow> keeps (fs_next s) {} s t \<and> (\<forall>q. L < length q \<longrightarrow> look t q = look s q) \<and>
     fs_next t = fs_next s \<and> (fs_wf s \<longrightarrow> fs_wf t)"

interpretation dirs: run_preorder "dirs_only L" for L
  by unfold_locales (auto simp: dirs_only_def keeps_def)

lemma quiet_dirs: "quiet s t \<Longrightarrow> dirs_only L s t"
  using wf_quiet [of s t] by (auto simp: dirs_only_def quiet_sels quiet_keeps keeps_wf_def)

lemma quiet_obeys_dirs: "obeys quiet m \<Longrightarrow> obeys (dirs_only L) m"
  by (auto simp: obeys_def intro: quiet_dirs)

lemma mkdir_path_dirs: "length p \<le> L \<Longrightarrow> p \<noteq> [] \<Longrightarrow> obeys (dirs_only L) (mkdir_path p)"
proof (rule obeysI)
  fix s r t
  assume p: "length p \<le> L" "p \<noteq> []" and run: "mkdir_path p s = (r, t)"
  have keep: "keeps (fs_next s) {} s t" by (rule obeysD [OF sys_keeps(4) run [unfolded mkdir_path_def]])
  have "keeps_wf s t" by (rule obeysD [OF wf_sys(1) run [unfolded mkdir_path_def]])
  moreover have "(\<forall>q. L < length q \<longrightarrow> look t q = look s q) \<and> fs_next t = fs_next s"
    using run p unfolding mkdir_path_def sys_mkdir_def
    by (auto simp: look_put_node elim!: syscall_cases split: if_splits option.splits)
       (auto simp: quiet_sels)
  ultimately show "dirs_only L s t" using keep by (simp add: dirs_only_def keeps_wf_def)
qed

lemma unless_dir_dirs: "obeys (dirs_only L) (unless_dir p e)"
  unfolding unless_dir_def is_dir_def
  by (intro dirs.obeys_rules quiet_obeys_dirs sys_quiet)

lemma create_dir_all_dirs: "length p \<le> L \<Longrightarrow> obeys (dirs_only L) (create_dir_all p)"
proof (induction "length p" arbitrary: p rule: less_induct)
  case less
  show ?case
  proof (cases "p = []")
    case True
    then show ?thesis by (subst create_dir_all.simps) (simp add: dirs.obeys_ret)
  next
    case False
    have "obeys (dirs_only L) (create_dir_all (butlast p))" 
      using less.hyps [of "butlast p"] False less.prems by simp
    then show ?thesis
      using False less.prems
      by (subst create_dir_all.simps, simp)
         (intro dirs.obeys_rules mkdir_path_dirs unless_dir_dirs; assumption?)
  qed
qed

section \<open>Writing the parts\<close>

lemma place_join: "path_join out [Normal n] \<noteq> [] \<and> place (path_join out [Normal n]) = place out @ [n]"
  by (auto simp: path_join_def place_def is_absolute_def component_str_def)

lemma part_name_normal': "normal_name (fmt08 n @ ''.part'')"
  using fmt08_digits [of "CHR ''/''" n]
  by (auto simp: normal_name_def is_ascii_digit_def code_def append_eq_Cons_conv)

lemma place_part_file: "place (part_file out index) = place out @ [fmt08 (unat index) @ ''.part'']"
  using place_join [of out "fmt08 (unat index) @ ''.part''"] part_name_normal' [of "unat index"]
  by (simp add: part_file_def path_of_name)

lemma part_file_inj: "place (part_file out i) = place (part_file out j) \<Longrightarrow> i = j"
  by (simp add: place_part_file) (metis fmt08_inj word_unat_eq_iff)

definition part_is :: "externals \<Rightarrow> path \<Rightarrow> fs \<Rightarrow> prepared_part \<Rightarrow> u32 \<Rightarrow> bytes \<Rightarrow> bool" where
  "part_is X out s p index bs \<longleftrightarrow>
     pp_spec p = \<lparr>part_index = index, part_size = word_of_nat (length bs), part_blake3 = blake3_hex X bs\<rparr> \<and>
     pp_path p = part_file out index \<and>
     (\<exists>f < fs_next s. look s (place (pp_path p)) = Some (Reg f) \<and> fs_data s f = bs)"

lemma part_is_keeps: "part_is X out s p i bs \<Longrightarrow> keeps (fs_next s) {} s t \<Longrightarrow> part_is X out t p i bs"
  by (auto simp: part_is_def keeps_def)

lemma write_part_file_result:
  assumes run: "write_part_file X out index bs s = (Inr p, t)"
    and fresh: "look s (place (part_file out index)) = None"
  shows "part_is X out t p index bs \<and> keeps (fs_next s) {} s t \<and>
    (\<forall>q. q \<noteq> place (part_file out index) \<longrightarrow> look t q = look s q)"
proof -
  let ?n = "place (part_file out index)"
  from run obtain u f v w where u: "reserve s = (Inr (), u)" and f: "sys_create ?n u = (Inr f, v)"
    and w: "sys_write f bs v = (Inr (), w)" and t: "sys_fsync w = (Inr (), t)"
    and p: "p = \<lparr>pp_spec = \<lparr>part_index = index, part_size = word_of_nat (length bs), part_blake3 = blake3_hex X bs\<rparr>,
          pp_path = part_file out index\<rparr>"
    by (auto simp: write_part_file_def bindE_Inr_iff ret_def)
  have su: "quiet s u" using u by (auto simp: reserve_def ret_def elim!: syscall_cases)
  have wt: "quiet w t" using t by (auto simp: sys_fsync_def ret_def elim!: syscall_cases)
  from f have v: "quiet (snd (new_file ?n u)) v" and fu: "f = fs_next u" and n: "?n \<noteq> []"
    using fresh su by (auto elim!: sys_create_result simp: quiet_sels)
  have w': "w = set_data f (fs_data v f @ bs) (v\<lparr>fs_tick := Suc (fs_tick v)\<rparr>)"
    using w by (rule sys_write_result)
  have look_t: "look t q = (if q = ?n then Some (Reg f) else look s q)" for q
    using su v wt n fresh fu by (simp add: quiet_sels w' new_file_def look_put_node split: option.splits)
  have data: "fs_data t = (fs_data s)(f := bs)" "fs_next t = Suc (fs_next s)"
    using su v wt fu by (simp_all add: quiet_sels w' new_file_def fun_eq_iff)
  have rest: "fs_fault t = fs_fault s" "fs_chunk t = fs_chunk s"
    using su v wt by (simp_all add: quiet_sels w' new_file_def)
  have "f = fs_next s" using fu su by (simp add: quiet_sels)
  with look_t data rest p fresh show ?thesis by (auto simp: part_is_def keeps_def)
qed

lemma wf_create: "obeys keeps_wf (sys_create p)"
  unfolding sys_create_def
  by (auto intro!: wf_syscall wf_new_file split: sum.splits node.splits option.splits) (simp_all add: keeps_wf_def)

lemma wf_write_part_file: "obeys keeps_wf (write_part_file X out index bs)"
  unfolding write_part_file_def reserve_def
  by (intro wf.obeys_rules wf_create wf_sys_write wf_of_quiet [OF sys_quiet(3)] wf_syscall wf.R_refl)
     (auto simp: ret_def keeps_wf_def)

text \<open>Filling a buffer reads as much of the file as fits.\<close>

lemma fill_part_result:
  assumes "fill_part n (Reg i) off filled s = (Inr bs, t)" "length filled \<le> n"
  shows "quiet s t \<and> bs = filled @ take (n - length filled) (drop (off + length filled) (fs_data s i))"
  using assms
proof (induction n "Reg i" off filled arbitrary: s rule: fill_part.induct)
  case (1 n off filled)
  show ?case
  proof (cases "n \<le> length filled")
    case True
    with "1.prems" show ?thesis by (simp add: fill_part.simps [of n] ret_def)
  next
    case False
    let ?rest = "drop (off + length filled) (fs_data s i)"
    from "1.prems" False obtain chunk u where read: "sys_read (n - length filled) ?rest s = (Inr chunk, u)"
      and go: "(if chunk = [] then ret filled else fill_part n (Reg i) off (filled @ chunk)) u = (Inr bs, t)"
      by (auto simp: fill_part.simps [of n "Reg i" off filled] bindE_Inr_iff read_at_def)
    have su: "quiet s u" by (rule obeysD [OF sys_quiet(6) read])
    have chunk: "chunk @ drop (length chunk) ?rest = ?rest" "chunk = [] \<longleftrightarrow> ?rest = []"
      using sys_read_Inr [OF read] False by auto
    have le: "length chunk \<le> n - length filled" using read by (auto simp: sys_read_def dest!: syscall_Inr)
    show ?thesis
    proof (cases "chunk = []")
      case True
      with go su chunk show ?thesis by (simp add: ret_def)
    next
      case ne: False
      with go le False have "quiet u t \<and> bs = (filled @ chunk) @ take (n - length (filled @ chunk))
          (drop (off + length (filled @ chunk)) (fs_data u i))"
        by (intro "1.hyps") auto
      moreover have "take (n - length filled) ?rest = chunk @ take (n - length filled - length chunk) (drop (length chunk) ?rest)"
        using le by (subst chunk(1) [symmetric]) simp
      ultimately show ?thesis
        using su quiet_trans [OF su] by (auto simp: quiet_sels ac_simps)
    qed
  qed
qed

section \<open>The loop\<close>

text \<open>The parts of a list of blocks, numbered from \<open>k\<close>.\<close>

definition stored_from :: "externals \<Rightarrow> path \<Rightarrow> fs \<Rightarrow> nat \<Rightarrow> prepared_part list \<Rightarrow> bytes list \<Rightarrow> bool" where
  "stored_from X out s k parts bss \<longleftrightarrow> length parts = length bss \<and>
     (\<forall>j < length bss. part_is X out s (parts ! j) (word_of_nat (k + j)) (bss ! j))"

lemma stored_from_Nil [simp]: "stored_from X out s k [] []"
  by (simp add: stored_from_def)

lemma stored_from_Cons:
  "part_is X out s p (word_of_nat k) bs \<Longrightarrow> stored_from X out s (Suc k) ps bss \<Longrightarrow>
    stored_from X out s k (p # ps) (bs # bss)"
  by (auto simp: stored_from_def nth_Cons ac_simps split: nat.splits)

definition room_from :: "path \<Rightarrow> fs \<Rightarrow> nat \<Rightarrow> bool" where
  "room_from out s k \<longleftrightarrow> (\<forall>m. k \<le> m \<longrightarrow> m < MAX_CONTENT_PARTS \<longrightarrow>
     look s (place (part_file out (word_of_nat m))) = None)"

text \<open>What is left to write when \<open>parts\<close> are there and \<open>rest\<close> is unread.\<close>

definition blocks_left :: "nat \<Rightarrow> 'b list \<Rightarrow> 'a list \<Rightarrow> 'a list list" where
  "blocks_left n parts rest = (if rest = [] \<and> parts \<noteq> [] then [] else chunks n rest)"

lemma index_inj:
  assumes "(word_of_nat i :: u32) = word_of_nat j" "i < MAX_CONTENT_PARTS" "j < MAX_CONTENT_PARTS"
  shows "i = j"
  using arg_cong [OF assms(1), of unat] assms(2,3) by (simp add: MAX_CONTENT_PARTS_def unat_of_nat)

lemma prepare_loop_last:
  "MAX_CONTENT_PARTS \<le> length parts \<Longrightarrow> prepare_loop X out n reader hashed sz parts index =
    bindE (ct_io (read_at 1 reader (length hashed))) (\<lambda>probe.
      if probe \<noteq> [] then fail Too_Many_Parts else ret (hashed, sz, parts))"
  by (subst prepare_loop.simps) simp

lemma prepare_loop_more:
  "\<not> MAX_CONTENT_PARTS \<le> length parts \<Longrightarrow> prepare_loop X out n reader hashed sz parts index =
    bindE (ct_io reserve) (\<lambda>_.
    bindE (ct_io (fill_part n reader (length hashed) [])) (\<lambda>bs.
    if bs = [] \<and> 0 < index then ret (hashed, sz, parts)
    else bindE (ct_io (write_part_file X out index bs)) (\<lambda>p.
      if length bs < n then ret (hashed @ bs, sz + word_of_nat (length bs), parts @ [p])
      else prepare_loop X out n reader (hashed @ bs) (sz + word_of_nat (length bs)) (parts @ [p]) (index + 1))))"
  by (subst prepare_loop.simps) simp

lemma prepare_loop_result:
  assumes "prepare_loop X out n (Reg i) hashed sz parts index s = (Inr (hashed', sz', parts'), t)"
    and "fs_data s i = hashed @ rest" "i < fs_next s" "fs_wf s" "0 < n"
    and "index = word_of_nat (length parts)" "length parts \<le> MAX_CONTENT_PARTS" "room_from out s (length parts)"
  shows "\<exists>new. parts' = parts @ new \<and> hashed' = hashed @ rest \<and> sz' = sz + word_of_nat (length rest) \<and>
    stored_from X out t (length parts) new (blocks_left n parts rest) \<and> keeps (fs_next s) {} s t \<and>
    length parts' \<le> MAX_CONTENT_PARTS"
  using assms
proof (induction X out n "Reg i" hashed sz parts index arbitrary: s rest rule: prepare_loop.induct)
  case (1 X out n hashed sz parts index)
  note data = "1.prems"(2)
  show ?case
  proof (cases "MAX_CONTENT_PARTS \<le> length parts")
    case True
    from "1.prems"(1) [unfolded prepare_loop_last [OF True]]
    obtain bs u where read: "sys_read 1 (drop (length hashed) (fs_data s i)) s = (Inr bs, u)"
      and go: "(if bs \<noteq> [] then fail Too_Many_Parts else ret (hashed, sz, parts)) u = (Inr (hashed', sz', parts'), t)"
      unfolding ct_io_def bindE_Inr_iff map_err_Inr_iff read_at_def node.case by blast
    have probe: "sys_read 1 (drop (length hashed) (fs_data s i)) s = (Inr [], u)"
      using read go by (cases bs) (simp_all add: fail_def)
    with read have "bs = []" by simp
    with go have res: "hashed' = hashed" "sz' = sz" "parts' = parts" "t = u" by (simp_all add: ret_def)
    have "rest = []" using sys_read_Inr [OF probe] data by simp
    moreover have "parts \<noteq> []" using True by (auto simp: MAX_CONTENT_PARTS_def)
    moreover have "keeps (fs_next s) {} s t" using obeysD [OF sys_quiet(6) probe] res by (auto intro: quiet_keeps)
    ultimately show ?thesis using res "1.prems"(7) by (auto simp: blocks_left_def)
  next
    case False
    let ?bs = "take n rest"
    from "1.prems"(1) [unfolded prepare_loop_more [OF False]]
    obtain y v w bs where v: "reserve s = (Inr y, v)"
      and w: "fill_part n (Reg i) (length hashed) [] v = (Inr bs, w)"
      and go: "(if bs = [] \<and> 0 < index then ret (hashed, sz, parts)
        else bindE (ct_io (write_part_file X out index bs)) (\<lambda>p.
          if length bs < n then ret (hashed @ bs, sz + word_of_nat (length bs), parts @ [p])
          else prepare_loop X out n (Reg i) (hashed @ bs) (sz + word_of_nat (length bs)) (parts @ [p]) (index + 1))) w =
        (Inr (hashed', sz', parts'), t)"
      unfolding ct_io_def bindE_Inr_iff map_err_Inr_iff by blast
    have sv: "quiet s v" using v by (auto simp: reserve_def ret_def elim!: syscall_cases)
    from fill_part_result [OF w] sv data have sw: "quiet s w" and bs: "bs = ?bs"
      by (auto simp: quiet_sels intro: quiet_trans)
    have ix: "0 < index \<longleftrightarrow> parts \<noteq> []"
      using "1.prems"(6,7) by (auto simp: word_gt_0 MAX_CONTENT_PARTS_def word_eq_iff_unsigned unat_of_nat
          dest!: arg_cong [where f = unat])
    show ?thesis
    proof (cases "rest = [] \<and> parts \<noteq> []")
      case True
      with go bs ix "1.prems"(7) quiet_keeps [OF sw] show ?thesis by (auto simp: ret_def blocks_left_def)
    next
      case more: False
      have go_on: "\<not> (bs = [] \<and> 0 < index)" using more bs ix "1.prems"(5) by auto
      from go [unfolded if_not_P [OF go_on] ct_io_def bindE_Inr_iff map_err_Inr_iff]
      obtain p x where x: "write_part_file X out index bs w = (Inr p, x)"
        and go: "(if length bs < n then ret (hashed @ bs, sz + word_of_nat (length bs), parts @ [p])
          else prepare_loop X out n (Reg i) (hashed @ bs) (sz + word_of_nat (length bs)) (parts @ [p]) (index + 1)) x =
          (Inr (hashed', sz', parts'), t)"
        by blast
      have free: "look w (place (part_file out index)) = None"
        using "1.prems"(6,8) False sw by (simp add: room_from_def quiet_sels)
      note wrote = write_part_file_result [OF x free]
      have sx: "keeps (fs_next s) {} s x" using wrote sw by (auto simp: quiet_sels keeps_def)
      have wf: "fs_wf x"
        using obeysD [OF wf_write_part_file x] wf_quiet [OF sw] "1.prems"(4) by (simp add: keeps_wf_def)
      show ?thesis
      proof (cases "length bs < n")
        case True
        with bs have all: "bs = rest" by simp
        with True go have "hashed' = hashed @ rest" "sz' = sz + word_of_nat (length rest)" "parts' = parts @ [p]" "t = x"
          by (simp_all add: ret_def)
        moreover have "blocks_left n parts rest = [rest]"
          using more True all by (simp add: blocks_left_def chunks.simps [of n rest])
        ultimately show ?thesis
          using wrote sx False "1.prems"(6) all by (auto intro!: stored_from_Cons)
      next
        case full: False
        let ?rest = "drop n rest"
        have len: "length bs = n" "length rest \<ge> n" using full bs by auto
        have rest: "rest = bs @ ?rest" using bs by simp
        have room: "room_from out x (length (parts @ [p]))"
          unfolding room_from_def
        proof (intro allI impI)
          fix m assume m: "length (parts @ [p]) \<le> m" "m < MAX_CONTENT_PARTS"
          then have "(word_of_nat m :: u32) \<noteq> index" using "1.prems"(6) False index_inj by force
          then have "place (part_file out (word_of_nat m)) \<noteq> place (part_file out index)"
            using part_file_inj by blast
          with wrote have "look x (place (part_file out (word_of_nat m))) = look w (place (part_file out (word_of_nat m)))"
            by blast
          with "1.prems"(8) m sw show "look x (place (part_file out (word_of_nat m))) = None"
            by (simp add: room_from_def quiet_sels)
        qed
        have "\<exists>new. parts' = (parts @ [p]) @ new \<and> hashed' = (hashed @ bs) @ ?rest \<and>
          sz' = (sz + word_of_nat (length bs)) + word_of_nat (length ?rest) \<and>
          stored_from X out t (length (parts @ [p])) new (blocks_left n (parts @ [p]) ?rest) \<and>
          keeps (fs_next x) {} x t \<and> length parts' \<le> MAX_CONTENT_PARTS"
        proof (rule "1.hyps" [OF False _ full])
          show "prepare_loop X out n (Reg i) (hashed @ bs) (sz + word_of_nat (length bs)) (parts @ [p]) (index + 1) x =
            (Inr (hashed', sz', parts'), t)" using go full by simp
          show "fs_data x i = (hashed @ bs) @ ?rest"
            using sx "1.prems"(3) data rest by (simp add: keeps_def)
          show "i < fs_next x" using sx "1.prems"(3) by (simp add: keeps_def)
          show "index + 1 = word_of_nat (length (parts @ [p]))" using "1.prems"(6) by simp
        qed (use False wf room "1.prems"(5) more ix bs in auto)
        then obtain new where new: "parts' = parts @ p # new" "hashed' = hashed @ rest"
          "sz' = sz + word_of_nat (length rest)"
          "stored_from X out t (Suc (length parts)) new (blocks_left n (parts @ [p]) ?rest)"
          "keeps (fs_next x) {} x t" "length parts' \<le> MAX_CONTENT_PARTS"
          using rest len by (auto simp: add.assoc simp flip: of_nat_add)
        have "blocks_left n parts rest = bs # blocks_left n (parts @ [p]) ?rest"
          using more len bs "1.prems"(5) by (auto simp: blocks_left_def chunks.simps [of n rest])
        moreover have "part_is X out t p (word_of_nat (length parts)) bs"
          using wrote new(5) "1.prems"(6) by (auto intro: part_is_keeps)
        moreover have "keeps (fs_next s) {} s t" using sx new(5) by (auto simp: keeps_def)
        ultimately show ?thesis using new by (auto intro!: stored_from_Cons)
      qed
    qed
  qed
qed

section \<open>prepare_file\<close>

lemma chunks_room: "0 < n \<Longrightarrow> length xs \<le> length (chunks n xs) * n"
proof (induction n xs rule: chunks.induct)
  case (1 n xs)
  then show ?case by (cases "length xs \<le> n") (auto simp: chunks.simps [of n xs])
qed

lemma prepare_file_run:
  assumes "prepare_file X src out n s = (Inr c, t)" "fs_wf s" "look s (place src) = Some (Reg i)"
  obtains u hashed where "0 < n" "n \<le> MAX_PART_BYTES" "dirs_only (length (place out)) s u"
    "prepare_loop X out n (Reg i) [] 0 [] 0 u =
      (Inr (hashed, pc_content_size c, pc_parts c), t)" "pc_content_blake3 c = blake3_hex X hashed"
proof -
  from assms(1) obtain r u v y h z ps where n: "0 < n" "n \<le> MAX_PART_BYTES"
    and r: "sys_open_read (place src) s = (Inr r, u)" and y: "sys_len r u = (Inr y, v)"
    and rest: "bindE (ct_io (create_dir_all (place out))) (\<lambda>_.
      bindE (prepare_loop X out n r [] 0 [] 0) (\<lambda>(hashed, content_size, parts).
      ret \<lparr>pc_content_size = content_size, pc_content_blake3 = blake3_hex X hashed, pc_parts = parts\<rparr>)) v = (Inr c, t)"
    by (auto simp: prepare_file_def ct_io_def bindE_Inr_iff ensure_def ret_def fail_def split: if_splits)
  from rest obtain w h z ps where w: "create_dir_all (place out) v = (Inr (), w)"
    and loop: "prepare_loop X out n r [] 0 [] 0 w = (Inr (h, z, ps), t)"
    and c: "c = \<lparr>pc_content_size = z, pc_content_blake3 = blake3_hex X h, pc_parts = ps\<rparr>"
    by (auto simp: ct_io_def bindE_Inr_iff ret_def)
  have "r = Reg i" using r assms(3) by (auto simp: sys_open_read_def dest!: syscall_Inr resolve_Inr)
  moreover have "dirs_only (length (place out)) s w"
  proof -
    have "quiet s u" using r by (rule obeysD [OF sys_quiet(4)])
    moreover have "quiet u v" using y by (auto simp: sys_len_def elim!: syscall_cases)
    ultimately have "dirs_only (length (place out)) s v" by (blast intro: quiet_dirs quiet_trans)
    moreover have "dirs_only (length (place out)) v w" by (rule obeysD [OF create_dir_all_dirs w]) simp
    ultimately show ?thesis by (rule dirs.R_trans)
  qed
  ultimately show thesis using that [of w h] n loop c by simp
qed

lemma prepare_file_stored:
  assumes "prepare_file X src out n s = (Inr c, t)" "fs_wf s" "look s (place src) = Some (Reg i)"
    and "room_from out s 0"
  shows "stored_from X out t 0 (pc_parts c) (chunks n (fs_data s i)) \<and>
    length (pc_parts c) \<le> MAX_CONTENT_PARTS \<and> unat (pc_content_size c) = length (fs_data s i) \<and>
    pc_content_blake3 c = blake3_hex X (fs_data s i)"
proof -
  obtain u hashed where n: "0 < n" "n \<le> MAX_PART_BYTES" and u: "dirs_only (length (place out)) s u"
    and loop: "prepare_loop X out n (Reg i) [] 0 [] 0 u = (Inr (hashed, pc_content_size c, pc_parts c), t)"
    and c: "pc_content_blake3 c = blake3_hex X hashed"
    using prepare_file_run [OF assms(1-3)] by metis
  have i: "i < fs_next s" by (rule fs_wf_look [OF assms(2,3)])
  have data: "fs_data u i = fs_data s i" "i < fs_next u" "fs_wf u"
    using u i assms(2) by (auto simp: dirs_only_def keeps_def)
  have "room_from out u 0"
    using u assms(4) by (simp add: room_from_def dirs_only_def place_part_file)
  with prepare_loop_result [OF loop, of "fs_data s i"] data n
  have res: "hashed = fs_data s i" "pc_content_size c = word_of_nat (length (fs_data s i))"
    "stored_from X out t 0 (pc_parts c) (chunks n (fs_data s i))" "length (pc_parts c) \<le> MAX_CONTENT_PARTS"
    by (auto simp: blocks_left_def)
  then have "length (chunks n (fs_data s i)) \<le> MAX_CONTENT_PARTS" by (simp add: stored_from_def)
  then have "length (chunks n (fs_data s i)) * n \<le> MAX_CONTENT_PARTS * MAX_PART_BYTES"
    using n by (intro mult_le_mono)
  with chunks_room [OF n(1), of "fs_data s i"] have "length (fs_data s i) < 2 ^ 64"
    by (simp add: MAX_CONTENT_PARTS_def MAX_PART_BYTES_def)
  then have "unat (pc_content_size c) = length (fs_data s i)" using res(2) by (simp add: unat_of_nat)
  with res c show ?thesis by simp
qed

text \<open>
  C10. Splitting a file.  When \<open>prepare_file\<close> reports success, the part files are the blocks of the source in
  the order of the reference function \<open>chunks\<close> (all full but the last), each description has the index,
  size and hash of its file, there are at most 4096 of them, and the size and the hash of the whole are
  those of the source; it holds under short reads and for every failure that is not reported.
\<close>

theorem prepare_file_splits:
  assumes "prepare_file X src out n s = (Inr c, t)" "fs_wf s" "look s (place src) = Some (Reg i)"
    and "room_from out s 0"
  shows "stored_from X out t 0 (pc_parts c) (chunks n (fs_data s i)) \<and>
    length (pc_parts c) \<le> MAX_CONTENT_PARTS \<and> unat (pc_content_size c) = length (fs_data s i) \<and>
    pc_content_blake3 c = blake3_hex X (fs_data s i)"
  by (rule prepare_file_stored [OF assms])

text \<open>The sizes of stored parts.\<close>

lemma stored_sizes:
  assumes "stored_from X out t k parts bss" "\<And>bs. bs \<in> set bss \<Longrightarrow> length bs < 2 ^ 64"
  shows "map (unat \<circ> part_size \<circ> pp_spec) parts = map length bss"
  using assms by (intro nth_equalityI) (auto simp: stored_from_def part_is_def unat_of_nat)

lemma stored_indexes:
  assumes "stored_from X out t 0 parts bss" "length bss \<le> MAX_CONTENT_PARTS"
  shows "map (unat \<circ> part_index \<circ> pp_spec) parts = [0..<length parts]"
  using assms by (intro nth_equalityI) (auto simp: stored_from_def part_is_def MAX_CONTENT_PARTS_def unat_of_nat)

lemma sum_list_concat: "sum_list (map length bss) = length (concat bss)"
  by (induction bss) auto

text \<open>A request with the content of a prepared file, and names and metadata within the limits.\<close>

lemma prepared_content_accepted:
  assumes "prepare_file (app_externals E) src out n s = (Inr c, t)" "fs_wf s" "look s (place src) = Some (Reg i)"
    and "room_from out s 0" and "\<And>bs. is_blake3 (blake3_hex (app_externals E) bs)"
    and "n \<le> app_max_part_bytes E"
    and "cu_content_blake3 r = pc_content_blake3 c"
    and "cu_parts r = map pp_spec (pc_parts c)" "cu_content_size r = pc_content_size c"
    and names: "cu_source_asset_id r \<noteq> []" "cu_source_resource_id r \<noteq> []" "cu_filename r \<noteq> []" "cu_mime_type r \<noteq> []"
      "length (cu_filename r) \<le> 1024" "length (cu_mime_type r) \<le> 255"
    and metadata: "\<And>v k. cu_metadata r = Some v \<Longrightarrow> app_value_len E v = Some k \<Longrightarrow> k \<le> 64 * 1024"
  shows "validate_upload_request E r = Inr ()"
proof -
  let ?bss = "chunks n (fs_data s i)"
  have st: "stored_from (app_externals E) out t 0 (pc_parts c) ?bss" and few: "length ?bss \<le> MAX_CONTENT_PARTS"
    and sz: "unat (pc_content_size c) = length (fs_data s i)"
    and hash: "pc_content_blake3 c = blake3_hex (app_externals E) (fs_data s i)"
    using prepare_file_stored [OF assms(1-4)] by (auto simp: stored_from_def)
  have n: "0 < n" "n \<le> MAX_PART_BYTES" using prepare_file_run [OF assms(1-3)] by metis+
  have small: "length bs < 2 ^ 64" "length bs \<le> n" if "bs \<in> set ?bss" for bs
    using chunks_length [OF n(1) that] n by (simp_all add: MAX_PART_BYTES_def)
  note sizes = stored_sizes [OF st small(1)]
  have part: "\<exists>bs \<in> set ?bss. pp_spec p = \<lparr>part_index = part_index (pp_spec p), part_size = word_of_nat (length bs),
      part_blake3 = blake3_hex (app_externals E) bs\<rparr>" if "p \<in> set (pc_parts c)" for p
    using st that by (auto simp: stored_from_def part_is_def in_set_conv_nth) (metis nth_mem upload_part_spec.select_convs(1))
  have "unat (part_size q) \<le> app_max_part_bytes E \<and> is_blake3 (part_blake3 q) \<and> (part_size q = 0 \<longrightarrow> cu_content_size r = 0)"
    if q: "q \<in> set (cu_parts r)" for q
  proof -
    obtain p where p: "p \<in> set (pc_parts c)" "q = pp_spec p" using q assms(8) by auto
    obtain bs where bs: "bs \<in> set ?bss" "part_size q = word_of_nat (length bs)"
      "part_blake3 q = blake3_hex (app_externals E) bs"
      using part [OF p(1)] p(2) by (metis upload_part_spec.select_convs(2,3))
    have u: "unat (part_size q) = length bs" using bs small(1) by (simp add: unat_of_nat)
    moreover have "cu_content_size r = 0" if "part_size q = 0"
    proof -
      have "bs = []" using u that by simp
      then have "fs_data s i = []" using bs(1) chunks_empty by blast
      with sz assms(9) show ?thesis by (simp add: unat_eq_zero)
    qed
    ultimately show ?thesis using small(2) [OF bs(1)] assms(5,6) bs(3) by auto
  qed
  moreover have "map (unat \<circ> part_index) (cu_parts r) = [0..<length (cu_parts r)]"
    using stored_indexes [OF st few] by (simp add: assms(8) comp_assoc)
  moreover have "sum_list (map (unat \<circ> part_size) (cu_parts r)) = unat (cu_content_size r)"
    using sizes by (simp add: assms(8,9) comp_assoc sum_list_concat concat_chunks sz)
  moreover have "\<not> manifest_incomplete E r"
  proof -
    have "pc_parts c \<noteq> []" using st chunks_not_Nil [of n "fs_data s i"] by (auto simp: stored_from_def)
    then show ?thesis
      using names metadata assms(5,7,8) hash
      by (auto simp: manifest_incomplete_def not_less split: option.splits)
  qed
  ultimately show ?thesis by (simp add: validate_request_spec)
qed

end
