(* ===== verification/Client_Restore.thy ===== *)
theory Client_Restore
  imports Client_Content_Correct Upload_Examples
begin

text \<open>
  \<open>restore_file\<close> is all or nothing, and undoes what \<open>prepare_file\<close> and the server did to a file.
\<close>

section \<open>The temporary file\<close>

text \<open>The file of a name, if there is one, has no other name.\<close>

definition own_file :: "fs \<Rightarrow> string list \<Rightarrow> bool" where
  "own_file s p \<longleftrightarrow> (\<forall>k q. look s p = Some (Reg k) \<longrightarrow> look s q = Some (Reg k) \<longrightarrow> q = p)"

text \<open>\<^term>\<open>apart p s t\<close>: nothing but the file at \<open>p\<close> differs.\<close>

definition apart :: "string list \<Rightarrow> fs \<Rightarrow> fs \<Rightarrow> bool" where
  "apart p s t \<longleftrightarrow> (\<forall>q. q \<noteq> p \<longrightarrow> look t q = look s q) \<and>
     (\<forall>q k. q \<noteq> p \<longrightarrow> look s q = Some (Reg k) \<longrightarrow> fs_data t k = fs_data s k) \<and> fs_wf t"

lemma apart_quiet: "apart p s t \<Longrightarrow> quiet t u \<Longrightarrow> apart p s u"
  using wf_quiet [of t u] by (auto simp: apart_def quiet_sels keeps_wf_def)

lemma apart_refl: "fs_wf s \<Longrightarrow> apart p s s"
  by (simp add: apart_def)

lemma create_apart:
  assumes run: "sys_create p s = (r, t)" and "fs_wf s" "own_file s p"
  shows "apart p s t \<and> (\<forall>j. r = Inr j \<longrightarrow> p \<noteq> [] \<and> look t p = Some (Reg j) \<and> fs_data t j = [] \<and>
    (\<forall>q. q \<noteq> p \<longrightarrow> look t q \<noteq> Some (Reg j)))"
  using run
proof (cases rule: sys_create_result)
  case (failed e)
  then show ?thesis using apart_quiet [OF apart_refl [OF assms(2)]] by simp
next
  case fresh
  let ?u = "snd (new_file p s)"
  have look: "look ?u q = (if q = p then Some (Reg (fs_next s)) else look s q)" for q
    using fresh by (simp add: new_file_def look_put_node split: option.splits)
  have old: "look s q = Some (Reg k) \<Longrightarrow> k < fs_next s" for q k by (rule fs_wf_look [OF assms(2)])
  have "fs_wf ?u" using wf_new_file [of s p] assms(2) by (simp add: keeps_wf_def)
  moreover have "fs_data ?u k = fs_data s k" if "look s q = Some (Reg k)" for q k
    using old [OF that] by (simp add: new_file_def)
  ultimately have "apart p s ?u" by (simp add: apart_def look)
  then have "apart p s t" using fresh(4) by (rule apart_quiet)
  moreover have "look t q = (if q = p then Some (Reg (fs_next s)) else look s q)" "fs_data t = fs_data ?u" for q
    using quiet_sels(2,3) [OF fresh(4)] look by simp_all
  moreover have "fs_data ?u (fs_next s) = []" by (simp add: new_file_def)
  moreover have "look s q \<noteq> Some (Reg (fs_next s))" for q using old [of q "fs_next s"] by auto
  ultimately show ?thesis using fresh(1,3) by simp
next
  case (emptied i)
  have other: "look s q \<noteq> Some (Reg i)" if "q \<noteq> p" for q using assms(3) emptied(2) that unfolding own_file_def by blast
  have "apart p s (set_data i [] s)" using assms(2) other by (auto simp: apart_def)
  moreover have "p \<noteq> []" using emptied by auto
  ultimately show ?thesis using emptied(1,2) other quiet_sels(2,3) [OF emptied(3)] apart_quiet [OF _ emptied(3)]
    by simp
qed

text \<open>Writing to the temporary file.\<close>

definition own_inode :: "string list \<Rightarrow> nat \<Rightarrow> fs \<Rightarrow> bool" where
  "own_inode p j t \<longleftrightarrow> look t p = Some (Reg j) \<and> (\<forall>q. q \<noteq> p \<longrightarrow> look t q \<noteq> Some (Reg j))"

lemma own_quiet: "own_inode p j t \<Longrightarrow> quiet t u \<Longrightarrow> own_inode p j u"
  by (simp add: own_inode_def quiet_sels)

lemma write_apart:
  assumes "apart p s t" "own_inode p j t" "sys_write j bs t = (r, u)"
  shows "apart p s u \<and> own_inode p j u \<and> (r = Inr () \<longrightarrow> fs_data u j = fs_data t j @ bs)"
proof -
  obtain cs where u: "u = set_data j (fs_data t j @ cs) (t\<lparr>fs_tick := Suc (fs_tick t)\<rparr>)" "r = Inr () \<longrightarrow> cs = bs"
    using assms(3) by (auto simp: sys_write_def Let_def split: if_splits)
  have "look s q \<noteq> Some (Reg j)" if "q \<noteq> p" for q
    using assms(1,2) that by (auto simp: apart_def own_inode_def)
  then show ?thesis using assms(1,2) u by (auto simp: apart_def own_inode_def)
qed

text \<open>The copy: on success the temporary file holds what was read, and the hash state is that of it.\<close>

lemma restore_body_apart:
  assumes "restore_body j chunk (h, z) t = (r, u)" "apart p s t" "own_inode p j t"
  shows "apart p s u \<and> own_inode p j u \<and>
    (\<forall>x. r = Inr x \<longrightarrow> x = Inr (h @ chunk, z + word_of_nat (length chunk)) \<and> fs_data u j = fs_data t j @ chunk)"
proof -
  obtain q v where q: "sys_write j chunk t = (q, v)" by fastforce
  from write_apart [OF assms(2,3) q] assms(1) q show ?thesis
    by (cases q) (auto simp: restore_body_def ct_io_def bindE_def map_err_def ret_def)
qed

lemma restore_loop_apart:
  "obeys (\<lambda>t u. apart p s t \<and> own_inode p j t \<longrightarrow> apart p s u \<and> own_inode p j u) (read_loop Io cap (restore_body j) rest acc)"
proof (rule read_loop_obeys)
  show "run_preorder (\<lambda>t u. apart p s t \<and> own_inode p j t \<longrightarrow> apart p s u \<and> own_inode p j u)"
    by unfold_locales auto
  show "obeys (\<lambda>t u. apart p s t \<and> own_inode p j t \<longrightarrow> apart p s u \<and> own_inode p j u) (sys_read c r)" for c r
    using sys_quiet(6) [of c r]
    by (auto simp: obeys_def intro: apart_quiet own_quiet)
  show "obeys (\<lambda>t u. apart p s t \<and> own_inode p j t \<longrightarrow> apart p s u \<and> own_inode p j u) (restore_body j c a)" for c a
  proof (rule obeysI)
    fix t r u
    assume "restore_body j c a t = (r, u)"
    then show "apart p s t \<and> own_inode p j t \<longrightarrow> apart p s u \<and> own_inode p j u"
      using restore_body_apart [of j c "fst a" "snd a" t r u p s] by simp
  qed
qed

section \<open>restore_file\<close>

lemma restore_loop_content:
  assumes "read_loop Io (1024 * 1024) (restore_body j) content ([], 0) u = (Inr (Inr (h, z)), v)"
    and "apart p s u" "own_inode p j u" "fs_data u j = []"
  shows "apart p s v \<and> own_inode p j v \<and> h = content \<and> z = word_of_nat (length content) \<and> fs_data v j = content"
proof -
  let ?I = "\<lambda>xs (acc :: bytes \<times> u64) w. apart p s w \<and> own_inode p j w \<and> acc = (xs, word_of_nat (length xs)) \<and> fs_data w j = xs"
  have "?I ([] @ content) (h, z) v"
  proof (rule read_loop_invariant [OF assms(1)])
    show "?I [] ([], 0) u" using assms(2-4) by simp
    show "?I xs a w" if "?I xs a u" "quiet u w" for xs a u w
      using that by (auto simp: quiet_sels intro: apart_quiet own_quiet)
    fix xs c :: bytes and a a' :: "bytes \<times> u64" and u w :: fs
    assume I: "?I xs a u" "restore_body j c a u = (Inr (Inr a'), w)"
    then have "restore_body j c (xs, word_of_nat (length xs)) u = (Inr (Inr a'), w)" by simp
    from restore_body_apart [OF this] I show "?I (xs @ c) a' w" by auto
  qed simp
  then show ?thesis by simp
qed

lemma restore_operation_result:
  assumes run: "restore_operation X (Reg i) tmp sz h s = (r, t)" and "fs_wf s" "own_file s (place tmp)"
    and "look s d = Some (Reg i)" "d \<noteq> place tmp"
  shows "apart (place tmp) s t \<and> (\<forall>x. r = Inr x \<longrightarrow> (\<exists>j. own_inode (place tmp) j t \<and> fs_data t j = fs_data s i \<and>
    word_of_nat (length (fs_data s i)) = sz \<and> blake3_hex X (fs_data s i) = h))"
proof -
  let ?p = "place tmp"
  obtain q u where q: "sys_create ?p s = (q, u)" by fastforce
  note made = create_apart [OF q assms(2,3)]
  show ?thesis
  proof (cases q)
    case (Inl e)
    with run q made show ?thesis by (auto simp: restore_operation_def ct_io_def bindE_def map_err_def)
  next
    case (Inr j)
    with made have u: "apart ?p s u" "own_inode ?p j u" "fs_data u j = []" by (auto simp: own_inode_def)
    have content: "fs_data u i = fs_data s i" using u(1) assms(4,5) by (auto simp: apart_def)
    obtain l v where l: "read_loop Io (1024 * 1024) (restore_body j) (fs_data s i) ([], 0) u = (l, v)" by fastforce
    have v: "apart ?p s v" "own_inode ?p j v" using obeysD [OF restore_loop_apart l] u by blast+
    have go: "(case l of Inl e \<Rightarrow> (Inl e, v) | Inr (Inl _) \<Rightarrow> (Inl Integrity, v) | Inr (Inr (hashed, z)) \<Rightarrow>
        bindE (ensure (z = sz \<and> blake3_hex X hashed = h) Integrity) (\<lambda>_. ct_io sys_fsync) v) = (r, t)"
      using run q Inr l content
      by (auto simp: restore_operation_def ct_io_def bindE_def map_err_def gets_run fail_def
          split: sum.splits prod.splits)
    show ?thesis
    proof (cases "\<exists>hashed z. l = Inr (Inr (hashed, z))")
      case False
      with go v(1) show ?thesis by (auto split: sum.splits)
    next
      case True
      then obtain hashed z where hz: "l = Inr (Inr (hashed, z))" by blast
      have w: "hashed = fs_data s i" "z = word_of_nat (length (fs_data s i))" "fs_data v j = fs_data s i"
        using restore_loop_content [OF l [unfolded hz] u] by simp_all
      have "quiet v t" using go hz
        by (auto simp: ensure_def bindE_ret bindE_fail fail_def ct_io_def map_err_def
            split: if_splits prod.splits sum.splits dest: obeysD [OF sys_quiet(3)])
      moreover have "r = Inr x \<Longrightarrow> z = sz \<and> blake3_hex X hashed = h" for x
        using go hz by (auto simp: ensure_def bindE_fail fail_def split: if_splits)
      ultimately show ?thesis using v w by (auto simp: quiet_sels intro: apart_quiet own_quiet)
    qed
  qed
qed

lemma restore_file_result:
  fixes target :: path
  defines "tmp \<equiv> place (with_extension target ''media-backup.tmp'')"
  assumes "restore_file X d target sz h s = (r, t)" "fs_wf s" "own_file s tmp"
    and "look s (place d) = Some (Reg i)" "place d \<noteq> tmp" "place target \<noteq> tmp"
  shows "case r of
      Inr _ \<Rightarrow> (\<exists>j. look t (place target) = Some (Reg j) \<and> fs_data t j = fs_data s i) \<and>
        word_of_nat (length (fs_data s i)) = sz \<and> blake3_hex X (fs_data s i) = h
    | Inl _ \<Rightarrow> look t (place target) = look s (place target) \<and>
        (\<forall>k. look s (place target) = Some (Reg k) \<longrightarrow> fs_data t k = fs_data s k)"
proof -
  let ?o = "place target" let ?op = "restore_operation X (Reg i) (with_extension target ''media-backup.tmp'') sz h"
  obtain q u where q: "sys_open_read (place d) s = (q, u)" by fastforce
  have su: "quiet s u" using q by (rule obeysD [OF sys_quiet(4)])
  show ?thesis
  proof (cases q)
    case (Inl e)
    with assms(2) q su show ?thesis
      by (auto simp: restore_file_def ct_io_def bindE_def map_err_def quiet_sels)
  next
    case (Inr n)
    then have n: "n = Reg i" using q assms(5) by (auto simp: sys_open_read_def dest!: syscall_Inr resolve_Inr)
    obtain p v where p: "?op u = (p, v)" by fastforce
    have "fs_wf u" using wf_quiet [OF su] assms(3) by (simp add: keeps_wf_def)
    then have res: "apart tmp u v \<and> (\<forall>x. p = Inr x \<longrightarrow> (\<exists>j. own_inode tmp j v \<and> fs_data v j = fs_data u i \<and>
        word_of_nat (length (fs_data u i)) = sz \<and> blake3_hex X (fs_data u i) = h))"
      unfolding tmp_def
      using assms(4,5,6) su by (intro restore_operation_result [OF p]) (simp_all add: quiet_sels own_file_def tmp_def)
    have kept: "look v ?o = look s ?o \<and> (\<forall>k. look s ?o = Some (Reg k) \<longrightarrow> fs_data v k = fs_data s k)"
      using res su assms(7) by (auto simp: apart_def quiet_sels)
    have go: "(case p of Inr _ \<Rightarrow> ct_io (sys_rename tmp ?o) v
        | Inl e \<Rightarrow> bindE (attempt (sys_unlink tmp)) (\<lambda>_. fail e) v) = (r, t)"
      using assms(2) q Inr n p
      by (auto simp: restore_file_def ct_io_def bindE_def map_err_def Let_def attempt_run tmp_def
          split: sum.splits prod.splits)
    show ?thesis
    proof (cases p)
      case (Inl e)
      with go have t: "r = Inl e" "t = snd (sys_unlink tmp v)" by (auto simp: bindE_attempt fail_def)
      obtain a where "sys_unlink tmp v = (a, t)" using t by (metis prod.collapse)
      from sys_unlink_result [OF this] have "quiet v t \<or> quiet (drop_node tmp v) t" by blast
      then have "look t ?o = look v ?o" "fs_data t = fs_data v"
        using assms(7) by (auto simp: quiet_sels look_drop_node)
      with kept t show ?thesis by simp
    next
      case (Inr x)
      with res obtain j where j: "own_inode tmp j v" "fs_data v j = fs_data s i"
        "word_of_nat (length (fs_data s i)) = sz" "blake3_hex X (fs_data s i) = h"
        using su by (auto simp: quiet_sels)
      obtain a where a: "sys_rename tmp ?o v = (a, t)" "r = map_sum Io id a"
        using go Inr by (auto simp: ct_io_def map_err_def split: prod.splits sum.splits)
      have jo: "look v ?o \<noteq> Some (Reg j)" "look v tmp = Some (Reg j)" using j(1) assms(7) by (auto simp: own_inode_def)
      have ne: "?o \<noteq> []" if "look v ?o \<noteq> Some Dir" using that by auto
      from a(1) show ?thesis unfolding sys_rename_def
      proof (cases rule: syscall_cases)
        case fault
        with kept a show ?thesis by (simp add: quiet_sels)
      next
        case runs
        with kept a(2) jo j assms(7) ne show ?thesis
          by (auto simp: look_drop_node look_put_node split: if_splits)
      qed
    qed
  qed
qed

text \<open>
  C8. Restoring is all or nothing.  Whatever fails, either \<open>restore_file\<close> reports success, the target is the
  downloaded content and that content has the expected size and hash, or it reports an error and the
  target is what it was before.
\<close>

theorem restore_file_atomic:
  fixes target :: path
  defines "tmp \<equiv> place (with_extension target ''media-backup.tmp'')"
  assumes "restore_file X d target sz h s = (r, t)" "fs_wf s" "own_file s tmp"
    and "look s (place d) = Some (Reg i)" "place d \<noteq> tmp" "place target \<noteq> tmp"
  shows "case r of
      Inr _ \<Rightarrow> (\<exists>j. look t (place target) = Some (Reg j) \<and> fs_data t j = fs_data s i) \<and>
        word_of_nat (length (fs_data s i)) = sz \<and> blake3_hex X (fs_data s i) = h
    | Inl _ \<Rightarrow> look t (place target) = look s (place target) \<and>
        (\<forall>k. look s (place target) = Some (Reg k) \<longrightarrow> fs_data t k = fs_data s k)"
  unfolding tmp_def by (rule restore_file_result [OF assms(2-7) [unfolded tmp_def]])

text \<open>
  C7. There and back.  A file is split by \<open>prepare_file\<close>; later something is downloaded and restored under
  the size and the hash the manifest recorded.  If that succeeds, the restored file is the original file,
  unless the two are a collision of BLAKE3.
\<close>

theorem prepare_restore_roundtrip:
  assumes "prepare_file X src out n s = (Inr c, s')" "fs_wf s" "look s (place src) = Some (Reg i)" "room_from out s 0"
    and "restore_file X d target (pc_content_size c) (pc_content_blake3 c) u = (Inr (), t)" "fs_wf u"
    and "own_file u (place (with_extension target ''media-backup.tmp''))" "look u (place d) = Some (Reg k)"
    and "place d \<noteq> place (with_extension target ''media-backup.tmp'')"
    and "place target \<noteq> place (with_extension target ''media-backup.tmp'')"
    and "blake3_hex X (fs_data u k) = blake3_hex X (fs_data s i) \<Longrightarrow> fs_data u k = fs_data s i"
  shows "\<exists>j. look t (place target) = Some (Reg j) \<and> fs_data t j = fs_data s i"
proof -
  have "pc_content_blake3 c = blake3_hex X (fs_data s i)" using prepare_file_stored [OF assms(1-4)] by simp
  with restore_file_result [OF assms(5-10)] assms(11) show ?thesis by auto
qed

section \<open>A small client\<close>

definition client_fs :: fs where
  "client_fs = \<lparr>fs_nodes = [([''src''], Reg 0)], fs_data = (\<lambda>_. [])(0 := [1, 2, 3, 4, 5]), fs_next = 1, fs_tick = 0,
     fs_fault = (\<lambda>_. False), fs_chunk = (\<lambda>_. 2)\<rparr>"

definition client_externals :: externals where
  "client_externals = \<lparr>blake3_hex = (\<lambda>bs. replicate 64 (if bs = [1, 2, 3, 4, 5] then CHR ''a'' else CHR ''b'')),
     uuid_str = (\<lambda>u. ''u''), uuid_parse = (\<lambda>s. None)\<rparr>"

definition client_run :: "(content_error + prepared_content) \<times> fs" where
  "client_run = prepare_file client_externals [Normal ''src''] [Normal ''out''] 2 client_fs"

lemma client_run_ok: "map_sum (\<lambda>_. ()) (\<lambda>c. ()) (fst client_run) = Inr ()"
  by code_simp

lemma client_prepared:
  obtains c t where "prepare_file client_externals [Normal ''src''] [Normal ''out''] 2 client_fs = (Inr c, t)"
  using client_run_ok unfolding client_run_def
  by (cases "prepare_file client_externals [Normal ''src''] [Normal ''out''] 2 client_fs"; cases "fst client_run")
     (auto simp: client_run_def)

lemma client_fs_facts:
  "fs_wf client_fs" "look client_fs (place [Normal ''src'']) = Some (Reg 0)" "fs_data client_fs 0 = [1, 2, 3, 4, 5]"
  "room_from [Normal ''out''] client_fs 0" "own_file client_fs (place (with_extension [Normal ''copy''] ''media-backup.tmp''))"
  by (simp_all add: fs_wf_def client_fs_def look_def room_from_def place_part_file own_file_def)
     (simp_all add: place_def component_str_def with_extension_def path_file_name_def file_stem_def)

lemma client_paths:
  "place [Normal ''src''] \<noteq> place (with_extension [Normal ''copy''] ''media-backup.tmp'')"
  "place [Normal ''copy''] \<noteq> place (with_extension [Normal ''copy''] ''media-backup.tmp'')"
  by (simp_all add: place_def component_str_def with_extension_def path_file_name_def file_stem_def)

lemma client_chunks: "chunks 2 [1, 2, 3, 4, 5 :: u8] = [[1, 2], [3, 4], [5]]"
  by (simp add: chunks.simps)

theorem prepare_file_splits_witness:
  "\<exists>c t. prepare_file client_externals [Normal ''src''] [Normal ''out''] 2 client_fs = (Inr c, t) \<and>
     stored_from client_externals [Normal ''out''] t 0 (pc_parts c) [[1, 2], [3, 4], [5]] \<and> unat (pc_content_size c) = 5"
proof -
  obtain c t where run: "prepare_file client_externals [Normal ''src''] [Normal ''out''] 2 client_fs = (Inr c, t)"
    by (rule client_prepared)
  from prepare_file_splits [OF run client_fs_facts(1,2,4)] run show ?thesis
    by (auto simp: client_fs_facts client_chunks)
qed

definition client_app :: app where
  "client_app = example_app\<lparr>app_externals := client_externals\<rparr>"

lemma client_hashes: "is_blake3 (blake3_hex client_externals bs)"
  by (simp add: is_blake3_def client_externals_def is_ascii_hexdigit_def is_ascii_digit_def code_def list_all_iff)

definition restore_run :: "(content_error + unit) \<times> fs" where
  "restore_run = restore_file client_externals [Normal ''src''] [Normal ''copy''] 5 (replicate 64 (CHR ''a'')) client_fs"

lemma restore_run_ok: "fst restore_run = Inr ()"
  by code_simp

theorem restore_file_atomic_witness:
  "\<exists>t j. restore_run = (Inr (), t) \<and> look t [''copy''] = Some (Reg j) \<and> fs_data t j = [1, 2, 3, 4, 5]"
proof -
  obtain t where run: "restore_run = (Inr (), t)" using restore_run_ok by (metis prod.collapse)
  from restore_file_atomic [OF run [unfolded restore_run_def] client_fs_facts(1,5,2) client_paths] run
  show ?thesis by (auto simp: client_fs_facts place_def component_str_def)
qed

theorem prepare_restore_roundtrip_witness:
  "\<exists>t j. restore_run = (Inr (), t) \<and> look t (place [Normal ''copy'']) = Some (Reg j) \<and> fs_data t j = fs_data client_fs 0"
proof -
  obtain t where t: "restore_run = (Inr (), t)" using restore_run_ok by (metis prod.collapse)
  obtain c u where run: "prepare_file client_externals [Normal ''src''] [Normal ''out''] 2 client_fs = (Inr c, u)"
    by (rule client_prepared)
  have c: "pc_content_blake3 c = replicate 64 (CHR ''a'')" "pc_content_size c = 5"
    using prepare_file_stored [OF run client_fs_facts(1,2,4)]
    by (simp_all add: client_fs_facts client_externals_def word_unat_eq_iff)
  have restored: "restore_file client_externals [Normal ''src''] [Normal ''copy''] (pc_content_size c)
      (pc_content_blake3 c) client_fs = (Inr (), t)"
    using t by (simp add: c restore_run_def)
  have "\<exists>j. look t (place [Normal ''copy'']) = Some (Reg j) \<and> fs_data t j = fs_data client_fs 0"
    by (rule prepare_restore_roundtrip [OF run client_fs_facts(1,2,4) restored client_fs_facts(1,5,2) client_paths]) simp
  with t show ?thesis by blast
qed

end
