(* ===== verification/Agent_Queue.thy ===== *)
theory Agent_Queue
  imports Client_Content "HOL-Library.List_Lexorder"
begin

text \<open>
  \<open>crates/agent-core\<close>: the upload queue of the client.  Its state are the tables \<open>jobs\<close> and
  \<open>job_parts\<close> of \<open>current_schema.sql\<close> and the files of the device.  A SQL statement is one step that may
  fail; the calls on one agent follow each other.  The crates \<open>sarmg_agent_fs_safety\<close>, \<open>serde_json\<close> and
  \<open>uuid\<close>, and the texts of the errors of libraries, are in \<open>client_env\<close>.
\<close>

section \<open>Types\<close>

datatype agent_error =
    Database_Error
  | Serialization_Error string
  | Content_Failure content_error
  | Io_Failure io_kind
  | Current_State_Error string
  | Job_Not_Found
  | Invalid_Media_Kind string
  | Invalid_Contract string
  | Staging_Error string

definition MOBILE_PRODUCT :: string where "MOBILE_PRODUCT = ''media-backup''"
definition MOBILE_APPLICATION_VERSION :: string where "MOBILE_APPLICATION_VERSION = ''0.2.1''"
definition MOBILE_REVISION :: u32 where "MOBILE_REVISION = 1"
definition MOBILE_STATE_EPOCH :: string where "MOBILE_STATE_EPOCH = ''media-backup-mobile-v0.2-r2''"
definition MOBILE_STAGING_DIRECTORY :: string where "MOBILE_STAGING_DIRECTORY = ''backup-staging-v0.2-r2''"

record agent_config =
  cfg_product :: string
  cfg_application_version :: string
  cfg_revision :: u32
  cfg_state_epoch :: string
  cfg_part_size :: nat

record enqueue_resource =
  eq_product :: string
  eq_application_version :: string
  eq_revision :: u32
  eq_state_epoch :: string
  eq_source_asset_id :: string
  eq_source_resource_id :: string
  eq_media_kind :: string
  eq_role :: string
  eq_file_path :: string
  eq_filename :: string
  eq_mime_type :: string
  eq_source_created_at_ms :: i64
  eq_modified_ms :: i64
  eq_source_size :: u64
  eq_metadata_json :: "string option"
  eq_remove_source_after_prepare :: bool

record local_part =
  lp_index :: u32
  lp_path :: string

record prepared_job =
  pj_product :: string
  pj_application_version :: string
  pj_revision :: u32
  pj_state_epoch :: string
  pj_job_id :: string
  pj_generation_id :: string
  pj_request :: create_upload_request
  pj_local_parts :: "local_part list"

record agent_stats =
  as_discovered :: u64
  as_ready :: u64
  as_uploading :: u64
  as_complete :: u64
  as_retry_wait :: u64
  as_failed :: u64

text \<open>A row of \<open>jobs\<close>, and of \<open>job_parts\<close>.\<close>

record job =
  jb_id :: string
  jb_source_asset_id :: string
  jb_source_resource_id :: string
  jb_media_kind :: string
  jb_role :: string
  jb_file_path :: string
  jb_filename :: string
  jb_mime_type :: string
  jb_source_created_at_ms :: i64
  jb_modified_ms :: i64
  jb_source_size :: i64
  jb_metadata_json :: "string option"
  jb_remove_source :: bool
  jb_state :: string
  jb_prepared_json :: "string option"
  jb_upload_id :: "string option"
  jb_retry_count :: i64
  jb_next_retry_ms :: i64
  jb_error :: "string option"
  jb_updated_at_ms :: i64

record job_part =
  jp_job_id :: string
  jp_part_index :: u32
  jp_uploaded :: bool

text \<open>
  The libraries.  A step on files that fails gives the text of its error; \<open>ce_relative\<close> is
  \<open>RelativePath::new\<close>, \<open>ce_resolve\<close> is \<open>PrivateDirectory::resolve\<close>.
\<close>

record client_env =
  ce_externals :: externals
  ce_job_to_string :: "prepared_job \<Rightarrow> string + string"
  ce_job_from_str :: "string \<Rightarrow> string + prepared_job"
  ce_metadata_from_str :: "string \<Rightarrow> string + json"
  ce_io_text :: "io_kind \<Rightarrow> string"
  ce_database_text :: string
  ce_private_create :: "path \<Rightarrow> (fs, string, unit) sem"
  ce_private_sync :: "path \<Rightarrow> (fs, string, unit) sem"
  ce_relative :: "path \<Rightarrow> string + path"
  ce_resolve :: "path \<Rightarrow> path \<Rightarrow> path"
  ce_sync_file_and_parent :: "path \<Rightarrow> (fs, string, unit) sem"
  ce_sync_directory :: "path \<Rightarrow> (fs, string, unit) sem"
  ce_inventory :: "path \<Rightarrow> nat \<Rightarrow> nat \<Rightarrow> (fs, string, unit) sem"

record agent =
  ag_jobs :: "job list"
  ag_parts :: "job_part list"
  ag_fs :: fs
  ag_tick :: nat
  ag_fault :: "nat \<Rightarrow> bool"
  ag_clock :: "nat \<Rightarrow> i64"
  ag_uuids :: "nat \<Rightarrow> uuid"
  ag_drawn :: nat

type_synonym 'a agt = "(agent, agent_error, 'a) sem"

text \<open>\<open>Display\<close> of the errors.\<close>

definition content_error_text :: "client_env \<Rightarrow> content_error \<Rightarrow> string" where
  "content_error_text E e = (case e of
       Io k \<Rightarrow> ''I/O error: '' @ ce_io_text E k
     | Invalid_Part_Size \<Rightarrow> ''part size must be between 1 byte and 64 MiB''
     | Too_Many_Parts \<Rightarrow> ''content exceeds the 4096-part budget''
     | Integrity \<Rightarrow> ''content size or BLAKE3 hash does not match'')"

definition agent_error_text :: "client_env \<Rightarrow> agent_error \<Rightarrow> string" where
  "agent_error_text E e = (case e of
       Database_Error \<Rightarrow> ''database error: '' @ ce_database_text E
     | Serialization_Error m \<Rightarrow> ''serialization error: '' @ m
     | Content_Failure c \<Rightarrow> ''content preparation error: '' @ content_error_text E c
     | Io_Failure k \<Rightarrow> ''I/O error: '' @ ce_io_text E k
     | Current_State_Error m \<Rightarrow> ''agent database is not exactly current: '' @ m
     | Job_Not_Found \<Rightarrow> ''job not found''
     | Invalid_Media_Kind m \<Rightarrow> ''invalid media kind: '' @ m
     | Invalid_Contract m \<Rightarrow> ''invalid mobile v0.2 contract: '' @ m
     | Staging_Error m \<Rightarrow> ''unsafe staging state: '' @ m)"

section \<open>Steps\<close>

text \<open>A statement on the tables: None is an error of SQLite, a constraint or a column conversion.\<close>

definition sql :: "(agent \<Rightarrow> ('a \<times> agent) option) \<Rightarrow> 'a agt" where
  "sql q s = (let t = s\<lparr>ag_tick := Suc (ag_tick s)\<rparr> in
     if ag_fault s (ag_tick s) then (Inl Database_Error, t)
     else case q t of None \<Rightarrow> (Inl Database_Error, t) | Some (x, u) \<Rightarrow> (Inr x, u))"

definition sql_read :: "(job list \<Rightarrow> 'a option) \<Rightarrow> 'a agt" where
  "sql_read f = sql (\<lambda>s. map_option (\<lambda>x. (x, s)) (f (ag_jobs s)))"

text \<open>\<open>UPDATE jobs SET ... WHERE ...\<close> gives the number of rows.\<close>

definition sql_update :: "(job \<Rightarrow> bool) \<Rightarrow> (job \<Rightarrow> job) \<Rightarrow> nat agt" where
  "sql_update P f = sql (\<lambda>s. Some (length (filter P (ag_jobs s)),
     s\<lparr>ag_jobs := map (\<lambda>j. if P j then f j else j) (ag_jobs s)\<rparr>))"

definition now_ms :: "i64 agt" where
  "now_ms s = (Inr (ag_clock s (ag_tick s)), s\<lparr>ag_tick := Suc (ag_tick s)\<rparr>)"

definition new_v4 :: "uuid agt" where
  "new_v4 s = (Inr (ag_uuids s (ag_drawn s)), s\<lparr>ag_drawn := Suc (ag_drawn s)\<rparr>)"

definition on_files :: "('e \<Rightarrow> agent_error) \<Rightarrow> (fs, 'e, 'a) sem \<Rightarrow> 'a agt" where
  "on_files g m s = (case m (ag_fs s) of (r, f) \<Rightarrow> (map_sum g id r, s\<lparr>ag_fs := f\<rparr>))"

section \<open>Contracts\<close>

definition validate_contract :: "string \<Rightarrow> string \<Rightarrow> u32 \<Rightarrow> string \<Rightarrow> agent_error + unit" where
  "validate_contract product application_version revision state_epoch =
     (if product \<noteq> MOBILE_PRODUCT then Inl (Invalid_Contract (''product must be '' @ MOBILE_PRODUCT))
      else if application_version \<noteq> MOBILE_APPLICATION_VERSION
        then Inl (Invalid_Contract (''application_version must be '' @ MOBILE_APPLICATION_VERSION))
      else if revision \<noteq> MOBILE_REVISION
        then Inl (Invalid_Contract (''revision must be '' @ show_nat (unat MOBILE_REVISION)))
      else if state_epoch \<noteq> MOBILE_STATE_EPOCH
        then Inl (Invalid_Contract (''state_epoch must be '' @ MOBILE_STATE_EPOCH))
      else Inr ())"

definition config_validate :: "agent_config \<Rightarrow> agent_error + unit" where
  "config_validate c = (case validate_contract (cfg_product c) (cfg_application_version c) (cfg_revision c)
       (cfg_state_epoch c) of
     Inl e \<Rightarrow> Inl e
   | Inr _ \<Rightarrow> if cfg_part_size c = 0 \<or> MAX_PART_BYTES < cfg_part_size c
       then Inl (Invalid_Contract ''part_size must be between 1 byte and 64 MiB'') else Inr ())"

definition enqueue_validate :: "enqueue_resource \<Rightarrow> agent_error + unit" where
  "enqueue_validate r = validate_contract (eq_product r) (eq_application_version r) (eq_revision r) (eq_state_epoch r)"

text \<open>Where a part of a generation must lie.\<close>

definition part_in_generation :: "prepared_job \<Rightarrow> path \<Rightarrow> bool" where
  "part_in_generation p parent \<longleftrightarrow>
     path_file_name parent = Some (pj_generation_id p) \<and>
     Option.bind (path_parent parent) path_file_name = Some (pj_job_id p) \<and>
     Option.bind (Option.bind (path_parent parent) path_parent) path_file_name = Some MOBILE_STAGING_DIRECTORY"

fun validate_parts :: "prepared_job \<Rightarrow> local_part list \<Rightarrow> agent_error + unit" where
  "validate_parts p [] = Inr ()"
| "validate_parts p (l # ls) = (case path_parent (path_of (lp_path l)) of
       None \<Rightarrow> Inl (Invalid_Contract ''part path has no generation directory'')
     | Some parent \<Rightarrow> if \<not> part_in_generation p parent
         then Inl (Invalid_Contract ''part path is outside its staging generation'')
         else validate_parts p ls)"

definition prepared_validate :: "client_env \<Rightarrow> prepared_job \<Rightarrow> agent_error + unit" where
  "prepared_validate E p = (case validate_contract (pj_product p) (pj_application_version p) (pj_revision p)
       (pj_state_epoch p) of
     Inl e \<Rightarrow> Inl e
   | Inr _ \<Rightarrow>
     if uuid_parse (ce_externals E) (pj_job_id p) = None
     then Inl (Invalid_Contract ''job_id must be a UUID'')
     else if uuid_parse (ce_externals E) (pj_generation_id p) = None
     then Inl (Invalid_Contract ''generation_id must be a UUID'')
     else validate_parts p (pj_local_parts p))"

definition parse_job :: "client_env \<Rightarrow> string \<Rightarrow> agent_error + prepared_job" where
  "parse_job E text = (case ce_job_from_str E text of
     Inl m \<Rightarrow> Inl (Serialization_Error m) | Inr p \<Rightarrow> Inr p)"

definition parse_valid_job :: "client_env \<Rightarrow> string \<Rightarrow> agent_error + prepared_job" where
  "parse_valid_job E text = (case parse_job E text of
     Inl e \<Rightarrow> Inl e
   | Inr p \<Rightarrow> (case prepared_validate E p of Inl e \<Rightarrow> Inl e | Inr _ \<Rightarrow> Inr p))"

section \<open>Opening\<close>

fun validate_rows :: "client_env \<Rightarrow> string list \<Rightarrow> agent_error + unit" where
  "validate_rows E [] = Inr ()"
| "validate_rows E (t # ts) = (case parse_valid_job E t of Inl e \<Rightarrow> Inl e | Inr _ \<Rightarrow> validate_rows E ts)"

definition string_key :: "string \<Rightarrow> nat list" where
  "string_key s = map of_char s"

definition validate_persisted_jobs :: "client_env \<Rightarrow> unit agt" where
  "validate_persisted_jobs E =
     bindE (sql_read (\<lambda>js. Some (List.map_filter jb_prepared_json (sort_key (string_key \<circ> jb_id) js)))) (\<lambda>rows.
     of_result (validate_rows E rows))"

text \<open>\<open>open_current\<close> is the outcome of \<open>database::open_current\<close>.\<close>

definition agent_open :: "client_env \<Rightarrow> agent_config \<Rightarrow> string + unit \<Rightarrow> unit agt" where
  "agent_open E config open_current =
     bindE (of_result (config_validate config)) (\<lambda>_.
     bindE (of_result (map_sum Current_State_Error id open_current)) (\<lambda>_.
     bindE (validate_persisted_jobs E) (\<lambda>_.
     bindE (sql_update (\<lambda>j. jb_state j \<in> {''preparing'', ''uploading''} \<and> jb_prepared_json j \<noteq> None)
       (\<lambda>j. j\<lparr>jb_state := ''ready'', jb_upload_id := None\<rparr>)) (\<lambda>_.
     bindE (sql_update (\<lambda>j. jb_state j = ''preparing'' \<and> jb_prepared_json j = None)
       (\<lambda>j. j\<lparr>jb_state := ''discovered''\<rparr>)) (\<lambda>_.
     ret ())))))"

section \<open>Enqueueing\<close>

definition same_resource :: "string \<Rightarrow> string \<Rightarrow> job \<Rightarrow> bool" where
  "same_resource asset resource j \<longleftrightarrow> jb_source_asset_id j = asset \<and> jb_source_resource_id j = resource"

definition needs_resource :: "string \<Rightarrow> string \<Rightarrow> i64 \<Rightarrow> bool agt" where
  "needs_resource asset resource modified_ms =
     bindE (sql_read (\<lambda>js. Some (map_option (\<lambda>j. (jb_state j, jb_modified_ms j))
       (find (same_resource asset resource) js)))) (\<lambda>existing.
     ret (\<not> (case existing of Some (st, known) \<Rightarrow> st = ''complete'' \<and> known = modified_ms | None \<Rightarrow> False)))"

definition new_job_row :: "string \<Rightarrow> enqueue_resource \<Rightarrow> i64 \<Rightarrow> i64 \<Rightarrow> job" where
  "new_job_row i r sz now = \<lparr>jb_id = i, jb_source_asset_id = eq_source_asset_id r,
     jb_source_resource_id = eq_source_resource_id r, jb_media_kind = eq_media_kind r, jb_role = eq_role r,
     jb_file_path = eq_file_path r, jb_filename = eq_filename r, jb_mime_type = eq_mime_type r,
     jb_source_created_at_ms = eq_source_created_at_ms r, jb_modified_ms = eq_modified_ms r,
     jb_source_size = sz, jb_metadata_json = eq_metadata_json r,
     jb_remove_source = eq_remove_source_after_prepare r, jb_state = ''discovered'', jb_prepared_json = None,
     jb_upload_id = None, jb_retry_count = 0, jb_next_retry_ms = 0, jb_error = None, jb_updated_at_ms = now\<rparr>"

text \<open>\<open>INSERT ... ON CONFLICT DO UPDATE\<close>: an existing row keeps its id; a size beyond \<open>i64\<close> cannot be bound.\<close>

definition upsert_job :: "string \<Rightarrow> enqueue_resource \<Rightarrow> i64 \<Rightarrow> unit agt" where
  "upsert_job i r now = sql (\<lambda>s. case i64_of_u64 (eq_source_size r) of
       None \<Rightarrow> None
     | Some sz \<Rightarrow>
         if list_ex (same_resource (eq_source_asset_id r) (eq_source_resource_id r)) (ag_jobs s)
         then Some ((), s\<lparr>ag_jobs := map (\<lambda>j. if same_resource (eq_source_asset_id r) (eq_source_resource_id r) j
             then new_job_row (jb_id j) r sz now else j) (ag_jobs s)\<rparr>)
         else if i \<in> jb_id ` set (ag_jobs s) then None
         else Some ((), s\<lparr>ag_jobs := ag_jobs s @ [new_job_row i r sz now]\<rparr>))"

definition known_job :: "enqueue_resource \<Rightarrow> job list \<Rightarrow> (string \<times> i64 \<times> u64 \<times> string) option option" where
  "known_job r js = (case find (same_resource (eq_source_asset_id r) (eq_source_resource_id r)) js of
       None \<Rightarrow> Some None
     | Some j \<Rightarrow> map_option (\<lambda>sz. Some (jb_id j, jb_modified_ms j, sz, jb_state j)) (u64_of_i64 (jb_source_size j)))"

definition enqueue :: "client_env \<Rightarrow> enqueue_resource \<Rightarrow> string agt" where
  "enqueue E r =
     bindE (of_result (enqueue_validate r)) (\<lambda>_.
     bindE now_ms (\<lambda>now.
     bindE (sql_read (known_job r)) (\<lambda>existing.
     bindE (case existing of Some (i, _) \<Rightarrow> ret i
       | None \<Rightarrow> bindE new_v4 (\<lambda>u. ret (uuid_str (ce_externals E) u))) (\<lambda>i.
     (let changed = (case existing of None \<Rightarrow> True
        | Some (_, modified, sz, st) \<Rightarrow> modified \<noteq> eq_modified_ms r \<or> sz \<noteq> eq_source_size r \<or> st \<noteq> ''complete'') in
     bindE (if changed then upsert_job i r now else ret ()) (\<lambda>_.
     ret i))))))"

section \<open>Preparing\<close>

definition sql_job_text :: "string \<Rightarrow> job list \<Rightarrow> string option option" where
  "sql_job_text st js = (case sort_key jb_updated_at_ms (filter (\<lambda>j. jb_state j = st) js) of
       [] \<Rightarrow> Some None
     | j # _ \<Rightarrow> map_option Some (jb_prepared_json j))"

text \<open>The next job to prepare; its columns are read back as they were bound.\<close>

definition due :: "i64 \<Rightarrow> job \<Rightarrow> bool" where
  "due now j \<longleftrightarrow> jb_state j = ''discovered'' \<or> (jb_state j = ''retry_wait'' \<and> jb_next_retry_ms j \<le> now)"

definition next_due :: "i64 \<Rightarrow> job list \<Rightarrow> job option option" where
  "next_due now js = (case sort_key jb_updated_at_ms (filter (due now) js) of
       [] \<Rightarrow> Some None
     | j # _ \<Rightarrow> if u64_of_i64 (jb_source_size j) = None then None else Some (Some j))"

definition agent_media_kind :: "string \<Rightarrow> agent_error + media_kind" where
  "agent_media_kind v = (if v = ''photo'' then Inr Photo else if v = ''video'' then Inr Video
     else if v = ''other'' then Inr Other else Inl (Invalid_Media_Kind v))"

text \<open>\<open>read_dir\<close>, \<open>remove_dir_all\<close> (a failing one removes part of the entries) and \<open>remove_dir\<close>.\<close>

definition read_dir :: "path \<Rightarrow> string list io" where
  "read_dir p = bindE (sys_open_dir [] (place p)) sys_read_dir"

definition below :: "string list \<Rightarrow> string list \<Rightarrow> bool" where
  "below d p \<longleftrightarrow> take (length d) p = d"

definition sys_remove_dir_all :: "string list \<Rightarrow> unit io" where
  "sys_remove_dir_all d s = (let t = s\<lparr>fs_tick := Suc (fs_tick s)\<rparr> in
     if fs_fault s (fs_tick s)
     then (Inl OtherIo, foldr drop_node (take (fs_chunk s (fs_tick s)) (map fst (filter (\<lambda>(p, _). below d p) (fs_nodes s)))) t)
     else (Inr (), t\<lparr>fs_nodes := filter (\<lambda>(p, _). \<not> below d p) (fs_nodes t)\<rparr>))"

definition sys_remove_dir :: "string list \<Rightarrow> unit io" where
  "sys_remove_dir d = syscall (\<lambda>s. if look s d \<noteq> Some Dir then (Inl NotFound, s)
     else if dir_names s d \<noteq> [] then (Inl OtherIo, s) else (Inr (), drop_node d s))"

fun gc_entries :: "client_env \<Rightarrow> path \<Rightarrow> string \<Rightarrow> string list \<Rightarrow> unit agt" where
  "gc_entries E job_directory active [] = ret ()"
| "gc_entries E job_directory active (n # ns) =
     (if n = active then gc_entries E job_directory active ns
      else
       bindE (on_files Io_Failure (sys_stat (place (path_join job_directory [Normal n])))) (\<lambda>node.
       bindE (ensure (node = Dir) (Invalid_Contract ''staging job contains an unsafe generation entry'')) (\<lambda>_.
       bindE (on_files Staging_Error (ce_inventory E (path_join job_directory [Normal n]) 100000 (2 ^ 40))) (\<lambda>_.
       bindE (on_files Io_Failure (sys_remove_dir_all (place (path_join job_directory [Normal n])))) (\<lambda>_.
       gc_entries E job_directory active ns)))))"

definition gc_staging_generations :: "client_env \<Rightarrow> path \<Rightarrow> string \<Rightarrow> string \<Rightarrow> unit agt" where
  "gc_staging_generations E staging_root job_id active =
     bindE (of_result (map_sum Staging_Error id (ce_relative E (path_of job_id)))) (\<lambda>job.
     (let job_directory = path_join staging_root job in
     bindE (on_files Io_Failure (read_dir job_directory)) (\<lambda>names.
     bindE (gc_entries E job_directory active names) (\<lambda>_.
     bindE (on_files Staging_Error (ce_sync_directory E job_directory)) (\<lambda>_.
     on_files Staging_Error (ce_sync_directory E staging_root))))))"

fun sync_parts :: "client_env \<Rightarrow> local_part list \<Rightarrow> unit agt" where
  "sync_parts E [] = ret ()"
| "sync_parts E (l # ls) =
     bindE (on_files Staging_Error (ce_sync_file_and_parent E (path_of (lp_path l)))) (\<lambda>_. sync_parts E ls)"

definition parse_metadata :: "client_env \<Rightarrow> string option \<Rightarrow> agent_error + json option" where
  "parse_metadata E v = (case v of None \<Rightarrow> Inr None
     | Some text \<Rightarrow> map_sum Serialization_Error Some (ce_metadata_from_str E text))"

definition job_request :: "job \<Rightarrow> media_kind \<Rightarrow> prepared_content \<Rightarrow> json option \<Rightarrow> create_upload_request" where
  "job_request j kind c metadata = \<lparr>cu_source_asset_id = jb_source_asset_id j,
     cu_source_resource_id = jb_source_resource_id j, cu_media_kind = kind, cu_role = jb_role j,
     cu_filename = jb_filename j, cu_mime_type = jb_mime_type j,
     cu_source_created_at_ms = jb_source_created_at_ms j, cu_storage_encoding = PlainV1,
     cu_content_size = pc_content_size c, cu_content_blake3 = pc_content_blake3 c, cu_metadata = metadata,
     cu_parts = map pp_spec (pc_parts c)\<rparr>"

definition job_prepared :: "job \<Rightarrow> string \<Rightarrow> create_upload_request \<Rightarrow> prepared_content \<Rightarrow> prepared_job" where
  "job_prepared j generation request c = \<lparr>pj_product = MOBILE_PRODUCT,
     pj_application_version = MOBILE_APPLICATION_VERSION, pj_revision = MOBILE_REVISION,
     pj_state_epoch = MOBILE_STATE_EPOCH, pj_job_id = jb_id j, pj_generation_id = generation,
     pj_request = request,
     pj_local_parts = map (\<lambda>p. \<lparr>lp_index = part_index (pp_spec p), lp_path = path_str (pp_path p)\<rparr>) (pc_parts c)\<rparr>"

definition set_ready :: "string \<Rightarrow> string \<Rightarrow> i64 \<Rightarrow> nat agt" where
  "set_ready i text now = sql_update (\<lambda>j. jb_id j = i)
     (\<lambda>j. j\<lparr>jb_state := ''ready'', jb_prepared_json := Some text, jb_error := None, jb_updated_at_ms := now\<rparr>)"

text \<open>The part of \<open>prepare_job\<close> up to the manifest.\<close>

definition prepare_content :: "client_env \<Rightarrow> agent_config \<Rightarrow> job \<Rightarrow> path \<Rightarrow> prepared_job agt" where
  "prepare_content E config j staging_root =
     bindE (of_result (agent_media_kind (jb_media_kind j))) (\<lambda>kind.
     bindE (on_files Staging_Error (ce_private_create E staging_root)) (\<lambda>_.
     bindE new_v4 (\<lambda>u. let generation = uuid_str (ce_externals E) u in
     bindE (of_result (map_sum Staging_Error id
        (ce_relative E (path_join (path_of (jb_id j)) (path_of generation))))) (\<lambda>relative.
     bindE (on_files Content_Failure (prepare_file (ce_externals E) (path_of (jb_file_path j))
        (ce_resolve E staging_root relative) (cfg_part_size config))) (\<lambda>c.
     bindE (of_result (parse_metadata E (jb_metadata_json j))) (\<lambda>metadata.
     ret (job_prepared j generation (job_request j kind c metadata) c)))))))"

definition drop_source :: "job \<Rightarrow> unit agt" where
  "drop_source j = (if jb_remove_source j
     then bindE (attempt (on_files Io_Failure (sys_unlink (place (path_of (jb_file_path j)))))) (\<lambda>_. ret ())
     else ret ())"

definition prepare_job :: "client_env \<Rightarrow> agent_config \<Rightarrow> job \<Rightarrow> path \<Rightarrow> prepared_job agt" where
  "prepare_job E config j staging_root =
     bindE (prepare_content E config j staging_root) (\<lambda>prepared.
     bindE (of_result (map_sum Serialization_Error id (ce_job_to_string E prepared))) (\<lambda>text.
     bindE (sync_parts E (pj_local_parts prepared)) (\<lambda>_.
     bindE (on_files Staging_Error (ce_private_sync E staging_root)) (\<lambda>_.
     bindE now_ms (\<lambda>now.
     bindE (set_ready (jb_id j) text now) (\<lambda>_.
     bindE (gc_staging_generations E staging_root (jb_id j) (pj_generation_id prepared)) (\<lambda>_.
     bindE (drop_source j) (\<lambda>_.
     ret prepared))))))))"

section \<open>Marking\<close>

definition update_job :: "string \<Rightarrow> (job \<Rightarrow> job) \<Rightarrow> unit agt" where
  "update_job i f = bindE (sql_update (\<lambda>j. jb_id j = i) f) (\<lambda>n. ensure (n \<noteq> 0) Job_Not_Found)"

definition mark_upload :: "string \<Rightarrow> string \<Rightarrow> unit agt" where
  "mark_upload job_id upload_id = bindE now_ms (\<lambda>now. update_job job_id
     (\<lambda>j. j\<lparr>jb_state := ''uploading'', jb_upload_id := Some upload_id, jb_updated_at_ms := now\<rparr>))"

text \<open>The foreign key of \<open>job_parts\<close> is enforced.\<close>

definition mark_part_uploaded :: "string \<Rightarrow> u32 \<Rightarrow> unit agt" where
  "mark_part_uploaded job_id index = sql (\<lambda>s.
     if job_id \<notin> jb_id ` set (ag_jobs s) then None
     else if list_ex (\<lambda>p. jp_job_id p = job_id \<and> jp_part_index p = index) (ag_parts s)
     then Some ((), s\<lparr>ag_parts := map (\<lambda>p. if jp_job_id p = job_id \<and> jp_part_index p = index
        then p\<lparr>jp_uploaded := True\<rparr> else p) (ag_parts s)\<rparr>)
     else Some ((), s\<lparr>ag_parts := ag_parts s @ [\<lparr>jp_job_id = job_id, jp_part_index = index, jp_uploaded = True\<rparr>]\<rparr>))"

text \<open>A NULL cannot be read as the text of a job.\<close>

definition prepared_text :: "string \<Rightarrow> job list \<Rightarrow> string option option" where
  "prepared_text job_id js = (case find (\<lambda>j. jb_id j = job_id) js of
       None \<Rightarrow> Some None | Some j \<Rightarrow> map_option Some (jb_prepared_json j))"

fun remove_parts :: "local_part list \<Rightarrow> unit agt" where
  "remove_parts [] = ret ()"
| "remove_parts (l # ls) =
     bindE (attempt (on_files Io_Failure (sys_unlink (place (path_of (lp_path l)))))) (\<lambda>_. remove_parts ls)"

definition remove_generation :: "local_part list \<Rightarrow> unit agt" where
  "remove_generation ls = (case ls of [] \<Rightarrow> ret ()
     | l # _ \<Rightarrow> (case path_parent (path_of (lp_path l)) of None \<Rightarrow> ret ()
       | Some parent \<Rightarrow> bindE (attempt (on_files Io_Failure (sys_remove_dir (place parent)))) (\<lambda>_. ret ())))"

definition mark_complete :: "client_env \<Rightarrow> string \<Rightarrow> unit agt" where
  "mark_complete E job_id =
     bindE (sql_read (prepared_text job_id)) (\<lambda>text.
     bindE (of_result (case text of None \<Rightarrow> Inr None | Some t \<Rightarrow> map_sum id Some (parse_valid_job E t))) (\<lambda>prepared.
     bindE now_ms (\<lambda>now.
     bindE (update_job job_id (\<lambda>j. j\<lparr>jb_state := ''complete'', jb_error := None, jb_updated_at_ms := now\<rparr>)) (\<lambda>_.
     case prepared of None \<Rightarrow> ret ()
     | Some p \<Rightarrow> bindE (remove_parts (pj_local_parts p)) (\<lambda>_. remove_generation (pj_local_parts p))))))"

definition retry_delay :: "nat \<Rightarrow> i64" where
  "retry_delay retries = min (2000 * 2 ^ min retries 10) 3600000"

text \<open>\<open>retry_count\<close> is read as a \<open>u32\<close>.\<close>

definition retries_of :: "string \<Rightarrow> job list \<Rightarrow> nat option option" where
  "retries_of job_id js = (case find (\<lambda>j. jb_id j = job_id) js of
       None \<Rightarrow> Some None
     | Some j \<Rightarrow> if 0 \<le> jb_retry_count j \<and> jb_retry_count j < 2 ^ 32 then Some (Some (nat (jb_retry_count j))) else None)"

definition agent_mark_failed :: "string \<Rightarrow> string \<Rightarrow> bool \<Rightarrow> unit agt" where
  "agent_mark_failed job_id err retryable =
     bindE (sql_read (retries_of job_id)) (\<lambda>row.
     bindE (of_result (ok_or Job_Not_Found row)) (\<lambda>retries.
     bindE now_ms (\<lambda>base.
     bindE now_ms (\<lambda>now.
     bindE (sql_update (\<lambda>j. jb_id j = job_id)
       (\<lambda>j. j\<lparr>jb_state := (if retryable then ''retry_wait'' else ''failed''),
             jb_retry_count := jb_retry_count j + 1, jb_next_retry_ms := base + retry_delay retries,
             jb_error := Some err, jb_upload_id := None, jb_updated_at_ms := now\<rparr>)) (\<lambda>_.
     ret ())))))"

section \<open>The next job to upload\<close>

definition claim_due :: "i64 \<Rightarrow> job option agt" where
  "claim_due now =
     bindE (sql_read (next_due now)) (\<lambda>row. case row of
       None \<Rightarrow> ret None
     | Some j \<Rightarrow>
       bindE (sql_update (\<lambda>k. jb_id k = jb_id j) (\<lambda>k. k\<lparr>jb_state := ''preparing'', jb_updated_at_ms := now\<rparr>)) (\<lambda>_.
       ret (Some j)))"

definition next_prepared :: "client_env \<Rightarrow> agent_config \<Rightarrow> path \<Rightarrow> prepared_job option agt" where
  "next_prepared E config staging_root =
     bindE (sql_read (sql_job_text ''ready'')) (\<lambda>existing. case existing of
       Some text \<Rightarrow> bindE (of_result (parse_valid_job E text)) (\<lambda>p. ret (Some p))
     | None \<Rightarrow>
       bindE now_ms (\<lambda>now.
       bindE (claim_due now) (\<lambda>row. case row of
         None \<Rightarrow> ret None
       | Some j \<Rightarrow>
         bindE (attempt (prepare_job E config j staging_root)) (\<lambda>r. case r of
           Inr prepared \<Rightarrow> ret (Some prepared)
         | Inl e \<Rightarrow> bindE (agent_mark_failed (jb_id j) (agent_error_text E e) True) (\<lambda>_. fail e)))))"

section \<open>Statistics\<close>

definition count_state :: "job list \<Rightarrow> string \<Rightarrow> u64" where
  "count_state js st = word_of_nat (length (filter (\<lambda>j. jb_state j = st) js))"

definition agent_stats_of :: "job list \<Rightarrow> agent_stats" where
  "agent_stats_of js = \<lparr>as_discovered = count_state js ''discovered'' + count_state js ''preparing'',
     as_ready = count_state js ''ready'', as_uploading = count_state js ''uploading'',
     as_complete = count_state js ''complete'', as_retry_wait = count_state js ''retry_wait'',
     as_failed = count_state js ''failed''\<rparr>"

definition stats :: "agent_stats agt" where
  "stats = sql_read (\<lambda>js. Some (agent_stats_of js))"

end
