(* ===== verification/Agent_Queue_Correct.thy ===== *)
theory Agent_Queue_Correct
  imports Agent_Queue
begin

text \<open>
  The queue of the client: the invariant of its tables, recovery at the start, the back-off after a
  failure, and what becomes of a job whose source is gone.
\<close>

section \<open>The steps\<close>

lemma sql_Inr: "sql q s = (Inr x, t) \<longleftrightarrow> \<not> ag_fault s (ag_tick s) \<and> q (s\<lparr>ag_tick := Suc (ag_tick s)\<rparr>) = Some (x, t)"
  by (auto simp: sql_def Let_def split: option.splits)

lemma sql_Inl: "sql q s = (Inl e, t) \<Longrightarrow> e = Database_Error \<and> t = s\<lparr>ag_tick := Suc (ag_tick s)\<rparr>"
  by (auto simp: sql_def Let_def split: option.splits if_splits)

lemma sql_read_Inr:
  "sql_read f s = (Inr x, t) \<longleftrightarrow> \<not> ag_fault s (ag_tick s) \<and> f (ag_jobs s) = Some x \<and> t = s\<lparr>ag_tick := Suc (ag_tick s)\<rparr>"
  by (auto simp: sql_read_def sql_Inr)

lemma sql_update_Inr:
  "sql_update P f s = (Inr n, t) \<longleftrightarrow> \<not> ag_fault s (ag_tick s) \<and> n = length (filter P (ag_jobs s)) \<and>
    t = s\<lparr>ag_tick := Suc (ag_tick s), ag_jobs := map (\<lambda>j. if P j then f j else j) (ag_jobs s)\<rparr>"
  by (auto simp: sql_update_def sql_Inr)

lemma map_sum_Inr [simp]: "map_sum g id r = Inr x \<longleftrightarrow> r = Inr x"
  by (cases r) auto

lemma on_files_Inr: "on_files g m s = (Inr x, t) \<longleftrightarrow> (\<exists>f. m (ag_fs s) = (Inr x, f) \<and> t = s\<lparr>ag_fs := f\<rparr>)"
  by (auto simp: on_files_def split: prod.splits)

lemma now_ms_Inr: "now_ms s = (r, t) \<longleftrightarrow> r = Inr (ag_clock s (ag_tick s)) \<and> t = s\<lparr>ag_tick := Suc (ag_tick s)\<rparr>"
  by (auto simp: now_ms_def)

text \<open>A property of the jobs that a run keeps; it need only be checked where rows are written.\<close>

definition keeps_jobs :: "(job list \<Rightarrow> bool) \<Rightarrow> agent \<Rightarrow> agent \<Rightarrow> bool" where
  "keeps_jobs I s t \<longleftrightarrow> (I (ag_jobs s) \<longrightarrow> I (ag_jobs t))"

locale jobs_frame =
  fixes I :: "job list \<Rightarrow> bool"
begin

lemma keeps_refl: "keeps_jobs I s s"
  by (simp add: keeps_jobs_def)

lemma keeps_trans: "keeps_jobs I s t \<Longrightarrow> keeps_jobs I t u \<Longrightarrow> keeps_jobs I s u"
  by (simp add: keeps_jobs_def)

end

sublocale jobs_frame \<subseteq> run_preorder "keeps_jobs I"
  by unfold_locales (rule keeps_refl, erule keeps_trans)

context jobs_frame
begin

lemma frame_read: "obeys (keeps_jobs I) (sql_read f)"
  by (rule obeysI) (auto simp: keeps_jobs_def sql_read_def sql_def Let_def split: if_splits option.splits)

lemma frame_update:
  "(\<And>js. I js \<Longrightarrow> I (map (\<lambda>j. if P j then f j else j) js)) \<Longrightarrow> obeys (keeps_jobs I) (sql_update P f)"
  by (rule obeysI) (auto simp: keeps_jobs_def sql_update_def sql_def Let_def split: if_splits)

lemma frame_sql:
  assumes "\<And>s x t. I (ag_jobs s) \<Longrightarrow> q s = Some (x, t) \<Longrightarrow> I (ag_jobs t)"
  shows "obeys (keeps_jobs I) (sql q)"
proof (rule obeysI)
  fix s r t
  assume "sql q s = (r, t)"
  then show "keeps_jobs I s t"
    using assms [of "s\<lparr>ag_tick := Suc (ag_tick s)\<rparr>"]
    by (auto simp: keeps_jobs_def sql_def Let_def split: if_splits option.splits)
qed

lemma frame_files: "obeys (keeps_jobs I) (on_files g m)"
  by (rule obeysI) (auto simp: keeps_jobs_def on_files_def split: prod.splits)

lemma frame_draws: "obeys (keeps_jobs I) now_ms" "obeys (keeps_jobs I) new_v4"
  by (auto simp: obeys_def keeps_jobs_def now_ms_def new_v4_def)

lemmas frame_rules = obeys_rules frame_read frame_files frame_draws

lemma frame_content: "obeys (keeps_jobs I) (prepare_content E config j root)"
  unfolding prepare_content_def by (intro frame_rules)

lemma frame_sync_parts: "obeys (keeps_jobs I) (sync_parts E ls)"
  by (induction ls) (auto intro!: frame_rules)

lemma frame_gc_entries: "obeys (keeps_jobs I) (gc_entries E d a ns)"
  by (induction ns) (auto intro!: frame_rules)

lemma frame_gc: "obeys (keeps_jobs I) (gc_staging_generations E root i g)"
  unfolding gc_staging_generations_def Let_def by (intro frame_rules frame_gc_entries)

lemma frame_drop: "obeys (keeps_jobs I) (drop_source j)"
  unfolding drop_source_def by (intro frame_rules)

lemma frame_remove: "obeys (keeps_jobs I) (remove_parts ls)" "obeys (keeps_jobs I) (remove_generation ls)"
  by (induction ls) (auto simp: remove_generation_def intro!: frame_rules split: list.splits option.splits)

end

text \<open>What the operations write, as laws; they then keep the property.\<close>

locale jobs_laws = jobs_frame I for I +
  assumes ready_law: "I js \<Longrightarrow> I (map (\<lambda>j. if jb_id j = i then j\<lparr>jb_state := ''ready'', jb_prepared_json := Some text,
      jb_error := None, jb_updated_at_ms := now\<rparr> else j) js)"
    and reopen_law: "I js \<Longrightarrow> I (map (\<lambda>j. if jb_state j \<in> {''preparing'', ''uploading''} \<and> jb_prepared_json j \<noteq> None
      then j\<lparr>jb_state := ''ready'', jb_upload_id := None\<rparr> else j) js)"
    and rediscover_law: "I js \<Longrightarrow> I (map (\<lambda>j. if jb_state j = ''preparing'' \<and> jb_prepared_json j = None
      then j\<lparr>jb_state := ''discovered''\<rparr> else j) js)"
    and claim_law: "I js \<Longrightarrow> I (map (\<lambda>j. if jb_id j = i then j\<lparr>jb_state := ''preparing'', jb_updated_at_ms := now\<rparr> else j) js)"
    and upload_law: "I js \<Longrightarrow> I (map (\<lambda>j. if jb_id j = i then j\<lparr>jb_state := ''uploading'', jb_upload_id := Some u,
      jb_updated_at_ms := now\<rparr> else j) js)"
    and complete_law: "I js \<Longrightarrow> I (map (\<lambda>j. if jb_id j = i then j\<lparr>jb_state := ''complete'', jb_error := None,
      jb_updated_at_ms := now\<rparr> else j) js)"
    and failed_law: "I js \<Longrightarrow> st = ''retry_wait'' \<or> st = ''failed'' \<Longrightarrow> I (map (\<lambda>j. if jb_id j = i then
      j\<lparr>jb_state := st, jb_retry_count := jb_retry_count j + 1, jb_next_retry_ms := next, jb_error := Some err,
        jb_upload_id := None, jb_updated_at_ms := now\<rparr> else j) js)"
    and again_law: "I js \<Longrightarrow> i64_of_u64 (eq_source_size r) = Some sz \<Longrightarrow>
      I (map (\<lambda>j. if same_resource (eq_source_asset_id r) (eq_source_resource_id r) j
        then new_job_row (jb_id j) r sz now else j) js)"
    and insert_law: "I js \<Longrightarrow> i64_of_u64 (eq_source_size r) = Some sz \<Longrightarrow> i \<notin> jb_id ` set js \<Longrightarrow>
      \<not> list_ex (same_resource (eq_source_asset_id r) (eq_source_resource_id r)) js \<Longrightarrow>
      I (js @ [new_job_row i r sz now])"
begin

lemma keeps_open: "obeys (keeps_jobs I) (agent_open E config current)"
  unfolding agent_open_def validate_persisted_jobs_def
  by (intro frame_rules frame_update reopen_law rediscover_law)

lemma keeps_enqueue: "obeys (keeps_jobs I) (enqueue E r)"
proof -
  have "obeys (keeps_jobs I) (upsert_job i r now)" for i now
    unfolding upsert_job_def
    by (rule frame_sql) (auto split: option.splits if_splits intro: again_law insert_law)
  then show ?thesis
    unfolding enqueue_def Let_def by (intro frame_rules)
qed

lemma keeps_failed: "obeys (keeps_jobs I) (agent_mark_failed i err retryable)"
  unfolding agent_mark_failed_def
  by (intro frame_rules frame_update failed_law) auto

lemma keeps_prepare: "obeys (keeps_jobs I) (prepare_job E config j root)"
  unfolding prepare_job_def set_ready_def
  by (intro frame_rules frame_content frame_sync_parts frame_gc frame_drop frame_update ready_law)

lemma keeps_next_prepared: "obeys (keeps_jobs I) (next_prepared E config root)"
  unfolding next_prepared_def claim_due_def
  by (intro frame_rules keeps_prepare keeps_failed frame_update claim_law)

lemma keeps_upload: "obeys (keeps_jobs I) (mark_upload i u)"
  unfolding mark_upload_def update_job_def by (intro frame_rules frame_update upload_law)

lemma keeps_complete: "obeys (keeps_jobs I) (mark_complete E i)"
  unfolding mark_complete_def update_job_def by (intro frame_rules frame_update frame_remove complete_law)

lemma keeps_part: "obeys (keeps_jobs I) (mark_part_uploaded i n)"
  unfolding mark_part_uploaded_def by (rule frame_sql) (auto split: if_splits)

lemma keeps_reads: "obeys (keeps_jobs I) (needs_resource a b m)" "obeys (keeps_jobs I) stats"
  unfolding needs_resource_def stats_def by (intro frame_rules)+

end

section \<open>The invariant of the tables\<close>

definition job_ok :: "job \<Rightarrow> bool" where
  "job_ok j \<longleftrightarrow> jb_state j \<in> {''discovered'', ''preparing'', ''ready'', ''uploading'', ''complete'', ''retry_wait'', ''failed''} \<and>
     (jb_state j = ''ready'' \<longrightarrow> jb_prepared_json j \<noteq> None) \<and> u64_of_i64 (jb_source_size j) \<noteq> None"

definition queue_ok :: "job list \<Rightarrow> bool" where
  "queue_ok js \<longleftrightarrow> distinct (map jb_id js) \<and> distinct (map (\<lambda>j. (jb_source_asset_id j, jb_source_resource_id j)) js) \<and>
     list_all job_ok js"

lemma queue_ok_map:
  assumes "queue_ok js" "\<And>j. j \<in> set js \<Longrightarrow> jb_id (f j) = jb_id j \<and> jb_source_asset_id (f j) = jb_source_asset_id j \<and>
    jb_source_resource_id (f j) = jb_source_resource_id j \<and> job_ok (f j)"
  shows "queue_ok (map f js)"
proof -
  have "map jb_id (map f js) = map jb_id js"
    "map (\<lambda>j. (jb_source_asset_id j, jb_source_resource_id j)) (map f js) = map (\<lambda>j. (jb_source_asset_id j, jb_source_resource_id j)) js"
    using assms(2) by simp_all
  then show ?thesis using assms unfolding queue_ok_def by (simp only: list_all_iff set_map ball_simps) auto
qed

lemma queue_ok_update:
  assumes "queue_ok js" "\<And>j. jb_id (f j) = jb_id j \<and> jb_source_asset_id (f j) = jb_source_asset_id j \<and>
    jb_source_resource_id (f j) = jb_source_resource_id j" "\<And>j. P j \<Longrightarrow> job_ok j \<Longrightarrow> job_ok (f j)"
  shows "queue_ok (map (\<lambda>j. if P j then f j else j) js)"
  using assms(1) by (rule queue_ok_map) (use assms in \<open>auto simp: queue_ok_def list_all_iff\<close>)

lemma new_row_ok: "i64_of_u64 sz = Some n \<Longrightarrow> job_ok (new_job_row i r n now)"
  using u64_of_i64_of_u64 by (auto simp: job_ok_def new_job_row_def)

interpretation queue: jobs_laws queue_ok
proof
  fix js :: "job list" and r :: enqueue_resource and sz :: i64 and now :: i64 and i :: string
  assume js: "queue_ok js" and sz: "i64_of_u64 (eq_source_size r) = Some sz"
  show "queue_ok (map (\<lambda>j. if same_resource (eq_source_asset_id r) (eq_source_resource_id r) j
        then new_job_row (jb_id j) r sz now else j) js)"
    using js by (rule queue_ok_map)
      (use js new_row_ok [OF sz] in \<open>auto simp: same_resource_def new_job_row_def queue_ok_def list_all_iff\<close>)
  assume "i \<notin> jb_id ` set js" "\<not> list_ex (same_resource (eq_source_asset_id r) (eq_source_resource_id r)) js"
  then show "queue_ok (js @ [new_job_row i r sz now])"
    using js new_row_ok [OF sz] by (auto simp: queue_ok_def list_ex_iff same_resource_def new_job_row_def)
qed ((rule queue_ok_update, assumption, simp, auto simp: job_ok_def)+)

section \<open>Recovery\<close>

text \<open>
  C22. Recovery.  After a successful \<open>Agent::open\<close> no work is left in flight: every job that is neither
  complete nor given up is ready, waits to be prepared or waits for its retry, except an \<open>uploading\<close> job
  without a manifest, which nothing but a new \<open>enqueue\<close> moves.
\<close>

theorem open_recovers:
  assumes "agent_open E config current s = (Inr (), t)" "queue_ok (ag_jobs s)" "j \<in> set (ag_jobs t)"
  shows "jb_state j \<in> {''complete'', ''failed'', ''ready'', ''discovered'', ''retry_wait''} \<or>
    jb_state j = ''uploading'' \<and> jb_prepared_json j = None"
proof -
  let ?f = "\<lambda>j. if jb_state j \<in> {''preparing'', ''uploading''} \<and> jb_prepared_json j \<noteq> None
    then j\<lparr>jb_state := ''ready'', jb_upload_id := None\<rparr> else j"
  let ?g = "\<lambda>j. if jb_state j = ''preparing'' \<and> jb_prepared_json j = None then j\<lparr>jb_state := ''discovered''\<rparr> else j"
  have "ag_jobs t = map ?g (map ?f (ag_jobs s))"
    using assms(1) unfolding agent_open_def validate_persisted_jobs_def
    by (auto simp: bindE_Inr_iff of_result_Inr sql_read_Inr sql_update_Inr ret_def)
  then obtain k where k: "k \<in> set (ag_jobs s)" "j = ?g (?f k)" using assms(3) by auto
  then have "job_ok k" using assms(2) by (simp add: queue_ok_def list_all_iff)
  then show ?thesis using k(2) by (auto simp: job_ok_def)
qed

section \<open>Failures\<close>

lemma find_update:
  "(\<And>j. jb_id (f j) = jb_id j) \<Longrightarrow> find (\<lambda>j. jb_id j = i) (map (\<lambda>j. if jb_id j = i then f j else j) js) =
    map_option f (find (\<lambda>j. jb_id j = i) js)"
  by (induction js) auto

lemma retry_delay_uncapped: "retry_delay n = 2000 * 2 ^ min n 10"
proof -
  have "(2 :: int) ^ min n 10 \<le> 2 ^ 10" by (rule power_increasing) simp_all
  then show ?thesis by (simp add: retry_delay_def)
qed

lemma mark_failed_result:
  assumes "agent_mark_failed i err retryable s = (Inr (), t)"
  obtains j where "find (\<lambda>j. jb_id j = i) (ag_jobs s) = Some j"
    "find (\<lambda>j. jb_id j = i) (ag_jobs t) = Some (j\<lparr>jb_state := (if retryable then ''retry_wait'' else ''failed''),
      jb_retry_count := jb_retry_count j + 1,
      jb_next_retry_ms := ag_clock s (Suc (ag_tick s)) + retry_delay (nat (jb_retry_count j)),
      jb_error := Some err, jb_upload_id := None, jb_updated_at_ms := ag_clock s (Suc (Suc (ag_tick s)))\<rparr>)"
  using assms unfolding agent_mark_failed_def retries_of_def
  by (auto simp: bindE_Inr_iff of_result_Inr sql_read_Inr sql_update_Inr now_ms_Inr ret_def find_update
      split: option.splits if_splits)

text \<open>
  C39. Back-off.  A failure that can be retried puts the job off by exactly \<open>2 * 2^n\<close> seconds, \<open>n\<close> the number
  of failures so far up to ten: two seconds at least and 2048 at most, so the limit of an hour in the code
  is never reached.  The count goes up by one and the upload is forgotten.
\<close>

theorem retry_backoff:
  assumes "agent_mark_failed i err True s = (Inr (), t)"
  shows "\<exists>j j'. find (\<lambda>j. jb_id j = i) (ag_jobs s) = Some j \<and> find (\<lambda>j. jb_id j = i) (ag_jobs t) = Some j' \<and>
    jb_state j' = ''retry_wait'' \<and> jb_retry_count j' = jb_retry_count j + 1 \<and> jb_upload_id j' = None \<and>
    jb_next_retry_ms j' = ag_clock s (Suc (ag_tick s)) + 2000 * 2 ^ min (nat (jb_retry_count j)) 10"
  by (rule mark_failed_result [OF assms]) (simp add: retry_delay_uncapped)

section \<open>Statistics\<close>

lemma length_by_state:
  assumes "distinct sts" "\<And>j. j \<in> set js \<Longrightarrow> jb_state j \<in> set sts"
  shows "(\<Sum>st \<leftarrow> sts. length (filter (\<lambda>j. jb_state j = st) js)) = length js"
  using assms(2)
proof (induction js)
  case (Cons j js)
  have one: "(\<Sum>st \<leftarrow> sts. if jb_state j = st then 1 else 0 :: nat) = 1"
    using assms(1) Cons.prems by (simp add: sum_list_distinct_conv_sum_set sum.delta)
  have "(\<Sum>st \<leftarrow> sts. length (filter (\<lambda>j. jb_state j = st) (j # js))) =
      (\<Sum>st \<leftarrow> sts. (if jb_state j = st then 1 else 0) + length (filter (\<lambda>j. jb_state j = st) js))"
    by (rule arg_cong [where f = sum_list], rule map_cong) auto
  also have "\<dots> = 1 + length js" using one Cons by (simp add: sum_list_addf)
  finally show ?case by simp
qed simp

text \<open>
  C40. The statistics account for every job: the six counters add up to the number of jobs, in 64 bits
  without wrapping around.
\<close>

theorem stats_total:
  assumes "stats s = (Inr st, t)" "queue_ok (ag_jobs s)" "length (ag_jobs s) < 2 ^ 64"
  shows "unat (as_discovered st) + unat (as_ready st) + unat (as_uploading st) + unat (as_complete st) +
    unat (as_retry_wait st) + unat (as_failed st) = length (ag_jobs s)"
proof -
  let ?n = "\<lambda>st. length (filter (\<lambda>j. jb_state j = st) (ag_jobs s))"
  have total: "(\<Sum>st \<leftarrow> [''discovered'', ''preparing'', ''ready'', ''uploading'', ''complete'', ''retry_wait'', ''failed'']. ?n st) =
      length (ag_jobs s)"
    by (rule length_by_state) (use assms(2) in \<open>auto simp: queue_ok_def list_all_iff job_ok_def\<close>)
  then have first: "?n ''discovered'' + ?n ''preparing'' \<le> length (ag_jobs s)" by simp
  have "unat (count_state (ag_jobs s) v) = ?n v" for v
    using le_less_trans [OF length_filter_le assms(3)] by (simp add: count_state_def unat_of_nat)
  moreover have "unat (count_state (ag_jobs s) ''discovered'' + count_state (ag_jobs s) ''preparing'') =
      ?n ''discovered'' + ?n ''preparing''"
    using first assms(3) by (simp add: count_state_def unat_of_nat flip: of_nat_add)
  ultimately show ?thesis
    using assms(1) total by (auto simp: stats_def sql_read_Inr agent_stats_of_def)
qed

section \<open>What is handed out\<close>

interpretation any_jobs: jobs_frame I for I .

text \<open>A row of the table with the manifest of a job.\<close>

definition durable :: "client_env \<Rightarrow> prepared_job \<Rightarrow> job list \<Rightarrow> bool" where
  "durable E p js \<longleftrightarrow> (\<exists>j \<in> set js. \<exists>doc. jb_state j = ''ready'' \<and> jb_prepared_json j = Some doc \<and>
     (parse_valid_job E doc = Inr p \<or> jb_id j = pj_job_id p \<and> ce_job_to_string E p = Inr doc))"

lemma sort_key_hd: "sort_key k (filter P xs) = x # ys \<Longrightarrow> x \<in> set xs \<and> P x"
proof -
  assume *: "sort_key k (filter P xs) = x # ys"
  have "x \<in> set (sort_key k (filter P xs))" by (simp add: *)
  then show ?thesis by simp
qed

lemma sql_job_text_Some:
  assumes "sql_job_text st js = Some (Some v)"
  shows "\<exists>j \<in> set js. jb_state j = st \<and> jb_prepared_json j = Some v"
proof (cases "sort_key jb_updated_at_ms (filter (\<lambda>j. jb_state j = st) js)")
  case (Cons j ys)
  with assms have "jb_prepared_json j = Some v" by (simp add: sql_job_text_def)
  with sort_key_hd [OF Cons] show ?thesis by blast
qed (use assms in \<open>simp add: sql_job_text_def\<close>)

lemma next_due_Some:
  assumes "next_due now js = Some (Some j)"
  shows "j \<in> set js \<and> due now j"
proof (cases "sort_key jb_updated_at_ms (filter (due now) js)")
  case (Cons k ys)
  with assms have "j = k" by (simp add: next_due_def split: if_splits)
  with sort_key_hd [OF Cons] show ?thesis by simp
qed (use assms in \<open>simp add: next_due_def\<close>)

lemma claim_due_Some:
  assumes "claim_due now s = (Inr (Some j), t)"
  shows "j \<in> set (ag_jobs s) \<and> due now j \<and> (\<exists>n. t = s\<lparr>ag_tick := n, ag_jobs := map (\<lambda>k. if jb_id k = jb_id j
    then k\<lparr>jb_state := ''preparing'', jb_updated_at_ms := now\<rparr> else k) (ag_jobs s)\<rparr>)"
proof -
  from assms obtain row u where u: "sql_read (next_due now) s = (Inr row, u)"
    and go: "(case row of None \<Rightarrow> ret None | Some j \<Rightarrow>
       bindE (sql_update (\<lambda>k. jb_id k = jb_id j) (\<lambda>k. k\<lparr>jb_state := ''preparing'', jb_updated_at_ms := now\<rparr>)) (\<lambda>_.
       ret (Some j))) u = (Inr (Some j), t)"
    unfolding claim_due_def bindE_Inr_iff by blast
  obtain k where k: "row = Some k" using go by (cases row) (simp_all add: ret_def)
  with go have "k = j" by (simp add: bindE_Inr_iff ret_def)
  with go k u next_due_Some [of now "ag_jobs s" j] show ?thesis
    by (auto simp: bindE_Inr_iff ret_def sql_read_Inr sql_update_Inr)
qed

lemma set_ready_durable:
  assumes "set_ready i doc now s = (Inr n, t)" "i \<in> jb_id ` set (ag_jobs s)" "pj_job_id p = i" "ce_job_to_string E p = Inr doc"
  shows "durable E p (ag_jobs t)"
proof -
  obtain j where j: "j \<in> set (ag_jobs s)" "jb_id j = i" using assms(2) by blast
  let ?f = "\<lambda>j. if jb_id j = i then j\<lparr>jb_state := ''ready'', jb_prepared_json := Some doc, jb_error := None,
    jb_updated_at_ms := now\<rparr> else j"
  have "ag_jobs t = map ?f (ag_jobs s)" using assms(1) by (auto simp: set_ready_def sql_update_Inr)
  then have "?f j \<in> set (ag_jobs t)" using j(1) by simp
  then show ?thesis using j(2) assms(3,4) unfolding durable_def by (intro bexI [of _ "?f j"] exI [of _ doc]) auto
qed

lemma prepare_content_id: "prepare_content E config j root s = (Inr p, t) \<Longrightarrow> pj_job_id p = jb_id j"
  by (auto simp: prepare_content_def Let_def bindE_Inr_iff ret_def job_prepared_def)

lemma prepare_job_durable:
  assumes run: "prepare_job E config j root s = (Inr p, t)" and j: "jb_id j \<in> jb_id ` set (ag_jobs s)"
  shows "durable E p (ag_jobs t)"
proof -
  from run [unfolded prepare_job_def bindE_Inr_iff]
  obtain p' a doc a' q b x c y d n e z f k g where
    a: "prepare_content E config j root s = (Inr p', a)"
    and doc: "of_result (map_sum Serialization_Error id (ce_job_to_string E p')) a = (Inr doc, a')"
    and b: "sync_parts E (pj_local_parts p') a' = (Inr q, b)"
    and c: "on_files Staging_Error (ce_private_sync E root) b = (Inr x, c)"
    and d: "now_ms c = (Inr y, d)" and e: "set_ready (jb_id j) doc y d = (Inr n, e)"
    and f: "gc_staging_generations E root (jb_id j) (pj_generation_id p') e = (Inr z, f)"
    and rest: "drop_source j f = (Inr k, g)"
    and fin: "ret p' g = (Inr p :: agent_error + prepared_job, t)"
    by blast
  have p: "p' = p" "g = t" using fin by (simp_all add: ret_def)
  have doc: "ce_job_to_string E p = Inr doc" "a' = a" using doc p by (simp_all add: of_result_Inr)
  let ?here = "\<lambda>js. jb_id j \<in> jb_id ` set js"
  have "?here (ag_jobs a)"
    using obeysD [OF any_jobs.frame_content a, of ?here] j by (simp add: keeps_jobs_def)
  then have "?here (ag_jobs b)"
    using obeysD [OF any_jobs.frame_sync_parts b, of ?here] doc(2) by (simp add: keeps_jobs_def)
  then have "?here (ag_jobs c)"
    using obeysD [OF any_jobs.frame_files c, of ?here] by (simp add: keeps_jobs_def)
  then have "?here (ag_jobs d)" using d by (auto simp: now_ms_Inr)
  with e prepare_content_id [OF a [unfolded p(1)]] doc p have "durable E p (ag_jobs e)" by (intro set_ready_durable)
  then have "durable E p (ag_jobs f)"
    using obeysD [OF any_jobs.frame_gc f, of "durable E p"] by (simp add: keeps_jobs_def)
  then show ?thesis
    using obeysD [OF any_jobs.frame_drop rest, of "durable E p"] p(2) by (simp add: keeps_jobs_def)
qed

text \<open>
  C21. Nothing is handed out that a crash could lose: whatever job \<open>next_prepared\<close> gives to the uploader, its
  manifest is stored in a \<open>ready\<close> row of the table, either as the text it was read from and validated, or
  as the text it was serialised to.
\<close>

theorem next_prepared_durable:
  assumes "next_prepared E config root s = (Inr (Some p), t)"
  shows "durable E p (ag_jobs t)"
proof -
  from assms obtain existing u where u: "sql_read (sql_job_text ''ready'') s = (Inr existing, u)"
    and go: "(case existing of
       Some doc \<Rightarrow> bindE (of_result (parse_valid_job E doc)) (\<lambda>p. ret (Some p))
     | None \<Rightarrow> bindE now_ms (\<lambda>now. bindE (claim_due now) (\<lambda>row. case row of
         None \<Rightarrow> ret None
       | Some j \<Rightarrow> bindE (attempt (prepare_job E config j root)) (\<lambda>r. case r of
           Inr prepared \<Rightarrow> ret (Some prepared)
         | Inl e \<Rightarrow> bindE (agent_mark_failed (jb_id j) (agent_error_text E e) True) (\<lambda>_. fail e))))) u = (Inr (Some p), t)"
    unfolding next_prepared_def bindE_Inr_iff by blast
  show ?thesis
  proof (cases existing)
    case (Some doc)
    with go have t: "parse_valid_job E doc = Inr p" "t = u"
      by (cases "parse_valid_job E doc"; simp add: bindE_of_result fail_def ret_def)+
    have "sql_job_text ''ready'' (ag_jobs s) = Some (Some doc)" "ag_jobs u = ag_jobs s"
      using u Some by (simp_all add: sql_read_Inr)
    with t sql_job_text_Some show ?thesis unfolding durable_def by metis
  next
    case None
    from go [unfolded None option.case bindE_Inr_iff]
    obtain now v row w where v: "now_ms u = (Inr now, v)" and w: "claim_due now v = (Inr row, w)"
      and go: "(case row of None \<Rightarrow> ret None
       | Some j \<Rightarrow> bindE (attempt (prepare_job E config j root)) (\<lambda>r. case r of
           Inr prepared \<Rightarrow> ret (Some prepared)
         | Inl e \<Rightarrow> bindE (agent_mark_failed (jb_id j) (agent_error_text E e) True) (\<lambda>_. fail e))) w = (Inr (Some p), t)"
      unfolding bindE_Inr_iff by blast
    obtain j where j: "row = Some j" using go by (cases row) (auto simp: ret_def)
    obtain r x where r: "prepare_job E config j root w = (r, x)" by fastforce
    have run: "prepare_job E config j root w = (Inr p, t)"
    proof (cases r)
      case (Inl e)
      with go j r show ?thesis by (simp add: bindE_attempt bindE_Inr_iff fail_def)
    next
      case (Inr q)
      with go j r show ?thesis by (simp add: bindE_attempt ret_def)
    qed
    have "jb_id j \<in> jb_id ` set (ag_jobs w)"
    proof -
      have "map jb_id (ag_jobs w) = map jb_id (ag_jobs v)" using claim_due_Some [OF w [unfolded j]] by auto
      then have "jb_id ` set (ag_jobs w) = jb_id ` set (ag_jobs v)" by (metis list.set_map)
      then show ?thesis using claim_due_Some [OF w [unfolded j]] by simp
    qed
    with run show ?thesis by (rule prepare_job_durable)
  qed
qed

section \<open>A source that is gone\<close>

lemma prepare_content_lost:
  assumes "prepare_content E config j root s = (r, t)"
    and "look (ag_fs s) (place (path_of (jb_file_path j))) = None" "place (path_of (jb_file_path j)) \<noteq> []"
    and safe: "\<And>f q g. ce_private_create E root f = (q, g) \<Longrightarrow> look f (place (path_of (jb_file_path j))) = None \<Longrightarrow>
      look g (place (path_of (jb_file_path j))) = None"
  shows "\<exists>e. r = Inl e"
proof (rule ccontr)
  let ?src = "place (path_of (jb_file_path j))"
  assume "\<not> ?thesis"
  then obtain p where "r = Inr p" by (cases r) auto
  from assms(1) [unfolded this prepare_content_def Let_def bindE_Inr_iff]
  obtain kind s1 q s2 u s3 rel s4 c s5 where
    "of_result (agent_media_kind (jb_media_kind j)) s = (Inr kind, s1)"
    "on_files Staging_Error (ce_private_create E root) s1 = (Inr q, s2)" "new_v4 s2 = (Inr u, s3)"
    "of_result (map_sum Staging_Error id
      (ce_relative E (path_join (path_of (jb_id j)) (path_of (uuid_str (ce_externals E) u))))) s3 = (Inr rel, s4)"
    "on_files Content_Failure (prepare_file (ce_externals E) (path_of (jb_file_path j))
      (ce_resolve E root rel) (cfg_part_size config)) s4 = (Inr c, s5)"
    by blast
  then obtain a f g out where a: "ce_private_create E root (ag_fs s) = (a, f)"
    and b: "prepare_file (ce_externals E) (path_of (jb_file_path j)) out (cfg_part_size config) f = (Inr c, g)"
    by (auto simp: of_result_Inr on_files_Inr new_v4_def)
  have "look f ?src = None" using safe [OF a] assms(2) by simp
  from b obtain n u where "sys_open_read ?src f = (Inr n, u)"
    by (auto simp: prepare_file_def ct_io_def bindE_Inr_iff ensure_def ret_def fail_def split: if_splits)
  then have "look f ?src = Some n" by (auto simp: sys_open_read_def dest!: syscall_Inr resolve_Inr)
  with \<open>look f ?src = None\<close> show False by simp
qed

text \<open>Making the staging root does not make the source.\<close>

definition gone_stays :: "client_env \<Rightarrow> path \<Rightarrow> job \<Rightarrow> bool" where
  "gone_stays E root j \<longleftrightarrow> (\<forall>f. look f (place (path_of (jb_file_path j))) = None \<longrightarrow>
     look (snd (ce_private_create E root f)) (place (path_of (jb_file_path j))) = None)"

lemma prepare_job_lost:
  assumes "prepare_job E config j root s = (r, t)"
    and "look (ag_fs s) (place (path_of (jb_file_path j))) = None" "place (path_of (jb_file_path j)) \<noteq> []"
    and safe: "gone_stays E root j"
  shows "\<exists>e. r = Inl e" "ag_jobs t = ag_jobs s"
proof -
  obtain q x where q: "prepare_content E config j root s = (q, x)" by fastforce
  obtain e where "q = Inl e"
    using prepare_content_lost [OF q assms(2,3)] safe by (metis gone_stays_def snd_conv)
  then have "r = Inl e" "t = x" using assms(1) q by (auto simp: prepare_job_def bindE_def)
  then show "\<exists>e. r = Inl e" "ag_jobs t = ag_jobs s"
    using obeysD [OF any_jobs.frame_content q, of "\<lambda>js. js = ag_jobs s"] by (auto simp: keeps_jobs_def)
qed

lemma prepare_job_id:
  assumes "prepare_job E config j root s = (Inr p, t)"
  shows "pj_job_id p = jb_id j"
proof -
  from assms [unfolded prepare_job_def bindE_Inr_iff]
  obtain p' a g where "prepare_content E config j root s = (Inr p', a)"
    and "ret p' g = (Inr p :: agent_error + prepared_job, t)"
    by blast
  then show ?thesis using prepare_content_id [of E config j root s p' a] by (simp add: ret_def)
qed

text \<open>A row another job's statement leaves alone, and one that was tried in vain.\<close>

lemma map_other: "j \<in> set js \<Longrightarrow> jb_id j \<noteq> i \<Longrightarrow> j \<in> set (map (\<lambda>k. if jb_id k = i then f k else k) js)"
  by (induction js) auto

definition tried :: "job \<Rightarrow> job list \<Rightarrow> bool" where
  "tried j js \<longleftrightarrow> (\<exists>k \<in> set js. jb_id k = jb_id j \<and> jb_prepared_json k = jb_prepared_json j \<and>
     jb_state k \<in> {''preparing'', ''retry_wait''})"

lemma tried_update:
  assumes "tried j js"
    and "\<And>k. jb_id (f k) = jb_id k \<and> jb_prepared_json (f k) = jb_prepared_json k \<and> jb_state (f k) \<in> {''preparing'', ''retry_wait''}"
  shows "tried j (map (\<lambda>k. if P k then f k else k) js)"
proof -
  obtain k where k: "k \<in> set js" "jb_id k = jb_id j" "jb_prepared_json k = jb_prepared_json j"
    "jb_state k \<in> {''preparing'', ''retry_wait''}"
    using assms(1) by (auto simp: tried_def)
  let ?k = "if P k then f k else k"
  have "?k \<in> set (map (\<lambda>k. if P k then f k else k) js)" using k(1) by auto
  moreover have "jb_id ?k = jb_id j" "jb_prepared_json ?k = jb_prepared_json j" "jb_state ?k \<in> {''preparing'', ''retry_wait''}"
    using k assms(2) [of k] by auto
  ultimately show ?thesis unfolding tried_def by blast
qed

lemma others_prepare: "jb_id j \<noteq> jb_id k \<Longrightarrow> obeys (keeps_jobs (\<lambda>js. j \<in> set js)) (prepare_job E config k root)"
  unfolding prepare_job_def set_ready_def
  by (intro any_jobs.frame_rules any_jobs.frame_content any_jobs.frame_sync_parts any_jobs.frame_gc
      any_jobs.frame_drop any_jobs.frame_update map_other)

lemma others_failed: "jb_id j \<noteq> i \<Longrightarrow> obeys (keeps_jobs (\<lambda>js. j \<in> set js)) (agent_mark_failed i err retryable)"
  unfolding agent_mark_failed_def by (intro any_jobs.frame_rules any_jobs.frame_update map_other)

lemma tried_failed: "obeys (keeps_jobs (tried j)) (agent_mark_failed i err True)"
  unfolding agent_mark_failed_def
  by (intro any_jobs.frame_rules any_jobs.frame_update) (erule tried_update, simp)

text \<open>The row a manifest that is handed out comes from.\<close>

definition handed_from :: "client_env \<Rightarrow> prepared_job \<Rightarrow> job \<Rightarrow> bool" where
  "handed_from E p k \<longleftrightarrow> (if jb_state k = ''ready''
     then Option.bind (jb_prepared_json k) (\<lambda>doc. case parse_valid_job E doc of Inl _ \<Rightarrow> None | Inr p \<Rightarrow> Some p) = Some p
     else pj_job_id p = jb_id k)"

lemma claim_due_next:
  assumes "claim_due now s = (Inr row, t)"
  shows "next_due now (ag_jobs s) = Some row"
proof -
  from assms obtain row' u where "sql_read (next_due now) s = (Inr row', u)"
    and "(case row' of None \<Rightarrow> ret None | Some j \<Rightarrow>
       bindE (sql_update (\<lambda>k. jb_id k = jb_id j) (\<lambda>k. k\<lparr>jb_state := ''preparing'', jb_updated_at_ms := now\<rparr>)) (\<lambda>_.
       ret (Some j))) u = (Inr row, t)"
    unfolding claim_due_def bindE_Inr_iff by blast
  then show ?thesis by (cases row') (auto simp: sql_read_Inr bindE_Inr_iff ret_def)
qed

lemma claim_due_other:
  assumes "claim_due now s = (q, t)" "\<And>j. q \<noteq> Inr (Some j)"
  shows "ag_jobs t = ag_jobs s"
  using assms unfolding claim_due_def sql_read_def sql_update_def sql_def bindE_def ret_def Let_def
  by (auto split: if_splits option.splits prod.splits sum.splits)

text \<open>The part of \<open>next_prepared\<close> that tries a job.\<close>

definition try_job :: "client_env \<Rightarrow> agent_config \<Rightarrow> path \<Rightarrow> job \<Rightarrow> prepared_job option agt" where
  "try_job E config root j = bindE (attempt (prepare_job E config j root)) (\<lambda>r. case r of
       Inr prepared \<Rightarrow> ret (Some prepared)
     | Inl e \<Rightarrow> bindE (agent_mark_failed (jb_id j) (agent_error_text E e) True) (\<lambda>_. fail e))"

lemma try_job_run:
  "prepare_job E config j root s = (q, x) \<Longrightarrow> try_job E config root j s = (case q of
       Inr p \<Rightarrow> (Inr (Some p), x)
     | Inl e \<Rightarrow> (case agent_mark_failed (jb_id j) (agent_error_text E e) True x of
         (Inl e', y) \<Rightarrow> (Inl e', y) | (Inr _, y) \<Rightarrow> (Inl e, y)))"
  by (simp add: try_job_def bindE_attempt ret_def fail_def bindE_def [of "agent_mark_failed _ _ _"] split: sum.splits prod.splits)

lemma try_job_lost:
  assumes "try_job E config root j s = (r, t)" "tried j (ag_jobs s)"
    and gone: "look (ag_fs s) (place (path_of (jb_file_path j))) = None" "place (path_of (jb_file_path j)) \<noteq> []"
      "gone_stays E root j"
  shows "(\<exists>e. r = Inl e) \<and> tried j (ag_jobs t)"
proof -
  obtain q x where q: "prepare_job E config j root s = (q, x)" by fastforce
  obtain e where e: "q = Inl e" "ag_jobs x = ag_jobs s" using prepare_job_lost [OF q gone] by auto
  obtain m y where m: "agent_mark_failed (jb_id j) (agent_error_text E e) True x = (m, y)" by fastforce
  have "tried j (ag_jobs y)"
    using obeysD [OF tried_failed m, of j] assms(2) e(2) by (simp add: keeps_jobs_def)
  then show ?thesis
    using assms(1) e m by (cases m) (auto simp: try_job_run [OF q])
qed

lemma try_job_other:
  assumes "try_job E config root k s = (r, t)" "j \<in> set (ag_jobs s)" "jb_id j \<noteq> jb_id k"
  shows "j \<in> set (ag_jobs t) \<and> (\<forall>p. r = Inr p \<longrightarrow> (\<exists>p'. p = Some p' \<and> pj_job_id p' = jb_id k))"
proof -
  obtain q x where q: "prepare_job E config k root s = (q, x)" by fastforce
  have x: "j \<in> set (ag_jobs x)"
    using obeysD [OF others_prepare [OF assms(3)] q] assms(2) by (simp add: keeps_jobs_def)
  show ?thesis
  proof (cases q)
    case (Inl e)
    obtain m y where m: "agent_mark_failed (jb_id k) (agent_error_text E e) True x = (m, y)" by fastforce
    have "j \<in> set (ag_jobs y)"
      using obeysD [OF others_failed [OF assms(3)] m] x by (simp add: keeps_jobs_def)
    then show ?thesis
      using assms(1) Inl m by (cases m) (auto simp: try_job_run [OF q])
  next
    case (Inr p)
    then show ?thesis
      using assms(1) q x prepare_job_id [of E config k root s p x] by (auto simp: try_job_run [OF q])
  qed
qed

text \<open>\<open>next_prepared\<close> as one case distinction.\<close>

lemma next_prepared_cases:
  assumes "next_prepared E config root s = (r, t)"
  obtains (failed) e where "r = Inl e" "ag_jobs t = ag_jobs s"
    | (stored) k p where "k \<in> set (ag_jobs s)" "jb_state k = ''ready''" "handed_from E p k" "r = Inr (Some p)"
        "ag_jobs t = ag_jobs s"
    | (idle) "r = Inr None" "ag_jobs t = ag_jobs s" "next_due (ag_clock s (Suc (ag_tick s))) (ag_jobs s) = Some None"
    | (attempted) k w where "k \<in> set (ag_jobs s)" "jb_state k \<noteq> ''ready''" "ag_fs w = ag_fs s"
        "next_due (ag_clock s (Suc (ag_tick s))) (ag_jobs s) = Some (Some k)"
        "ag_jobs w = map (\<lambda>i. if jb_id i = jb_id k then i\<lparr>jb_state := ''preparing'',
           jb_updated_at_ms := ag_clock s (Suc (ag_tick s))\<rparr> else i) (ag_jobs s)"
        "try_job E config root k w = (r, t)"
proof -
  obtain d u where d: "sql_read (sql_job_text ''ready'') s = (d, u)" by fastforce
  have u: "ag_jobs u = ag_jobs s" "ag_fs u = ag_fs s" "ag_tick u = Suc (ag_tick s)" "ag_clock u = ag_clock s"
    using d by (auto simp: sql_read_def sql_def Let_def split: if_splits option.splits)
  let ?now = "ag_clock s (Suc (ag_tick s))" and ?v = "u\<lparr>ag_tick := Suc (ag_tick u)\<rparr>"
  show thesis
  proof (cases d)
    case (Inl e)
    then show thesis using assms d u by (intro failed) (auto simp: next_prepared_def bindE_def)
  next
    case (Inr existing)
    show thesis
    proof (cases existing)
      case (Some doc)
      then obtain k where k: "k \<in> set (ag_jobs s)" "jb_state k = ''ready''" "jb_prepared_json k = Some doc"
        using d Inr sql_job_text_Some [of "''ready''" "ag_jobs s" doc] by (auto simp: sql_read_Inr)
      show thesis
      proof (cases "parse_valid_job E doc")
        case (Inl e)
        then show thesis
          using assms d u \<open>d = Inr existing\<close> Some by (intro failed [of e]) (auto simp: next_prepared_def bindE_def of_result_def fail_def)
      next
        case (Inr p)
        then show thesis
          using assms d u \<open>d = Inr existing\<close> Some k
          by (intro stored [of k p]) (auto simp: next_prepared_def bindE_def of_result_def ret_def handed_from_def)
      qed
    next
      case None
      obtain q w where q: "claim_due ?now ?v = (q, w)" by fastforce
      have run: "(case q of Inl e \<Rightarrow> (Inl e, w) | Inr None \<Rightarrow> (Inr None, w) | Inr (Some k) \<Rightarrow> try_job E config root k w) = (r, t)"
        using assms d Inr None u q
        by (auto simp: next_prepared_def bindE_def now_ms_def try_job_def ret_def split: sum.splits option.splits prod.splits)
      have v: "ag_jobs ?v = ag_jobs s" "ag_fs ?v = ag_fs s" using u by simp_all
      show thesis
      proof (cases q)
        case (Inl e)
        then show thesis using run claim_due_other [OF q] v by (intro failed [of e]) auto
      next
        case (Inr row)
        show thesis
        proof (cases row)
          case None
          then show thesis
            using run claim_due_other [OF q] v Inr claim_due_next [OF q [unfolded Inr]] by (intro idle) auto
        next
          case (Some k)
          note k = claim_due_Some [OF q [unfolded Inr Some]]
          show thesis
            using run v Inr Some k claim_due_next [OF q [unfolded Inr]]
            by (intro attempted [of k w]) (auto simp: due_def)
        qed
      qed
    qed
  qed
qed

text \<open>
  C23. A retry needs the source.  Take any job of the queue that is not ready and whose source file is gone,
  whether or not it was prepared before and its parts are still staged, and whatever the other jobs are.
  \<open>next_prepared\<close> leaves its row as it is, or it reports an error and the row waits to be tried again; what it
  hands out is the manifest of another job; and when it is the turn of this job it reports an error.
\<close>

theorem lost_source_never_prepared:
  assumes "next_prepared E config root s = (r, t)" "distinct (map jb_id (ag_jobs s))"
    and j: "j \<in> set (ag_jobs s)" "jb_state j \<noteq> ''ready''"
    and gone: "look (ag_fs s) (place (path_of (jb_file_path j))) = None" "place (path_of (jb_file_path j)) \<noteq> []"
      "gone_stays E root j"
  shows "(case r of
       Inl _ \<Rightarrow> j \<in> set (ag_jobs t) \<or> tried j (ag_jobs t)
     | Inr None \<Rightarrow> j \<in> set (ag_jobs t)
     | Inr (Some p) \<Rightarrow> j \<in> set (ag_jobs t) \<and> (\<exists>k \<in> set (ag_jobs s). jb_id k \<noteq> jb_id j \<and> handed_from E p k)) \<and>
    ((\<forall>k \<in> set (ag_jobs s). jb_state k \<noteq> ''ready'') \<and>
      next_due (ag_clock s (Suc (ag_tick s))) (ag_jobs s) = Some (Some j) \<longrightarrow> (\<exists>e. r = Inl e))"
proof -
  have same: "k = j" if "k \<in> set (ag_jobs s)" "jb_id k = jb_id j" for k
    using assms(2) j(1) that by (auto simp: distinct_map dest: inj_onD)
  from assms(1) show ?thesis
  proof (cases rule: next_prepared_cases)
    case (stored k p)
    moreover from stored j have "jb_id k \<noteq> jb_id j" using same by auto
    ultimately show ?thesis using j(1) by auto
  next
    case (attempted k w)
    show ?thesis
    proof (cases "jb_id k = jb_id j")
      case True
      then have k: "k = j" using attempted(1) by (rule same [rotated])
      have "tried j (ag_jobs w)"
        unfolding attempted(5) tried_def using j(1) k by (intro bexI [of _ "j\<lparr>jb_state := ''preparing'',
          jb_updated_at_ms := ag_clock s (Suc (ag_tick s))\<rparr>"]) (auto intro!: image_eqI [of _ _ j])
      with try_job_lost [OF attempted(6) [unfolded k]] gone attempted(3) show ?thesis by auto
    next
      case False
      have "j \<in> set (ag_jobs w)" unfolding attempted(5) using j(1) False by (intro map_other) auto
      with try_job_other [OF attempted(6)] False
      have other: "j \<in> set (ag_jobs t)" "\<forall>p. r = Inr p \<longrightarrow> (\<exists>p'. p = Some p' \<and> pj_job_id p' = jb_id k)" by auto
      moreover have "jb_id k \<noteq> jb_id j \<and> handed_from E p k" if "pj_job_id p = jb_id k" for p
        using False that attempted(2) by (simp add: handed_from_def)
      moreover have "k \<noteq> j" using False by auto
      ultimately show ?thesis
        using attempted(1,4) by (cases r) (auto split: option.splits)
    qed
  qed (use j(1) in auto)
qed

end
