(* ===== verification/Mobile_Ffi.thy ===== *)
theory Mobile_Ffi
  imports Agent_Queue_Correct
begin

text \<open>
  \<open>crates/mobile-ffi\<close>: the calls the apps make on the queue.  \<open>sarmg_mobile_ffi\<close> (pointers, handles, result
  buffers) is left out: a call has its text arguments decoded and works on the agent of its handle.  The
  theorem of the file is the invariant of the queue over whole sessions of calls.
\<close>

section \<open>The calls\<close>

datatype ffi_error = Ffi_Invalid_Argument | Ffi_Internal

definition MOBILE_DATABASE_FILENAME :: string where
  "MOBILE_DATABASE_FILENAME = ''agent-v0.2-r2.sqlite''"

definition require_path :: "string \<Rightarrow> string \<Rightarrow> ffi_error + unit" where
  "require_path p filename =
     (if \<not> is_absolute (path_of p) \<or> path_file_name (path_of p) \<noteq> Some filename \<or> CHR 0x00 \<in> set p
         \<or> ParentDir \<in> set (path_of p)
      then Inl Ffi_Invalid_Argument else Inr ())"

text \<open>serde's reading of the two arguments; None is a text it refuses.\<close>

record ffi_codec =
  fc_config :: "string \<Rightarrow> agent_config option"
  fc_enqueue :: "string \<Rightarrow> enqueue_resource option"

type_synonym 'a ffi = "(agent, ffi_error, 'a) sem"

definition internal :: "'a agt \<Rightarrow> 'a ffi" where
  "internal m = map_err (\<lambda>_. Ffi_Internal) m"

definition open_error :: "agent_error \<Rightarrow> ffi_error" where
  "open_error e = (case e of Invalid_Contract _ \<Rightarrow> Ffi_Invalid_Argument | _ \<Rightarrow> Ffi_Internal)"

definition open_impl :: "client_env \<Rightarrow> ffi_codec \<Rightarrow> string \<Rightarrow> string \<Rightarrow> string + unit \<Rightarrow> agent_config ffi" where
  "open_impl E F p config_text open_current =
     bindE (of_result (ok_or Ffi_Invalid_Argument (fc_config F config_text))) (\<lambda>config.
     bindE (of_result (require_path p MOBILE_DATABASE_FILENAME)) (\<lambda>_.
     bindE (map_err open_error (agent_open E config open_current)) (\<lambda>_. ret config)))"

definition enqueue_impl :: "client_env \<Rightarrow> ffi_codec \<Rightarrow> string \<Rightarrow> string ffi" where
  "enqueue_impl E F input =
     bindE (of_result (ok_or Ffi_Invalid_Argument (fc_enqueue F input))) (\<lambda>r. internal (enqueue E r))"

definition next_impl :: "client_env \<Rightarrow> agent_config \<Rightarrow> string \<Rightarrow> prepared_job option ffi" where
  "next_impl E config staging =
     bindE (of_result (require_path staging MOBILE_STAGING_DIRECTORY)) (\<lambda>_.
     internal (next_prepared E config (path_of staging)))"

definition stats_impl :: "agent_stats ffi" where
  "stats_impl = internal stats"

definition mb_needs :: "string \<Rightarrow> string \<Rightarrow> i64 \<Rightarrow> bool ffi" where
  "mb_needs asset resource modified_ms = internal (needs_resource asset resource modified_ms)"

definition mb_mark_upload :: "string \<Rightarrow> string \<Rightarrow> unit ffi" where
  "mb_mark_upload job upload = internal (mark_upload job upload)"

definition mb_mark_part :: "string \<Rightarrow> u32 \<Rightarrow> unit ffi" where
  "mb_mark_part job index = internal (mark_part_uploaded job index)"

definition mb_mark_complete :: "client_env \<Rightarrow> string \<Rightarrow> unit ffi" where
  "mb_mark_complete E job = internal (mark_complete E job)"

definition mb_mark_failed :: "string \<Rightarrow> string \<Rightarrow> u8 \<Rightarrow> unit ffi" where
  "mb_mark_failed job message retryable =
     bindE (ensure (\<not> 1 < retryable) Ffi_Invalid_Argument) (\<lambda>_.
     internal (agent_mark_failed job message (retryable = 1)))"

section \<open>Sessions\<close>

datatype ffi_call =
    Call_Open string string "string + unit"
  | Call_Needs string string i64
  | Call_Enqueue string
  | Call_Next string
  | Call_Mark_Upload string string
  | Call_Mark_Part string u32
  | Call_Mark_Complete string
  | Call_Mark_Failed string string u8
  | Call_Stats

text \<open>The configuration of the last successful open stays with the handle; the results are left out.\<close>

definition keep_config :: "agent_config \<Rightarrow> 'a ffi \<Rightarrow> agent_config ffi" where
  "keep_config config m = bindE m (\<lambda>_. ret config)"

fun ffi_call_run :: "client_env \<Rightarrow> ffi_codec \<Rightarrow> agent_config \<Rightarrow> ffi_call \<Rightarrow> agent_config ffi" where
  "ffi_call_run E F c (Call_Open p config cur) = open_impl E F p config cur"
| "ffi_call_run E F c (Call_Needs a r m) = keep_config c (mb_needs a r m)"
| "ffi_call_run E F c (Call_Enqueue input) = keep_config c (enqueue_impl E F input)"
| "ffi_call_run E F c (Call_Next staging) = keep_config c (next_impl E c staging)"
| "ffi_call_run E F c (Call_Mark_Upload j u) = keep_config c (mb_mark_upload j u)"
| "ffi_call_run E F c (Call_Mark_Part j n) = keep_config c (mb_mark_part j n)"
| "ffi_call_run E F c (Call_Mark_Complete j) = keep_config c (mb_mark_complete E j)"
| "ffi_call_run E F c (Call_Mark_Failed j m b) = keep_config c (mb_mark_failed j m b)"
| "ffi_call_run E F c Call_Stats = keep_config c stats_impl"

fun ffi_session :: "client_env \<Rightarrow> ffi_codec \<Rightarrow> agent_config \<Rightarrow> ffi_call list \<Rightarrow> agent \<Rightarrow> agent" where
  "ffi_session E F c [] s = s"
| "ffi_session E F c (x # xs) s = (case ffi_call_run E F c x s of
     (Inl e, t) \<Rightarrow> ffi_session E F c xs t | (Inr d, t) \<Rightarrow> ffi_session E F d xs t)"

section \<open>The invariant\<close>

context jobs_laws
begin

lemma keeps_internal: "obeys (keeps_jobs I) m \<Longrightarrow> obeys (keeps_jobs I) (internal m)"
  unfolding internal_def by (rule obeys_map_err)

lemma keeps_call: "obeys (keeps_jobs I) (ffi_call_run E F c x)"
  by (cases x)
     (simp_all add: keep_config_def open_impl_def enqueue_impl_def next_impl_def stats_impl_def mb_needs_def
       mb_mark_upload_def mb_mark_part_def mb_mark_complete_def mb_mark_failed_def;
      intro obeys_rules keeps_internal keeps_open keeps_enqueue keeps_next_prepared keeps_reads keeps_failed keeps_upload
        keeps_complete keeps_part)+

lemma keeps_session: "I (ag_jobs s) \<Longrightarrow> I (ag_jobs (ffi_session E F c xs s))"
proof (induction xs arbitrary: c s)
  case (Cons x xs)
  obtain r t where run: "ffi_call_run E F c x s = (r, t)" by fastforce
  then have "I (ag_jobs t)" using obeysD [OF keeps_call run] Cons.prems by (simp add: keeps_jobs_def)
  with run Cons.IH show ?case by (cases r) simp_all
qed simp

end

text \<open>
  C9. The invariant of the queue.  Whatever calls an app makes, in whatever order and with whatever
  arguments, and whichever statement or file operation fails: job ids stay distinct, a resource has at most
  one job, every job is in one of the seven states, its columns can be read back, and a \<open>ready\<close> job has its
  manifest.
\<close>

theorem queue_invariant:
  assumes "queue_ok (ag_jobs s)"
  shows "queue_ok (ag_jobs (ffi_session E F c calls s))"
  using assms by (rule queue.keeps_session)

end
