(* ===== verification/Agent_Examples.thy ===== *)
theory Agent_Examples
  imports Client_Restore Mobile_Ffi
begin

text \<open>The theorems about the queue, applied to a queue of one job on the files of \<open>Client_Restore\<close>.\<close>

definition queue_env :: client_env where
  "queue_env = \<lparr>ce_externals = client_externals, ce_job_to_string = (\<lambda>_. Inr ''doc''),
     ce_job_from_str = (\<lambda>_. Inl ''''), ce_metadata_from_str = (\<lambda>_. Inl ''''), ce_io_text = (\<lambda>_. ''''),
     ce_database_text = '''', ce_private_create = (\<lambda>_. ret ()), ce_private_sync = (\<lambda>_. ret ()),
     ce_relative = Inr, ce_resolve = path_join, ce_sync_file_and_parent = (\<lambda>_. ret ()),
     ce_sync_directory = (\<lambda>_. ret ()), ce_inventory = (\<lambda>_ _ _. ret ())\<rparr>"

definition queue_config :: agent_config where
  "queue_config = \<lparr>cfg_product = MOBILE_PRODUCT, cfg_application_version = MOBILE_APPLICATION_VERSION,
     cfg_revision = MOBILE_REVISION, cfg_state_epoch = MOBILE_STATE_EPOCH, cfg_part_size = 2\<rparr>"

definition queue_root :: path where
  "queue_root = [Normal ''staging'']"

definition queue_job :: "string \<Rightarrow> string option \<Rightarrow> job" where
  "queue_job st doc = \<lparr>jb_id = ''j'', jb_source_asset_id = ''s'', jb_source_resource_id = ''r'', jb_media_kind = ''photo'',
     jb_role = ''primary'', jb_file_path = ''src'', jb_filename = ''f'', jb_mime_type = ''m'',
     jb_source_created_at_ms = 0, jb_modified_ms = 0, jb_source_size = 5, jb_metadata_json = None,
     jb_remove_source = True, jb_state = st, jb_prepared_json = doc, jb_upload_id = None, jb_retry_count = 3,
     jb_next_retry_ms = 0, jb_error = None, jb_updated_at_ms = 0\<rparr>"

definition queue_agent :: "job \<Rightarrow> fs \<Rightarrow> agent" where
  "queue_agent j f = \<lparr>ag_jobs = [j], ag_parts = [], ag_fs = f, ag_tick = 0, ag_fault = (\<lambda>_. False),
     ag_clock = (\<lambda>n. int n * 10000000), ag_uuids = (\<lambda>n. word_of_nat n), ag_drawn = 0\<rparr>"

text \<open>
  The course of events of \<open>lost_source_never_prepared\<close>: the job is prepared, its source is removed, its
  upload fails in a way that can be retried, and the retry fails for want of the source.
\<close>

definition retry_run :: "(agent_error + bool \<times> agent_error option) \<times> agent" where
  "retry_run =
     bindE (next_prepared queue_env queue_config queue_root) (\<lambda>p.
     bindE (mark_upload ''j'' ''upload'') (\<lambda>_.
     bindE (agent_mark_failed ''j'' ''connection lost'' True) (\<lambda>_.
     bindE (attempt (next_prepared queue_env queue_config queue_root)) (\<lambda>q.
     ret (case p of None \<Rightarrow> False | Some _ \<Rightarrow> True, case q of Inl e \<Rightarrow> Some e | Inr _ \<Rightarrow> None)))))
     (queue_agent (queue_job ''discovered'' None) client_fs)"

lemma retry_run_fails: "fst retry_run = Inr (True, Some (Content_Failure (Io NotFound)))"
  by code_simp

theorem open_recovers_witness:
  "\<exists>t. agent_open queue_env queue_config (Inr ()) (queue_agent (queue_job ''preparing'' None) client_fs) = (Inr (), t) \<and>
     (\<forall>j \<in> set (ag_jobs t). jb_state j \<in> {''complete'', ''failed'', ''ready'', ''discovered'', ''retry_wait''} \<or>
        jb_state j = ''uploading'' \<and> jb_prepared_json j = None)"
proof -
  let ?s = "queue_agent (queue_job ''preparing'' None) client_fs"
  have "fst (agent_open queue_env queue_config (Inr ()) ?s) = Inr ()" by code_simp
  then obtain t where run: "agent_open queue_env queue_config (Inr ()) ?s = (Inr (), t)" by (metis prod.collapse)
  have ok: "queue_ok (ag_jobs ?s)"
    by (simp add: queue_ok_def queue_agent_def queue_job_def job_ok_def u64_of_i64_def i64_max_def)
  from run open_recovers [OF run ok] show ?thesis by blast
qed

theorem retry_backoff_witness:
  "\<exists>t j. agent_mark_failed ''j'' ''e'' True (queue_agent (queue_job ''uploading'' None) client_fs) = (Inr (), t) \<and>
     find (\<lambda>j. jb_id j = ''j'') (ag_jobs t) = Some j \<and> jb_next_retry_ms j = 10000000 + 2000 * 2 ^ 3"
proof -
  let ?s = "queue_agent (queue_job ''uploading'' None) client_fs"
  have "fst (agent_mark_failed ''j'' ''e'' True ?s) = Inr ()" by code_simp
  then obtain t where run: "agent_mark_failed ''j'' ''e'' True ?s = (Inr (), t)" by (metis prod.collapse)
  from retry_backoff [OF run] run show ?thesis by (auto simp: queue_agent_def queue_job_def)
qed

theorem stats_total_witness:
  "\<exists>st t. stats (queue_agent (queue_job ''failed'' None) client_fs) = (Inr st, t) \<and>
     unat (as_discovered st) + unat (as_ready st) + unat (as_uploading st) + unat (as_complete st) +
     unat (as_retry_wait st) + unat (as_failed st) = 1"
proof -
  let ?s = "queue_agent (queue_job ''failed'' None) client_fs"
  obtain st t where run: "stats ?s = (Inr st, t)"
    by (simp add: stats_def sql_read_Inr queue_agent_def)
  have "queue_ok (ag_jobs ?s)" "length (ag_jobs ?s) < 2 ^ 64"
    by (simp_all add: queue_ok_def queue_agent_def queue_job_def job_ok_def u64_of_i64_def i64_max_def)
  from stats_total [OF run this] run show ?thesis by (auto simp: queue_agent_def)
qed

theorem next_prepared_durable_witness:
  "\<exists>p t. next_prepared queue_env queue_config queue_root (queue_agent (queue_job ''discovered'' None) client_fs) =
     (Inr (Some p), t) \<and> durable queue_env p (ag_jobs t)"
proof -
  let ?s = "queue_agent (queue_job ''discovered'' None) client_fs"
  have "(case fst (next_prepared queue_env queue_config queue_root ?s) of Inr (Some _) \<Rightarrow> True | _ \<Rightarrow> False)"
    by code_simp
  then obtain p t where run: "next_prepared queue_env queue_config queue_root ?s = (Inr (Some p), t)"
    by (cases "next_prepared queue_env queue_config queue_root ?s") (auto split: sum.splits option.splits)
  with next_prepared_durable [OF run] show ?thesis by blast
qed

text \<open>
  A queue of two jobs: the source of the first is gone although its parts are staged, the second can be
  prepared.  It is the turn of the first.
\<close>

definition lost_job :: job where
  "lost_job = (queue_job ''retry_wait'' (Some ''doc''))\<lparr>jb_id := ''k'', jb_source_resource_id := ''q'', jb_file_path := ''lost''\<rparr>"

definition lost_agent :: agent where
  "lost_agent = (queue_agent (queue_job ''discovered'' None) client_fs)\<lparr>ag_jobs := [lost_job, queue_job ''discovered'' None]\<rparr>"

theorem lost_source_never_prepared_witness:
  "\<exists>e t. next_prepared queue_env queue_config queue_root lost_agent = (Inl e, t) \<and>
     (lost_job \<in> set (ag_jobs t) \<or> tried lost_job (ag_jobs t))"
proof -
  obtain r t where run: "next_prepared queue_env queue_config queue_root lost_agent = (r, t)" by fastforce
  have src: "place (path_of (jb_file_path lost_job)) = [''lost'']" by code_simp
  have turn: "next_due (ag_clock lost_agent (Suc (ag_tick lost_agent))) (ag_jobs lost_agent) = Some (Some lost_job)"
    by code_simp
  have jobs: "distinct (map jb_id (ag_jobs lost_agent))" "lost_job \<in> set (ag_jobs lost_agent)"
    "jb_state lost_job \<noteq> ''ready''" "\<forall>k \<in> set (ag_jobs lost_agent). jb_state k \<noteq> ''ready''"
    by (simp_all add: lost_agent_def lost_job_def queue_job_def)
  have gone: "look (ag_fs lost_agent) (place (path_of (jb_file_path lost_job))) = None"
    "place (path_of (jb_file_path lost_job)) \<noteq> []" "gone_stays queue_env queue_root lost_job"
    by (simp_all add: src gone_stays_def queue_env_def ret_def)
      (simp add: lost_agent_def queue_agent_def client_fs_def look_def)
  from lost_source_never_prepared [OF run jobs(1-3) gone] turn jobs(4) run show ?thesis by auto
qed

definition queue_codec :: ffi_codec where
  "queue_codec = \<lparr>fc_config = (\<lambda>_. Some queue_config), fc_enqueue = (\<lambda>_. None)\<rparr>"

theorem queue_invariant_witness:
  "queue_ok (ag_jobs (ffi_session queue_env queue_codec queue_config
     [Call_Mark_Upload ''j'' ''u'', Call_Mark_Failed ''j'' ''e'' 1, Call_Next ''/x/backup-staging-v0.2-r2'']
     (queue_agent (queue_job ''discovered'' None) client_fs)))"
  by (rule queue_invariant)
     (simp add: queue_ok_def queue_agent_def queue_job_def job_ok_def u64_of_i64_def i64_max_def)

end
