(* ===== verification/Spec2Isabelle.thy ===== *)
theory Spec2Isabelle
  imports Paging Configuration Runtime_Lock Server_Examples Client_Server
begin

text \<open>
  A model of media-backup: a server that stores the photos and videos of several accounts, and the client
  library that queues and prepares them.  All names of files are below \<open>src/crates\<close>.

  \<^bold>\<open>The program.\<close>  A client walks the media of a device, keeps a job per resource in a small database
  (\<open>agent-core\<close>), splits each file into parts with their hashes (\<open>crypto\<close>) and sends the manifest and the
  parts to the server (the types are those of \<open>protocol\<close>).  The server (\<open>server\<close>) authenticates the request
  (\<open>auth.rs\<close>), admits it (\<open>login_admission.rs\<close>, \<open>trusted_proxy.rs\<close>, the semaphores of \<open>routes.rs\<close>), stores the parts
  in its data directory (\<open>storage.rs\<close> over \<open>rooted_fs.rs\<close>), and turns a complete upload into a blob and
  metadata (\<open>upload_commit.rs\<close>).  \<open>library.rs\<close> reads and edits the metadata, \<open>api_access.rs\<close> and \<open>admin.rs\<close> manage
  keys and accounts, \<open>audit.rs\<close> writes the log.

  \<^bold>\<open>How state and effects are modelled.\<close>  Every stateful component is a computation of \<open>sem\<close> (\<open>Prelude\<close>): it takes a state
  and returns an error or a value, and the new state; \<open>bindE\<close> is \<open>?\<close> and sequencing.  Integers of fixed width
  are words, \<open>i64\<close> columns are bounded integers, strings are UTF-8 byte strings.  Three states occur.
  \<^item> \<open>fs\<close> (\<open>Rooted_Fs\<close>): names, inodes and contents below a directory.  Each system call may fail (\<open>fs_fault\<close>)
    and a read may be short (\<open>fs_chunk\<close>), so a theorem over all \<open>fs\<close> is a theorem over all such failures.
  \<^item> \<open>server\<close> (\<open>Server_State\<close>): the tables of \<open>schema/product.sql\<close> and an \<open>fs\<close>.  A statement is one step; it may fail
    (\<open>srv_fault\<close>), and before every statement outside a transaction the other requests run
    (\<open>srv_others\<close>), so a theorem also speaks of every interleaving; \<open>rely\<close> says what the others respect.
    A transaction is rolled back when its body or its end fails.
  \<^item> \<open>agent\<close> (\<open>Agent_Queue\<close>): the tables \<open>jobs\<close> and \<open>job_parts\<close> and an \<open>fs\<close>, again with failing statements.

  \<^bold>\<open>Theories.\<close>
  \<^item> \<open>Prelude\<close>, \<open>Rust_Text\<close>: computations, checked arithmetic, the used part of Rust's strings and paths.  The locale
    \<open>run_preorder\<close> states once how a relation between the states before and after travels through a computation
    (\<open>obeys\<close>); the frames below extend it.
  \<^item> \<open>Protocol\<close>, \<open>App_Error\<close>: \<open>protocol/src/lib.rs\<close> and \<open>error.rs\<close>.
  \<^item> \<open>Trusted_Proxy\<close>, \<open>Binary64\<close>, \<open>Login_Admission\<close>, \<open>Upload_Admission\<close>: \<open>trusted_proxy.rs\<close>; the rounding of \<open>f64\<close> and
    its error; \<open>login_admission.rs\<close> with its token buckets and the password semaphore as a step relation; the upload semaphores of \<open>routes.rs\<close> as a step relation.
  \<^item> \<open>Rooted_Fs\<close>, \<open>Storage\<close>, \<open>Storage_Correct\<close>, \<open>Stored_Objects\<close>: \<open>rooted_fs.rs\<close> and \<open>storage.rs\<close>; what a stored part, stage and
    blob is, and what every operation keeps of the stored objects.
  \<^item> \<open>Server_State\<close>: the tables, statements and transactions, \<open>audit.rs\<close>, and the locale \<open>server_frame\<close>: an invariant
    of the tables and relations on tables and directory, kept by a run whenever the others keep them.
  \<^item> \<open>Upload_Commit\<close>, \<open>Commit_Frame\<close>, \<open>Upload_Commit_Correct\<close>, \<open>Commit_Lifecycle\<close>: \<open>upload_commit.rs\<close>.  \<open>commit_frame\<close> is the
    interface between a frame and the commit; \<open>Commit_Lifecycle\<close> has the abstract machine that the commit refines.
  \<^item> \<open>Upload_Routes\<close>, \<open>Upload_Routes_Correct\<close>: the upload and resource handlers of \<open>routes.rs\<close>.
  \<^item> \<open>Library\<close>, \<open>Paging\<close>, \<open>Trash\<close>: \<open>library.rs\<close>; the locale \<open>paging\<close> with its three uses; permanent deletion.
  \<^item> \<open>Accounts\<close>, \<open>Access\<close>: \<open>auth.rs\<close>, \<open>api_access.rs\<close> and the login of \<open>routes.rs\<close>; who gets in.
  \<^item> \<open>Administration\<close>, \<open>Admin_Correct\<close>: \<open>admin.rs\<close>, \<open>password.rs\<close>; the directories of the accounts stay apart.
  \<^item> \<open>Isolation\<close>, \<open>Api_Router\<close>: the protected routes as one datatype, and tenant isolation over all of them.
  \<^item> \<open>Client_Content\<close>, \<open>Client_Content_Correct\<close>, \<open>Client_Restore\<close>: \<open>crypto/src/lib.rs\<close>.
  \<^item> \<open>Agent_Queue\<close>, \<open>Agent_Queue_Correct\<close>, \<open>Mobile_Ffi\<close>: \<open>agent-core/src/lib.rs\<close> and the calls of \<open>mobile-ffi\<close>; the locale
    \<open>jobs_laws\<close> says what the statements of the queue must keep, and gives it for whole sessions of calls.
  \<^item> \<open>Client_Server\<close>: the manifests of the queue meet the validation of the server.
  \<^item> \<open>Configuration\<close>, \<open>Runtime_Lock\<close>: \<open>config.rs\<close>, \<open>metrics.rs\<close> and the command line of \<open>main.rs\<close>; \<open>runtime_lock.rs\<close>.
  \<^item> \<open>Commit_Examples\<close>, \<open>Upload_Examples\<close>, \<open>Server_Examples\<close>, \<open>Agent_Examples\<close>: small states on which the theorems are applied.

  \<^bold>\<open>What the theorems show.\<close>
  \<^item> Uploads: an accepted part, a stage and a published blob have the declared size and hash, under short
    reads and every failure; nothing that exists is overwritten; the sweeps remove only orphans; a
    completion that reports success has stored content and metadata, and the persisted state only moves along the
    edges of the life cycle; admission respects the quota and accepts exactly the well-formed manifests.
  \<^item> Tenants: keys stay below the directory of their account, directories stay apart, a request leaves what the tables hold
    for another account alone, and only live credentials get in.
  \<^item> Limits: attempts per login key are bounded, for the arithmetic of \<open>f64\<close> and instants in any order; concurrent
    password checks and uploads are bounded, the semaphores do not deadlock, under any limits one account
    can hold all of the server's upload permits and keep the others waiting, and two processes never run on the same database or data directory.
  \<^item> Reads: following the cursors of the timeline, change feed and audit log reads every row once.
  \<^item> Client: splitting equals the reference division of the content, restoring is all or nothing and returns
    the file that was split, the queue keeps its invariant through any calls and recovers after a crash, nothing is
    handed out before it is durable, a job whose source is gone can never be prepared again, whatever else is in the
    queue, and what the queue prepares is a manifest the server accepts.

  \<^bold>\<open>Loops and bounds.\<close>  Every function is total.  Loops over rows, parts, frames and paths are structural.
  \<open>read_loop\<close> and \<open>fill_part\<close> end because each round reads at least one byte or stops; \<open>prepare_loop\<close> counts
  up to \<open>MAX_CONTENT_PARTS\<close> (4096) as the code does; \<open>race_retry\<close> has the three attempts of the code, and its end is the
  conflict the code reports.  No fuel is used.

  \<^bold>\<open>Parameters.\<close>  BLAKE3, SHA-256, base64, the \<open>uuid\<close> crate, serde's conversions, Argon2 and password rules,
  Unicode lower case, and for the client the private-file helpers of \<open>sarmg_agent_fs_safety\<close> are arguments of
  the definitions that use them.  Theorems that need a property of them say so.
  The token buckets take the rounding as an argument; their bound is for \<open>f64\<close>.

  \<^bold>\<open>Not modelled.\<close>  \<open>main.rs\<close> beyond its command line (sockets, signals, assembly of the router);
  \<open>database.rs\<close> of the server and of the agent (pragmas, comparison of schema texts and migrations inside SQLite);
  \<open>doctor.rs\<close> and \<open>release.rs\<close> (operational reports, and the check of an installed release against its manifest);
  \<open>web_assets.rs\<close> (embedded files); the JNI layer and handles of \<open>mobile-ffi\<close>; the administrator session of an external crate;
  log lines.  SQLite is modelled by the effect of each statement with the constraints of the schema, not by its SQL.
  Crashes of the server are the fail points of \<open>upload_commit.rs\<close> and failing steps; loss of unsynced data is not modelled.
\<close>

end
